(* ===== verification/Prelude.thy ===== *)
theory Prelude
  imports Main "HOL-Library.Word"
begin

text \<open>
  What the components share: the machine types of the target (a 32-bit little-endian ARM:
  \<open>int\<close>, \<open>long\<close>, \<open>off_t\<close>, \<open>size_t\<close> and pointers are 32 bits wide, two's complement),
  memory as a function from addresses to bytes with 32-bit loads and stores, the outcome of
  code that may call \<open>exit\<close> or throw, and the lemmas on bytes and memory that carry the
  component proofs. Signed values are read with \<open>sint\<close> and compared with \<open><s\<close>;
  arithmetic wraps.
\<close>

unbundle bit_operations_syntax

type_synonym byte = "8 word"
type_synonym u16 = "16 word"
type_synonym u32 = "32 word"
type_synonym mem = "u32 \<Rightarrow> byte"

named_theorems bytes32 \<open>splitting 32-bit words into bytes and back\<close>
named_theorems mem_simps \<open>loads after stores\<close>

subsection \<open>Outcomes\<close>

text \<open>A C++ function returns, ends the process with \<open>exit(n)\<close>, or throws.\<close>

datatype 'a outcome = Ret 'a | Exit int | Throw string

fun bind_outcome :: "'a outcome \<Rightarrow> ('a \<Rightarrow> 'b outcome) \<Rightarrow> 'b outcome" where
  "bind_outcome (Ret x) f = f x"
| "bind_outcome (Exit n) f = Exit n"
| "bind_outcome (Throw e) f = Throw e"

subsection \<open>Bytes of a word\<close>

definition byte_at :: "nat \<Rightarrow> u32 \<Rightarrow> byte" where
  "byte_at k w = ucast (drop_bit (8 * k) w)"

definition cat32 :: "byte \<Rightarrow> byte \<Rightarrow> byte \<Rightarrow> byte \<Rightarrow> u32" where
  "cat32 b0 b1 b2 b3 =
     ucast b0 OR push_bit 8 (ucast b1) OR push_bit 16 (ucast b2) OR push_bit 24 (ucast b3)"

text \<open>The bytes of a word in memory (little endian) and on the wire (network order).\<close>

definition le32 :: "u32 \<Rightarrow> byte list" where
  "le32 w = [byte_at 0 w, byte_at 1 w, byte_at 2 w, byte_at 3 w]"

definition be32 :: "u32 \<Rightarrow> byte list" where
  "be32 w = [byte_at 3 w, byte_at 2 w, byte_at 1 w, byte_at 0 w]"

text \<open>\<open>htonl\<close> and \<open>ntohl\<close> of a little-endian host: the byte swap.\<close>

definition htonl :: "u32 \<Rightarrow> u32" where
  "htonl w = cat32 (byte_at 3 w) (byte_at 2 w) (byte_at 1 w) (byte_at 0 w)"

definition ntohl :: "u32 \<Rightarrow> u32" where
  "ntohl w = cat32 (byte_at 3 w) (byte_at 2 w) (byte_at 1 w) (byte_at 0 w)"

subsection \<open>Memory\<close>

definition load32 :: "mem \<Rightarrow> u32 \<Rightarrow> u32" where
  "load32 m a = cat32 (m a) (m (a + 1)) (m (a + 2)) (m (a + 3))"

definition store32 :: "mem \<Rightarrow> u32 \<Rightarrow> u32 \<Rightarrow> mem" where
  "store32 m a w =
     m(a := byte_at 0 w, a + 1 := byte_at 1 w, a + 2 := byte_at 2 w, a + 3 := byte_at 3 w)"

text \<open>Two 4-byte cells that share no byte.\<close>

definition apart4 :: "u32 \<Rightarrow> u32 \<Rightarrow> bool" where
  "apart4 a b \<longleftrightarrow> 4 \<le> b - a \<and> 4 \<le> a - b"

definition load_bytes :: "mem \<Rightarrow> u32 \<Rightarrow> nat \<Rightarrow> byte list" where
  "load_bytes m a n = map (\<lambda>i. m (a + of_nat i)) [0..<n]"

fun store_bytes :: "mem \<Rightarrow> u32 \<Rightarrow> byte list \<Rightarrow> mem" where
  "store_bytes m a [] = m"
| "store_bytes m a (b # bs) = store_bytes (m(a := b)) (a + 1) bs"

subsection \<open>Lemmas on outcomes\<close>

lemma bind_outcome_Ret_iff [simp]:
  "bind_outcome x f = Ret y \<longleftrightarrow> (\<exists>z. x = Ret z \<and> f z = Ret y)"
  by (cases x) auto

lemma bind_outcome_assoc:
  "bind_outcome (bind_outcome x f) g = bind_outcome x (\<lambda>y. bind_outcome (f y) g)"
  by (cases x) auto

subsection \<open>Lemmas on bytes\<close>

lemma bit_byte_ge [simp]: "8 \<le> n \<Longrightarrow> \<not> bit (b :: byte) n"
  by (auto dest: bit_imp_le_length)

lemma cat32_byte_at [bytes32, simp]:
  "cat32 (byte_at 0 w) (byte_at 1 w) (byte_at 2 w) (byte_at 3 w) = w"
proof (rule bit_word_eqI)
  fix n assume "n < LENGTH(32)"
  then consider "n < 8" | "8 \<le> n" "n < 16" | "16 \<le> n" "n < 24" | "24 \<le> n" "n < 32"
    by fastforce
  then show "bit (cat32 (byte_at 0 w) (byte_at 1 w) (byte_at 2 w) (byte_at 3 w)) n = bit w n"
    by cases (auto simp: cat32_def byte_at_def bit_simps less_diff_conv2)
qed

lemma byte_at_cat32 [bytes32, simp]:
  "byte_at 0 (cat32 a b c d) = a"
  "byte_at 1 (cat32 a b c d) = b"
  "byte_at (Suc 0) (cat32 a b c d) = b"
  "byte_at 2 (cat32 a b c d) = c"
  "byte_at 3 (cat32 a b c d) = d"
  by (auto intro!: bit_word_eqI simp: cat32_def byte_at_def bit_simps)

lemma cat32_byte_at_Suc [simp]:
  "cat32 (byte_at 0 w) (byte_at (Suc 0) w) (byte_at 2 w) (byte_at 3 w) = w"
  using cat32_byte_at [of w] by simp

lemma ntohl_htonl [simp]: "ntohl (htonl w) = w"
  by (simp add: ntohl_def htonl_def)

lemma htonl_ntohl [simp]: "htonl (ntohl w) = w"
  by (simp add: ntohl_def htonl_def)

lemma le32_htonl: "le32 (htonl w) = be32 w"
  by (simp add: le32_def be32_def htonl_def)

lemma length_le32 [simp]: "length (le32 w) = 4"
  by (simp add: le32_def)

lemma length_be32 [simp]: "length (be32 w) = 4"
  by (simp add: be32_def)

lemma le32_inject [simp]: "le32 v = le32 w \<longleftrightarrow> v = w"
proof
  assume "le32 v = le32 w"
  then have "cat32 (byte_at 0 v) (byte_at 1 v) (byte_at 2 v) (byte_at 3 v) =
             cat32 (byte_at 0 w) (byte_at 1 w) (byte_at 2 w) (byte_at 3 w)"
    by (simp add: le32_def)
  then show "v = w" by (simp only: cat32_byte_at)
qed simp

subsection \<open>Counting up in a word\<close>

lemma unat_inc: "i < (len :: u32) \<Longrightarrow> unat (i + 1) = Suc (unat i)"
  by unat_arith

lemma inc_le_iff: "i < (len :: u32) \<Longrightarrow> i + 1 \<le> j \<longleftrightarrow> i < j"
  by (simp add: word_le_nat_alt word_less_nat_alt unat_inc Suc_le_eq)

lemma word_diff_step: "i < (len :: u32) \<Longrightarrow> unat (len - (i + 1)) < unat (len - i)"
  by unat_arith

subsection \<open>Signed comparison of small values\<close>

lemma sint_small:
  assumes "unat (x :: u32) < 2 ^ 31"
  shows "sint x = uint x"
proof -
  have "int (unat x) < int (2 ^ 31)" using assms by (simp only: of_nat_less_iff)
  then have "uint x < 2 ^ 31" by simp
  moreover have "0 \<le> uint x" by simp
  ultimately have "- (2 ^ 31) \<le> uint x" and "uint x < 2 ^ 31" by linarith+
  then have "signed_take_bit 31 (uint x) = uint x" by (rule signed_take_bit_int_eq_self)
  then show ?thesis by (simp only: sint_uint) simp
qed

lemma sint_negative:
  assumes "2 ^ 31 \<le> unat (x :: u32)"
  shows "sint x < 0"
proof -
  have "int (2 ^ 31) \<le> int (unat x)" using assms by (simp only: of_nat_le_iff)
  then have big: "2 ^ 31 \<le> uint x" by simp
  have less: "sint x < 2 ^ 31" using sint_lt [of x] by simp
  have "uint x = take_bit 32 (sint x)" by (simp add: uint_sint)
  then have "0 \<le> sint x \<Longrightarrow> uint x = sint x" using less by (simp add: take_bit_int_eq_self)
  with big less show ?thesis by linarith
qed

lemma sle_small: "unat (x :: u32) < 2 ^ 31 \<Longrightarrow> unat y < 2 ^ 31 \<Longrightarrow> x <=s y \<longleftrightarrow> unat x \<le> unat y"
  by (simp only: word_sle_eq sint_small) (simp only: word_le_def [symmetric] word_le_nat_alt)

lemma sless_small: "unat (x :: u32) < 2 ^ 31 \<Longrightarrow> unat y < 2 ^ 31 \<Longrightarrow> x <s y \<longleftrightarrow> unat x < unat y"
  by (simp only: word_sless_alt sint_small) (simp only: word_less_def [symmetric] word_less_nat_alt)

lemma unat_lt32: "unat (x :: u32) < 2 ^ 32"
  using unsigned_less [of x, where ?'a = nat] by simp

lemma unat_mult_small: "unat x * unat y < 2 ^ 32 \<Longrightarrow> unat (x * y :: u32) = unat x * unat y"
  by (simp add: unat_word_ariths)

lemma unat_add_small: "unat x + unat y < 2 ^ 32 \<Longrightarrow> unat (x + y :: u32) = unat x + unat y"
  by (simp add: unat_word_ariths)

subsection \<open>Lemmas on memory\<close>

lemma load32_store32_same [mem_simps, simp]: "load32 (store32 m a w) a = w"
  by (simp add: load32_def store32_def)

lemma apart4_sym: "apart4 a b \<Longrightarrow> apart4 b a"
  by (simp add: apart4_def)

lemma apart4_neq:
  assumes "apart4 a b" and "x < 4" and "y < 4"
  shows "b + y \<noteq> a + x"
proof
  assume eq: "b + y = a + x"
  show False
  proof (cases "y \<le> x")
    case True
    have "b - a = (b + y) - (a + y)" by simp
    then have "b - a = x - y" by (simp add: eq)
    moreover have "x - y \<le> x" using True by (simp add: word_sub_le)
    ultimately show False using assms by (auto simp: apart4_def)
  next
    case False
    have "a - b = (a + x) - (b + x)" by simp
    then have "a - b = y - x" by (simp add: eq [symmetric])
    moreover have "y - x \<le> y" using False by (simp add: word_sub_le)
    ultimately show False using assms by (auto simp: apart4_def)
  qed
qed

lemma store32_other: "apart4 a b \<Longrightarrow> y < 4 \<Longrightarrow> store32 m a w (b + y) = m (b + y)"
  using apart4_neq [of a b 0 y] apart4_neq [of a b 1 y] apart4_neq [of a b 2 y] apart4_neq [of a b 3 y]
  by (simp add: store32_def)

lemma load32_store32_other [mem_simps]: "apart4 a b \<Longrightarrow> load32 (store32 m a w) b = load32 m b"
  using store32_other [of a b 0] store32_other [of a b 1] store32_other [of a b 2] store32_other [of a b 3]
  by (simp add: load32_def)

lemma length_load_bytes [simp]: "length (load_bytes m a n) = n"
  by (simp add: load_bytes_def)

lemma load_bytes_0 [simp]: "load_bytes m a 0 = []"
  by (simp add: load_bytes_def)

lemma nth_load_bytes [simp]: "i < n \<Longrightarrow> load_bytes m a n ! i = m (a + of_nat i)"
  by (simp add: load_bytes_def)

lemma take_load_bytes [simp]: "k \<le> n \<Longrightarrow> take k (load_bytes m a n) = load_bytes m a k"
  by (simp add: load_bytes_def take_map)

lemma drop_load_bytes [simp]: "drop k (load_bytes m a n) = load_bytes m (a + of_nat k) (n - k)"
  by (rule nth_equalityI) (simp_all add: add.assoc)

lemma store_bytes_apply:
  "length bs \<le> 2 ^ 32 \<Longrightarrow>
   store_bytes m a bs x = (if unat (x - a) < length bs then bs ! unat (x - a) else m x)"
proof (induction bs arbitrary: m a)
  case Nil
  then show ?case by simp
next
  case (Cons b bs)
  have IH: "store_bytes (m(a := b)) (a + 1) bs x =
      (if unat (x - (a + 1)) < length bs then bs ! unat (x - (a + 1)) else (m(a := b)) x)"
    using Cons by simp
  show ?case
  proof (cases "x = a")
    case True
    have "unat (- 1 :: u32) = 2 ^ 32 - 1" by (simp add: unsigned_minus_1_eq_mask mask_eq_exp_minus_1)
    with True Cons.prems show ?thesis using IH by simp
  next
    case False
    then have "x - a \<noteq> 0" by simp
    then have "unat (x - a) = Suc (unat (x - a - 1))"
      by (metis Suc_pred' unat_gt_0 unat_minus_one)
    with False IH show ?thesis by (simp add: diff_diff_eq)
  qed
qed

lemma load_store_bytes [mem_simps]:
  assumes "length bs \<le> 2 ^ 32" and "n = length bs"
  shows "load_bytes (store_bytes m a bs) a n = bs"
proof (rule nth_equalityI)
  show "length (load_bytes (store_bytes m a bs) a n) = length bs" using assms by simp
next
  fix i assume "i < length (load_bytes (store_bytes m a bs) a n)"
  with assms have i: "i < length bs" by simp
  then have "unat (of_nat i :: u32) = i" using assms(1) by (simp add: unat_of_nat)
  with i assms show "load_bytes (store_bytes m a bs) a n ! i = bs ! i"
    by (simp add: store_bytes_apply)
qed

end
