(* ===== verification/Mmio.thy ===== *)
theory Mmio
  imports Prelude
begin

text \<open>
  Memory-mapped access and \<open>DevMem\<close> (xilinx/visensor-srv/src/DevMem.h, DevMem.cpp). The
  hardware behind an address is a parameter: \<open>mmio\<close> holds its answer to a byte or word read,
  its reaction to a write, and what time does to it (\<open>nanosleep\<close>); a read may change it, as
  reading a FIFO does. Plain memory is one instance (\<open>ram\<close>), and \<open>traced\<close> turns any
  hardware into one that records every access in order. The operating system's answers to
  \<open>open\<close>, \<open>mmap\<close>, \<open>munmap\<close>, \<open>read\<close> and \<open>ioctl\<close> are the parameter \<open>os\<close>.
\<close>

subsection \<open>Hardware and operating system as parameters\<close>

record 'd mmio =
  mm_read8 :: "u32 \<Rightarrow> 'd \<Rightarrow> byte \<times> 'd"
  mm_write8 :: "u32 \<Rightarrow> byte \<Rightarrow> 'd \<Rightarrow> 'd"
  mm_read32 :: "u32 \<Rightarrow> 'd \<Rightarrow> u32 \<times> 'd"
  mm_write32 :: "u32 \<Rightarrow> u32 \<Rightarrow> 'd \<Rightarrow> 'd"
  mm_sleep :: "u32 \<Rightarrow> 'd \<Rightarrow> 'd"

record os =
  os_open :: "string \<Rightarrow> u32"
  os_mmap :: "u32 \<Rightarrow> u32 \<Rightarrow> u32 \<Rightarrow> u32"
  os_munmap :: "u32 \<Rightarrow> u32 \<Rightarrow> u32"
  os_read :: "u32 \<Rightarrow> u32 \<Rightarrow> u32 \<times> byte list"

datatype syscall = SysMunmap u32 u32 | SysClose u32

definition MAP_FAILED :: u32 where "MAP_FAILED = - 1"

text \<open>Plain memory as hardware: no side effects, time changes nothing.\<close>

definition ram :: "mem mmio" where
  "ram = \<lparr>mm_read8 = (\<lambda>a m. (m a, m)), mm_write8 = (\<lambda>a v m. m(a := v)),
          mm_read32 = (\<lambda>a m. (load32 m a, m)), mm_write32 = (\<lambda>a v m. store32 m a v),
          mm_sleep = (\<lambda>_ m. m)\<rparr>"

datatype bus_event = Rd8 u32 byte | Wr8 u32 byte | Rd32 u32 u32 | Wr32 u32 u32 | Slept u32

definition traced :: "'d mmio \<Rightarrow> ('d \<times> bus_event list) mmio" where
  "traced mm =
     \<lparr>mm_read8 = (\<lambda>a (d, l). case mm_read8 mm a d of (v, d') \<Rightarrow> (v, d', l @ [Rd8 a v])),
      mm_write8 = (\<lambda>a v (d, l). (mm_write8 mm a v d, l @ [Wr8 a v])),
      mm_read32 = (\<lambda>a (d, l). case mm_read32 mm a d of (v, d') \<Rightarrow> (v, d', l @ [Rd32 a v])),
      mm_write32 = (\<lambda>a v (d, l). (mm_write32 mm a v d, l @ [Wr32 a v])),
      mm_sleep = (\<lambda>n (d, l). (mm_sleep mm n d, l @ [Slept n]))\<rparr>"

fun is_write :: "bus_event \<Rightarrow> bool" where
  "is_write (Wr8 a v) = True"
| "is_write (Wr32 a v) = True"
| "is_write _ = False"

definition writes :: "bus_event list \<Rightarrow> bus_event list" where
  "writes l = filter is_write l"

subsection \<open>DevMem\<close>

record DevMem =
  memfd :: u32
  mapped_dev_base :: u32
  mapped_base :: u32
  map_size :: u32

definition DevMem_open_dev :: "os \<Rightarrow> u32 \<Rightarrow> u32 \<Rightarrow> DevMem outcome" where
  "DevMem_open_dev os dev_base sz =
     (let fd = os_open os ''/dev/mem'' in
      if fd = - 1 then Exit 0
      else let base = os_mmap os sz fd (dev_base AND NOT (sz - 1)) in
        if base = MAP_FAILED then Exit 0
        else Ret \<lparr>memfd = fd, mapped_dev_base = base + (dev_base AND (sz - 1)),
                  mapped_base = base, map_size = sz\<rparr>)"

definition DevMem_default :: "os \<Rightarrow> DevMem outcome" where
  "DevMem_default os = DevMem_open_dev os 0 1"

definition DevMem_new :: "os \<Rightarrow> u32 \<Rightarrow> u32 \<Rightarrow> DevMem outcome" where
  "DevMem_new os offset sz = DevMem_open_dev os offset sz"

definition DevMem_delete :: "os \<Rightarrow> DevMem \<Rightarrow> syscall list outcome" where
  "DevMem_delete os dm =
     (if os_munmap os (mapped_base dm) (map_size dm) = - 1 then Exit 0
      else Ret [SysMunmap (mapped_base dm) (map_size dm), SysClose (memfd dm)])"

text \<open>
  The byte loops: \<open>i\<close> counts up to \<open>length\<close> (compared unsigned, as \<open>size_t\<close>); the
  caller's array \<open>data\<close> is read as \<open>data i\<close> and written as \<open>data(i := v)\<close>. The read loop
  fetches \<open>offset + 1\<close> on every iteration, as the source does.
\<close>

function DevMem_write_loop ::
  "'d mmio \<Rightarrow> u32 \<Rightarrow> u32 \<Rightarrow> (u32 \<Rightarrow> byte) \<Rightarrow> u32 \<Rightarrow> 'd \<Rightarrow> 'd" where
  "DevMem_write_loop mm p len data i d =
     (if i < len
      then DevMem_write_loop mm p len data (i + 1) (mm_write8 mm (p + i) (data i) d)
      else d)"
  by pat_completeness auto
termination
  by (relation "measure (\<lambda>(mm, p, len, data, i, d). unat (len - i))") (auto intro: word_diff_step)

function DevMem_read_loop ::
  "'d mmio \<Rightarrow> u32 \<Rightarrow> u32 \<Rightarrow> (u32 \<Rightarrow> byte) \<Rightarrow> u32 \<Rightarrow> 'd \<Rightarrow> (u32 \<Rightarrow> byte) \<times> 'd" where
  "DevMem_read_loop mm p len data i d =
     (if i < len
      then DevMem_read_loop mm p len (data(i := fst (mm_read8 mm (p + 1) d))) (i + 1)
             (snd (mm_read8 mm (p + 1) d))
      else (data, d))"
  by pat_completeness auto
termination
  by (relation "measure (\<lambda>(mm, p, len, data, i, d). unat (len - i))") (auto intro: word_diff_step)

definition DevMem_write :: "'d mmio \<Rightarrow> DevMem \<Rightarrow> u32 \<Rightarrow> u32 \<Rightarrow> (u32 \<Rightarrow> byte) \<Rightarrow> 'd \<Rightarrow> u32 \<times> 'd" where
  "DevMem_write mm dm offset len data d =
     (len, DevMem_write_loop mm (mapped_dev_base dm + offset) len data 0 d)"

definition DevMem_read ::
  "'d mmio \<Rightarrow> DevMem \<Rightarrow> u32 \<Rightarrow> u32 \<Rightarrow> (u32 \<Rightarrow> byte) \<Rightarrow> 'd \<Rightarrow> u32 \<times> (u32 \<Rightarrow> byte) \<times> 'd" where
  "DevMem_read mm dm offset len data d =
     (len, DevMem_read_loop mm (mapped_dev_base dm + offset) len data 0 d)"

text \<open>\<open>write_byte\<close> and \<open>write_word\<close> return no value in the source; the model has none.\<close>

definition DevMem_write_byte :: "'d mmio \<Rightarrow> DevMem \<Rightarrow> u32 \<Rightarrow> byte \<Rightarrow> 'd \<Rightarrow> 'd" where
  "DevMem_write_byte mm dm offset data d = mm_write8 mm (mapped_dev_base dm + offset) data d"

definition DevMem_write_word :: "'d mmio \<Rightarrow> DevMem \<Rightarrow> u32 \<Rightarrow> u32 \<Rightarrow> 'd \<Rightarrow> 'd" where
  "DevMem_write_word mm dm offset data d = mm_write32 mm (mapped_dev_base dm + offset) data d"

definition DevMem_read_byte :: "'d mmio \<Rightarrow> DevMem \<Rightarrow> u32 \<Rightarrow> 'd \<Rightarrow> byte \<times> 'd" where
  "DevMem_read_byte mm dm offset d = mm_read8 mm (mapped_dev_base dm + offset) d"

definition DevMem_read_word :: "'d mmio \<Rightarrow> DevMem \<Rightarrow> u32 \<Rightarrow> 'd \<Rightarrow> u32 \<times> 'd" where
  "DevMem_read_word mm dm offset d = mm_read32 mm (mapped_dev_base dm + offset) d"

text \<open>
  The physical address behind a virtual one in a window that \<open>mmap\<close> placed at \<open>base\<close>
  for the device offset \<open>off\<close>.
\<close>

definition window_phys :: "u32 \<Rightarrow> u32 \<Rightarrow> u32 \<Rightarrow> u32" where
  "window_phys base off v = off + (v - base)"

declare DevMem_write_loop.simps [simp del] DevMem_read_loop.simps [simp del]

subsection \<open>Accesses of plain memory and of traced hardware\<close>

lemma ram_sel [simp]:
  "mm_read8 ram a m = (m a, m)" "mm_write8 ram a v m = m(a := v)"
  "mm_read32 ram a m = (load32 m a, m)" "mm_write32 ram a w m = store32 m a w"
  "mm_sleep ram n m = m"
  by (simp_all add: ram_def)

lemma traced_sel [simp]:
  "mm_read8 (traced mm) a (d, l) = (case mm_read8 mm a d of (v, d') \<Rightarrow> (v, d', l @ [Rd8 a v]))"
  "mm_write8 (traced mm) a b (d, l) = (mm_write8 mm a b d, l @ [Wr8 a b])"
  "mm_read32 (traced mm) a (d, l) = (case mm_read32 mm a d of (v, d') \<Rightarrow> (v, d', l @ [Rd32 a v]))"
  "mm_write32 (traced mm) a w (d, l) = (mm_write32 mm a w d, l @ [Wr32 a w])"
  "mm_sleep (traced mm) n (d, l) = (mm_sleep mm n d, l @ [Slept n])"
  by (simp_all add: traced_def)

lemma writes_simps [simp]:
  "writes [] = []"
  "writes (e # l) = (if is_write e then e # writes l else writes l)"
  "writes (l @ l') = writes l @ writes l'"
  by (simp_all add: writes_def)

subsection \<open>The window that mmap gives\<close>

lemma and_not_mask_plus: "(x AND NOT m) + (x AND m) = (x :: u32)"
proof -
  have "(x AND NOT m) + (x AND m) = (x AND NOT m) OR (x AND m)"
    by (rule disjunctive_add) (auto simp: bit_simps)
  also have "\<dots> = x" by (rule bit_word_eqI) (auto simp: bit_simps)
  finally show ?thesis .
qed

lemma window_phys_dev_base:
  "window_phys base (dev_base AND NOT m) (base + (dev_base AND m) + r) = dev_base + r"
proof -
  have "window_phys base (dev_base AND NOT m) (base + (dev_base AND m) + r) =
        (dev_base AND NOT m) + (dev_base AND m) + r"
    by (simp add: window_phys_def algebra_simps)
  then show ?thesis by (simp add: and_not_mask_plus)
qed

lemma DevMem_open_dev_Ret:
  "DevMem_open_dev os dev_base sz = Ret dm \<longleftrightarrow>
     os_open os ''/dev/mem'' \<noteq> - 1 \<and>
     os_mmap os sz (os_open os ''/dev/mem'') (dev_base AND NOT (sz - 1)) \<noteq> MAP_FAILED \<and>
     dm = \<lparr>memfd = os_open os ''/dev/mem'',
           mapped_dev_base =
             os_mmap os sz (os_open os ''/dev/mem'') (dev_base AND NOT (sz - 1))
               + (dev_base AND (sz - 1)),
           mapped_base = os_mmap os sz (os_open os ''/dev/mem'') (dev_base AND NOT (sz - 1)),
           map_size = sz\<rparr>"
  by (auto simp: DevMem_open_dev_def Let_def)

subsection \<open>Byte-addressed stores\<close>

text \<open>
  The contract of hardware that stores bytes: a read has no side effect and returns the last
  byte written to its address. The loops of \<open>DevMem\<close> are characterised over it.
\<close>

locale byte_mmio =
  fixes mm :: "'d mmio"
  assumes read8_pure: "snd (mm_read8 mm a d) = d"
    and read8_write8:
      "fst (mm_read8 mm a (mm_write8 mm b v d)) = (if a = b then v else fst (mm_read8 mm a d))"
begin

lemma write_loop_read8:
  "i \<le> len \<Longrightarrow>
   fst (mm_read8 mm (p + j) (DevMem_write_loop mm p len data i d)) =
     (if i \<le> j \<and> j < len then data j else fst (mm_read8 mm (p + j) d))"
proof (induction "unat (len - i)" arbitrary: i d rule: less_induct)
  case less
  show ?case
  proof (cases "i < len")
    case True
    then have le: "i + 1 \<le> len" by (rule inc_le)
    show ?thesis
      using less.hyps [OF word_diff_step [OF True] le, of "mm_write8 mm (p + i) (data i) d"] True
      by (subst DevMem_write_loop.simps) (auto simp: read8_write8 inc_le_iff [OF True])
  next
    case False
    with less.prems show ?thesis by (subst DevMem_write_loop.simps) auto
  qed
qed

lemma read_loop_eq:
  "i \<le> len \<Longrightarrow>
   DevMem_read_loop mm p len data i d =
     ((\<lambda>j. if i \<le> j \<and> j < len then fst (mm_read8 mm (p + 1) d) else data j), d)"
proof (induction "unat (len - i)" arbitrary: i data rule: less_induct)
  case less
  show ?case
  proof (cases "i < len")
    case True
    then have le: "i + 1 \<le> len" by (rule inc_le)
    show ?thesis
      using less.hyps [OF word_diff_step [OF True] le] True
      by (subst DevMem_read_loop.simps) (auto simp: read8_pure inc_le_iff [OF True] fun_eq_iff)
  next
    case False
    with less.prems show ?thesis by (subst DevMem_read_loop.simps) (auto simp: fun_eq_iff)
  qed
qed

end

interpretation ram_bytes: byte_mmio ram
  by unfold_locales auto

subsection \<open>Properties of DevMem\<close>

text \<open>Whatever base address and size a \<open>DevMem\<close> is opened with, register offset \<open>r\<close>
  of the object is physical address \<open>dev_base + r\<close>: rounding the base down for \<open>mmap\<close> and
  adding the remainder back to the mapped address cancel.\<close>

theorem DevMem_register_address:
  assumes "DevMem_new os dev_base sz = Ret dm"
  shows "window_phys (mapped_base dm) (dev_base AND NOT (sz - 1)) (mapped_dev_base dm + r) = dev_base + r"
  using assms by (auto simp: DevMem_new_def DevMem_open_dev_Ret window_phys_dev_base)

definition demo_os :: os where
  "demo_os = \<lparr>os_open = (\<lambda>_. 3), os_mmap = (\<lambda>_ _ off. if off AND 0xFFF = 0 then 0x40000000 else MAP_FAILED),
              os_munmap = (\<lambda>_ _. 0), os_read = (\<lambda>_ _. (0, []))\<rparr>"

theorem DevMem_register_address_witness:
  "window_phys 0x40000000 0x41600000 (0x40000000 + 0x104) = 0x41600104"
proof -
  have "DevMem_new demo_os 0x41600000 256 =
      Ret \<lparr>memfd = 3, mapped_dev_base = 0x40000000, mapped_base = 0x40000000, map_size = 256\<rparr>"
    by (simp add: DevMem_new_def DevMem_open_dev_def demo_os_def MAP_FAILED_def)
  from DevMem_register_address [OF this, of "0x104"] show ?thesis by simp
qed

text \<open>C25: \<open>DevMem::write\<close> on memory stores exactly \<open>data[0..length)\<close> at the given offset:
  every other byte of the address space, the ones just before and after included, is unchanged.\<close>

theorem DevMem_write_exact:
  "snd (DevMem_write ram dm offset len data m) (mapped_dev_base dm + offset + j) =
     (if j < len then data j else m (mapped_dev_base dm + offset + j))"
  using ram_bytes.write_loop_read8 [of 0 len "mapped_dev_base dm + offset" j data m]
  by (simp add: DevMem_write_def)

text \<open>\<open>DevMem::read\<close> does not return the bytes of the device: it reads address
  \<open>offset + 1\<close> on every iteration, so each of the \<open>length\<close> result bytes is a copy of that
  one byte (the loop should read \<open>offset + i\<close>).\<close>

theorem DevMem_read_repeats_one_byte:
  "DevMem_read ram dm offset len data m =
     (len, (\<lambda>j. if j < len then m (mapped_dev_base dm + offset + 1) else data j), m)"
  by (simp add: DevMem_read_def ram_bytes.read_loop_eq cong: if_cong)

text \<open>Closing a \<open>DevMem\<close> that was opened unmaps exactly the window that was mapped and
  closes its descriptor, in this order; the process exits only when the kernel refuses.\<close>

theorem DevMem_delete_releases:
  assumes "DevMem_new os dev_base sz = Ret dm"
  shows "DevMem_delete os dm =
    (let fd = os_open os ''/dev/mem''; base = os_mmap os sz fd (dev_base AND NOT (sz - 1))
     in if os_munmap os base sz = - 1 then Exit 0 else Ret [SysMunmap base sz, SysClose fd])"
  using assms by (auto simp: DevMem_new_def DevMem_open_dev_Ret DevMem_delete_def Let_def)

theorem DevMem_delete_releases_witness:
  "DevMem_delete demo_os \<lparr>memfd = 3, mapped_dev_base = 0x40000000, mapped_base = 0x40000000, map_size = 256\<rparr>
     = Ret [SysMunmap 0x40000000 256, SysClose 3]"
proof -
  have "DevMem_new demo_os 0x41600000 256 =
      Ret \<lparr>memfd = 3, mapped_dev_base = 0x40000000, mapped_base = 0x40000000, map_size = 256\<rparr>"
    by (simp add: DevMem_new_def DevMem_open_dev_def demo_os_def MAP_FAILED_def)
  from DevMem_delete_releases [OF this] show ?thesis by (simp add: demo_os_def)
qed

end
