(* ===== verification/Fpga.thy ===== *)
theory Fpga
  imports Mmio
begin

text \<open>
  The FPGA's register block: \<open>FPGARegisters\<close> (xilinx/visensor-srv/src/FPGARegisters.hpp,
  FPGARegisters.cpp) and the older \<open>FPGAConfig\<close> of both servers (FPGA_config.cpp under
  xilinx/visensor-srv/src and slam_sensor_server/src). A register access is one volatile 32-bit
  access at the mapped base plus the byte offset. The laws a client of the registers relies on
  are the locale \<open>register_file\<close>, interpreted on the real accessors over memory.
\<close>

subsection \<open>Register offsets\<close>

definition FPGA_SOFTWARE_VERSION :: u32 where "FPGA_SOFTWARE_VERSION = 0x0000"
definition CAM0_REGISTER_OFFSET :: u32 where "CAM0_REGISTER_OFFSET = 0x0010"
definition CAM1_REGISTER_OFFSET :: u32 where "CAM1_REGISTER_OFFSET = 0x0030"
definition CAM2_REGISTER_OFFSET :: u32 where "CAM2_REGISTER_OFFSET = 0x0050"
definition CAM3_REGISTER_OFFSET :: u32 where "CAM3_REGISTER_OFFSET = 0x0070"
definition CONTROL :: u32 where "CONTROL = 0x0000"
definition BUFFER_ADDRESS :: u32 where "BUFFER_ADDRESS = 0x0004"
definition BUFFER_SIZE :: u32 where "BUFFER_SIZE = 0x0008"
definition BUFFER_FPGA_POINTER :: u32 where "BUFFER_FPGA_POINTER = 0x000c"
definition BUFFER_LINUX_POINTER :: u32 where "BUFFER_LINUX_POINTER = 0x0010"
definition CAM_REGISTER_BYTES :: u32 where "CAM_REGISTER_BYTES = 32"
definition CAM_TRIGGER_FREQUENCY :: u32 where "CAM_TRIGGER_FREQUENCY = 0x0014"
definition CAM_RESERVED1 :: u32 where "CAM_RESERVED1 = 0x0018"
definition CAM_RESERVED2 :: u32 where "CAM_RESERVED2 = 0x001C"

lemmas register_offsets =
  CONTROL_def BUFFER_ADDRESS_def BUFFER_SIZE_def BUFFER_FPGA_POINTER_def BUFFER_LINUX_POINTER_def
  CAM_TRIGGER_FREQUENCY_def CAM_RESERVED1_def CAM_RESERVED2_def

subsection \<open>FPGARegisters\<close>

record FPGARegisters =
  fr_memfd :: u32
  fr_mapped_base :: u32
  fr_mapped_dev_base :: u32
  fr_dev_base :: u32
  fr_size :: u32

definition FPGARegisters_new :: "os \<Rightarrow> u32 \<Rightarrow> u32 \<Rightarrow> FPGARegisters outcome" where
  "FPGARegisters_new os start_address sz =
     (let fd = os_open os ''/dev/mem'' in
      if fd = - 1 then Exit 0
      else let base = os_mmap os sz fd (start_address AND NOT (sz - 1)) in
        if base = MAP_FAILED then Exit 0
        else Ret \<lparr>fr_memfd = fd, fr_mapped_base = base,
                  fr_mapped_dev_base = base + (start_address AND (sz - 1)),
                  fr_dev_base = start_address, fr_size = sz\<rparr>)"

definition FPGARegisters_delete :: "os \<Rightarrow> FPGARegisters \<Rightarrow> syscall list outcome" where
  "FPGARegisters_delete os r =
     (if fr_memfd r \<noteq> 0
      then if os_munmap os (fr_mapped_base r) (fr_size r) = - 1 then Exit 0
           else Ret [SysMunmap (fr_mapped_base r) (fr_size r), SysClose (fr_memfd r)]
      else Ret [SysClose (fr_memfd r)])"

definition FPGARegisters_getRegisterValue :: "'d mmio \<Rightarrow> FPGARegisters \<Rightarrow> u32 \<Rightarrow> 'd \<Rightarrow> u32 \<times> 'd" where
  "FPGARegisters_getRegisterValue mm r offset d = mm_read32 mm (fr_mapped_dev_base r + offset) d"

definition FPGARegisters_setRegisterValue :: "'d mmio \<Rightarrow> FPGARegisters \<Rightarrow> u32 \<Rightarrow> u32 \<Rightarrow> 'd \<Rightarrow> 'd" where
  "FPGARegisters_setRegisterValue mm r offset value d = mm_write32 mm (fr_mapped_dev_base r + offset) value d"

text \<open>
  \<open>print_register_values\<close> reads every register twice, once for the hexadecimal and once for
  the decimal column; the result is the list of printed lines.
\<close>

function print_register_loop ::
  "'d mmio \<Rightarrow> FPGARegisters \<Rightarrow> int \<Rightarrow> 'd \<Rightarrow> (int \<times> u32 \<times> u32) list \<times> 'd" where
  "print_register_loop mm r i d =
     (if i < sint (fr_size r)
      then case FPGARegisters_getRegisterValue mm r (word_of_int i) d of (hex, d1) \<Rightarrow>
           case FPGARegisters_getRegisterValue mm r (word_of_int i) d1 of (dec, d2) \<Rightarrow>
           case print_register_loop mm r (i + 4) d2 of (ls, d3) \<Rightarrow> ((i, hex, dec) # ls, d3)
      else ([], d))"
  by pat_completeness auto
termination
  by (relation "measure (\<lambda>(mm, r, i, d). nat (sint (fr_size r) - i))") auto

declare print_register_loop.simps [simp del]

definition FPGARegisters_print_register_values ::
  "'d mmio \<Rightarrow> FPGARegisters \<Rightarrow> 'd \<Rightarrow> (int \<times> u32 \<times> u32) list \<times> 'd" where
  "FPGARegisters_print_register_values mm r d = print_register_loop mm r 0 d"

subsection \<open>FPGAConfig of the visensor server\<close>

record FPGAConfig =
  fc_memfd :: u32
  fc_mapped_base :: u32
  fc_mapped_dev_base :: u32
  fc_dev_base :: u32

definition FPGAConfig_new :: "os \<Rightarrow> FPGAConfig outcome" where
  "FPGAConfig_new os =
     (let dev_base = 0x7e200000; fd = os_open os ''/dev/mem'' in
      if fd = - 1 then Exit 0
      else let base = os_mmap os 128 fd (dev_base AND NOT (128 - 1)) in
        if base = MAP_FAILED then Exit 0
        else Ret \<lparr>fc_memfd = fd, fc_mapped_base = base,
                  fc_mapped_dev_base = base + (dev_base AND (128 - 1)), fc_dev_base = dev_base\<rparr>)"

definition FPGAConfig_delete :: "os \<Rightarrow> FPGAConfig \<Rightarrow> syscall list outcome" where
  "FPGAConfig_delete os c =
     (if fc_memfd c \<noteq> 0
      then if os_munmap os (fc_mapped_base c) 128 = - 1 then Exit 0
           else Ret [SysMunmap (fc_mapped_base c) 128, SysClose (fc_memfd c)]
      else Ret [SysClose (fc_memfd c)])"

definition FPGAConfig_get_data_buffer_address :: "'d mmio \<Rightarrow> FPGAConfig \<Rightarrow> 'd \<Rightarrow> u32 \<times> 'd" where
  "FPGAConfig_get_data_buffer_address mm c d = mm_read32 mm (fc_mapped_dev_base c + 4) d"

definition FPGAConfig_set_data_buffer_address :: "'d mmio \<Rightarrow> FPGAConfig \<Rightarrow> u32 \<Rightarrow> 'd \<Rightarrow> 'd" where
  "FPGAConfig_set_data_buffer_address mm c address d = mm_write32 mm (fc_mapped_dev_base c + 4) address d"

definition FPGAConfig_get_data_buffer_size :: "'d mmio \<Rightarrow> FPGAConfig \<Rightarrow> 'd \<Rightarrow> u32 \<times> 'd" where
  "FPGAConfig_get_data_buffer_size mm c d = mm_read32 mm (fc_mapped_dev_base c + 0) d"

definition FPGAConfig_set_data_buffer_size :: "'d mmio \<Rightarrow> FPGAConfig \<Rightarrow> u32 \<Rightarrow> 'd \<Rightarrow> 'd" where
  "FPGAConfig_set_data_buffer_size mm c sz d = mm_write32 mm (fc_mapped_dev_base c + 0) sz d"

definition FPGAConfig_get_num_cams :: "'d mmio \<Rightarrow> FPGAConfig \<Rightarrow> 'd \<Rightarrow> u32 \<times> 'd" where
  "FPGAConfig_get_num_cams mm c d = mm_read32 mm (fc_mapped_dev_base c + 8) d"

definition FPGAConfig_set_num_cams :: "'d mmio \<Rightarrow> FPGAConfig \<Rightarrow> u32 \<Rightarrow> 'd \<Rightarrow> 'd" where
  "FPGAConfig_set_num_cams mm c num_cams d = mm_write32 mm (fc_mapped_dev_base c + 8) num_cams d"

text \<open>The three values \<open>print_config\<close> prints, read in its order.\<close>

definition FPGAConfig_print_config :: "'d mmio \<Rightarrow> FPGAConfig \<Rightarrow> 'd \<Rightarrow> (u32 \<times> u32 \<times> u32) \<times> 'd" where
  "FPGAConfig_print_config mm c d =
     (case FPGAConfig_get_data_buffer_address mm c d of (a, d1) \<Rightarrow>
      case FPGAConfig_get_data_buffer_size mm c d1 of (s, d2) \<Rightarrow>
      case FPGAConfig_get_num_cams mm c d2 of (n, d3) \<Rightarrow> ((a, s, n), d3))"

subsection \<open>FPGAConfig of the slam sensor server\<close>

definition slam_FPGAConfig_new :: "os \<Rightarrow> FPGAConfig outcome" where
  "slam_FPGAConfig_new os =
     (let dev_base = 0x41200000; fd = os_open os ''/dev/mem'' in
      if fd = - 1 then Exit 0
      else let base = os_mmap os 16 fd (dev_base AND NOT (16 - 1)) in
        if base = MAP_FAILED then Exit 0
        else Ret \<lparr>fc_memfd = fd, fc_mapped_base = base,
                  fc_mapped_dev_base = base + (dev_base AND (16 - 1)), fc_dev_base = dev_base\<rparr>)"

definition slam_FPGAConfig_delete :: "os \<Rightarrow> FPGAConfig \<Rightarrow> syscall list outcome" where
  "slam_FPGAConfig_delete os c =
     (if os_munmap os (fc_mapped_base c) 16 = - 1 then Exit 0
      else Ret [SysMunmap (fc_mapped_base c) 16, SysClose (fc_memfd c)])"

definition slam_get_data_buffer_address :: "'d mmio \<Rightarrow> FPGAConfig \<Rightarrow> 'd \<Rightarrow> u32 \<times> 'd" where
  "slam_get_data_buffer_address mm c d = mm_read32 mm (fc_mapped_dev_base c) d"

definition slam_set_data_buffer_address :: "'d mmio \<Rightarrow> FPGAConfig \<Rightarrow> u32 \<Rightarrow> 'd \<Rightarrow> 'd" where
  "slam_set_data_buffer_address mm c add d = mm_write32 mm (fc_mapped_dev_base c) add d"

definition slam_get_data_buffer_size :: "'d mmio \<Rightarrow> FPGAConfig \<Rightarrow> 'd \<Rightarrow> u32 \<times> 'd" where
  "slam_get_data_buffer_size mm c d = mm_read32 mm (fc_mapped_dev_base c + 8) d"

definition slam_set_data_buffer_size :: "'d mmio \<Rightarrow> FPGAConfig \<Rightarrow> u32 \<Rightarrow> 'd \<Rightarrow> 'd" where
  "slam_set_data_buffer_size mm c sz d = d"

definition slam_get_num_cams :: "'d mmio \<Rightarrow> FPGAConfig \<Rightarrow> 'd \<Rightarrow> u32 \<times> 'd" where
  "slam_get_num_cams mm c d = mm_read32 mm (fc_mapped_dev_base c + 12) d"

definition slam_set_num_cams :: "'d mmio \<Rightarrow> FPGAConfig \<Rightarrow> u32 \<Rightarrow> 'd \<Rightarrow> 'd" where
  "slam_set_num_cams mm c num_cams d = d"

definition slam_print_config :: "'d mmio \<Rightarrow> FPGAConfig \<Rightarrow> 'd \<Rightarrow> (u32 \<times> u32 \<times> u32) \<times> 'd" where
  "slam_print_config mm c d =
     (case slam_get_data_buffer_address mm c d of (a, d1) \<Rightarrow>
      case slam_get_data_buffer_size mm c d1 of (s, d2) \<Rightarrow>
      case slam_get_num_cams mm c d2 of (n, d3) \<Rightarrow> ((a, s, n), d3))"

subsection \<open>The contract of a register file\<close>

locale register_file =
  fixes rget :: "u32 \<Rightarrow> 'd \<Rightarrow> u32 \<times> 'd" and rset :: "u32 \<Rightarrow> u32 \<Rightarrow> 'd \<Rightarrow> 'd"
  assumes get_pure: "snd (rget a d) = d"
    and get_set: "fst (rget a (rset a v d)) = v"
    and get_set_other: "apart4 a b \<Longrightarrow> fst (rget b (rset a v d)) = fst (rget b d)"
begin

text \<open>A sequence of register writes: a register holds the last value written to it.\<close>

lemma get_fold_other:
  "\<forall>p \<in> set ws. apart4 (fst p) b \<Longrightarrow>
   fst (rget b (fold (\<lambda>(a, v). rset a v) ws d)) = fst (rget b d)"
  by (induction ws arbitrary: d) (auto simp: get_set_other)

lemma get_fold_last:
  "\<forall>p \<in> set ws'. apart4 (fst p) b \<Longrightarrow>
   fst (rget b (fold (\<lambda>(a, v). rset a v) (ws @ (b, v) # ws') d)) = v"
  by (simp add: get_fold_other get_set)

lemma get_twice: "rget a (snd (rget a d)) = rget a d"
  by (simp add: get_pure)

end

lemma apart4_add [simp]: "apart4 (c + a) (c + b) \<longleftrightarrow> apart4 a b"
  by (simp add: apart4_def)

lemma apart4_base [simp]:
  "apart4 c (c + b) \<longleftrightarrow> apart4 0 b" "apart4 (c + a) c \<longleftrightarrow> apart4 a 0"
  using apart4_add [of c 0 b] apart4_add [of c a 0] by simp_all

interpretation fpga_regs: register_file
  "FPGARegisters_getRegisterValue ram r" "FPGARegisters_setRegisterValue ram r" for r
  by unfold_locales
    (simp_all add: FPGARegisters_getRegisterValue_def FPGARegisters_setRegisterValue_def
      load32_store32_other)

interpretation fpga_config: register_file
  "\<lambda>a. mm_read32 ram (fc_mapped_dev_base c + a)" "\<lambda>a. mm_write32 ram (fc_mapped_dev_base c + a)" for c
  by unfold_locales (simp_all add: load32_store32_other)

lemma print_register_loop_ram:
  assumes "sint (fr_size r) = 4 * int n" and "k \<le> n"
  shows "print_register_loop ram r (4 * int k) m =
     (map (\<lambda>j. (4 * int j, load32 m (fr_mapped_dev_base r + 4 * of_nat j),
                 load32 m (fr_mapped_dev_base r + 4 * of_nat j))) [k..<n], m)"
  using assms(2)
proof (induction "n - k" arbitrary: k)
  case 0
  with assms(1) show ?case by (subst print_register_loop.simps) simp
next
  case (Suc l)
  then have k: "k < n" and "l = n - Suc k" and "Suc k \<le> n" by simp_all
  from Suc.hyps(1) [OF this(2,3)] have IH: "print_register_loop ram r (4 * int k + 4) m =
     (map (\<lambda>j. (4 * int j, load32 m (fr_mapped_dev_base r + 4 * of_nat j),
                 load32 m (fr_mapped_dev_base r + 4 * of_nat j))) [Suc k..<n], m)"
    by (simp add: algebra_simps)
  show ?case
    using k assms(1)
    by (subst print_register_loop.simps)
      (simp add: IH FPGARegisters_getRegisterValue_def upt_conv_Cons)
qed

subsection \<open>Properties of the register blocks\<close>

definition demo_regs :: FPGARegisters where
  "demo_regs = \<lparr>fr_memfd = 3, fr_mapped_base = 0x40000000, fr_mapped_dev_base = 0x40000000,
                fr_dev_base = 0x7e200000, fr_size = 32\<rparr>"

text \<open>Printing a register block of \<open>4 * n\<close> bytes reads each of its \<open>n\<close> registers, in
  order, and leaves them unchanged.\<close>

theorem print_register_values_all:
  assumes "sint (fr_size r) = 4 * int n"
  shows "FPGARegisters_print_register_values ram r m =
     (map (\<lambda>j. (4 * int j, load32 m (fr_mapped_dev_base r + 4 * of_nat j),
                 load32 m (fr_mapped_dev_base r + 4 * of_nat j))) [0..<n], m)"
  using print_register_loop_ram [OF assms, of 0 m]
  by (simp add: FPGARegisters_print_register_values_def)

theorem print_register_values_all_witness:
  "FPGARegisters_print_register_values ram demo_regs (\<lambda>a. if a = 0x40000008 then 5 else 0) =
     ([(0, 0, 0), (4, 0, 0), (8, 5, 5), (12, 0, 0), (16, 0, 0), (20, 0, 0), (24, 0, 0), (28, 0, 0)],
      \<lambda>a. if a = 0x40000008 then 5 else 0)"
proof -
  have "sint (fr_size demo_regs) = 4 * int 8" by (simp add: demo_regs_def)
  from print_register_values_all [OF this, of "\<lambda>a. if a = 0x40000008 then 5 else 0"]
  show ?thesis by (simp add: demo_regs_def load32_def cat32_def upt_rec)
qed

text \<open>The mapping offset is rounded with the size of the register block and not with the
  page size. POSIX refuses an offset that is not a multiple of the page, so the constructor ends
  the process for the documented blocks of cameras 1, 2 and 3, whatever the mapping.\<close>

theorem FPGARegisters_other_cameras_unmappable:
  assumes posix_mmap: "\<And>len fd off. off AND 0xFFF \<noteq> 0 \<Longrightarrow> os_mmap os len fd off = MAP_FAILED"
    and "cam \<in> {CAM1_REGISTER_OFFSET, CAM2_REGISTER_OFFSET, CAM3_REGISTER_OFFSET}"
  shows "FPGARegisters_new os (0x7e200000 + cam) CAM_REGISTER_BYTES = Exit 0"
  using assms(2)
  by (auto simp: FPGARegisters_new_def Let_def posix_mmap CAM_REGISTER_BYTES_def
      CAM1_REGISTER_OFFSET_def CAM2_REGISTER_OFFSET_def CAM3_REGISTER_OFFSET_def)

theorem FPGARegisters_other_cameras_unmappable_witness:
  "FPGARegisters_new demo_os 0x7e200030 CAM_REGISTER_BYTES = Exit 0"
proof -
  have "os_mmap demo_os len fd off = MAP_FAILED" if "off AND 0xFFF \<noteq> 0" for len fd off
    using that by (simp add: demo_os_def)
  from FPGARegisters_other_cameras_unmappable [OF this, of CAM1_REGISTER_OFFSET]
  show ?thesis by (simp add: CAM1_REGISTER_OFFSET_def)
qed

text \<open>In the visensor server's \<open>FPGAConfig\<close> the three settings are independent: after
  setting the buffer address, the buffer size and the number of cameras, \<open>print_config\<close>
  reports exactly the three values.\<close>

theorem FPGAConfig_settings:
  "fst (FPGAConfig_print_config ram c
     (FPGAConfig_set_num_cams ram c n
       (FPGAConfig_set_data_buffer_size ram c s
         (FPGAConfig_set_data_buffer_address ram c a m)))) = (a, s, n)"
  by (simp add: FPGAConfig_print_config_def FPGAConfig_get_data_buffer_address_def
      FPGAConfig_get_data_buffer_size_def FPGAConfig_get_num_cams_def
      FPGAConfig_set_num_cams_def FPGAConfig_set_data_buffer_size_def
      FPGAConfig_set_data_buffer_address_def load32_store32_other apart4_def)

text \<open>In the slam sensor server's \<open>FPGAConfig\<close> only the buffer address can be set; the
  setters of the buffer size and of the number of cameras change nothing.\<close>

theorem slam_FPGAConfig_settings:
  "fst (slam_print_config ram c
     (slam_set_num_cams ram c n
       (slam_set_data_buffer_size ram c s
         (slam_set_data_buffer_address ram c a m)))) =
   (a, load32 m (fc_mapped_dev_base c + 8), load32 m (fc_mapped_dev_base c + 12))"
  by (simp add: slam_print_config_def slam_get_data_buffer_address_def
      slam_get_data_buffer_size_def slam_get_num_cams_def slam_set_num_cams_def
      slam_set_data_buffer_size_def slam_set_data_buffer_address_def load32_store32_other apart4_def)

end
