(* ===== verification/RingBuffer.thy ===== *)
theory RingBuffer
  imports Fpga
begin

text \<open>
  The image ring buffer shared with the FPGA: \<open>SharedRingBuffer\<close>
  (xilinx/visensor-srv/src/SharedRingBuffer.hpp, SharedRingBuffer.cpp). The object holds its
  position; the FPGA's write position is the register \<open>BUFFER_FPGA_POINTER\<close>, read on every
  poll, and the reader's position is published in \<open>BUFFER_LINUX_POINTER\<close>. Advancing the
  position is an instance of the locale \<open>cyclic_reader\<close>.
\<close>

subsection \<open>Definitions\<close>

record SharedRingBuffer =
  rb_data_size :: u32
  rb_length :: u32
  rb_position :: u32
  rb_allocated_memory_size :: u32
  rb_fpga_device :: u32
  rb_mmap_start_address :: u32
  rb_buffer_pysical_address :: u32
  rb_registers :: FPGARegisters

text \<open>
  \<open>read(fd, &x, n)\<close> into an \<open>int\<close> \<open>x\<close>: the bytes the driver copied replace the first bytes
  of the old value (uninitialised here, so an argument).
\<close>

definition read_int :: "u32 \<Rightarrow> byte list \<Rightarrow> u32" where
  "read_int old bs =
     (let b = bs @ drop (length bs) (le32 old) in cat32 (b ! 0) (b ! 1) (b ! 2) (b ! 3))"

definition SharedRingBuffer_new ::
  "os \<Rightarrow> u32 \<Rightarrow> u32 \<Rightarrow> u32 \<Rightarrow> u32 \<Rightarrow> FPGARegisters \<Rightarrow> SharedRingBuffer outcome" where
  "SharedRingBuffer_new os junk_size junk_addr data_size len registers =
     (let fd = os_open os ''/dev/slam-sensor'' in
      if fd <s 0 then Exit (- 1)
      else let alloc = read_int junk_size (snd (os_read os fd 1));
               base = os_mmap os alloc fd 0 in
        if base = MAP_FAILED then Exit (- 1)
        else Ret \<lparr>rb_data_size = data_size, rb_length = len, rb_position = 0,
                  rb_allocated_memory_size = alloc, rb_fpga_device = fd,
                  rb_mmap_start_address = base,
                  rb_buffer_pysical_address = read_int junk_addr (snd (os_read os fd 0)),
                  rb_registers = registers\<rparr>)"

definition SharedRingBuffer_data :: "SharedRingBuffer \<Rightarrow> u32" where
  "SharedRingBuffer_data b = rb_mmap_start_address b + rb_position b * rb_data_size b"

definition SharedRingBuffer_size :: "SharedRingBuffer \<Rightarrow> u32" where
  "SharedRingBuffer_size b = rb_data_size b * rb_length b"

definition SharedRingBuffer_newDataAvailable :: "'d mmio \<Rightarrow> SharedRingBuffer \<Rightarrow> 'd \<Rightarrow> bool \<times> 'd" where
  "SharedRingBuffer_newDataAvailable mm b d =
     (case FPGARegisters_getRegisterValue mm (rb_registers b) BUFFER_FPGA_POINTER d of (fpga_pointer, d') \<Rightarrow>
        let next1 = rb_position b + 1;
            next_data_position = (if rb_length b + 1 <=s next1 then 0 else next1)
        in if rb_buffer_pysical_address b + rb_data_size b * next_data_position = fpga_pointer
           then (False, d') else (True, d'))"

definition SharedRingBuffer_length :: "SharedRingBuffer \<Rightarrow> u32" where
  "SharedRingBuffer_length b = rb_length b"

definition SharedRingBuffer_data_size :: "SharedRingBuffer \<Rightarrow> u32" where
  "SharedRingBuffer_data_size b = rb_data_size b"

definition SharedRingBuffer_get_start_address :: "SharedRingBuffer \<Rightarrow> u32" where
  "SharedRingBuffer_get_start_address b = rb_buffer_pysical_address b"

definition SharedRingBuffer_movePointer :: "'d mmio \<Rightarrow> SharedRingBuffer \<Rightarrow> 'd \<Rightarrow> SharedRingBuffer \<times> 'd" where
  "SharedRingBuffer_movePointer mm b d =
     (let p1 = rb_position b + 1;
          p = (if rb_length b <=s p1 then 0 else p1);
          b' = b\<lparr>rb_position := p\<rparr>
      in (b', FPGARegisters_setRegisterValue mm (rb_registers b) BUFFER_LINUX_POINTER
                (rb_buffer_pysical_address b + rb_data_size b * p) d))"

text \<open>The invariant: a positive length whose successor is still a positive \<open>int\<close>, and the
  position inside it.\<close>

definition ring_wf :: "SharedRingBuffer \<Rightarrow> bool" where
  "ring_wf b \<longleftrightarrow> unat (rb_position b) < unat (rb_length b) \<and> unat (rb_length b) < 2 ^ 31 - 1"

definition slot_address :: "SharedRingBuffer \<Rightarrow> nat \<Rightarrow> u32" where
  "slot_address b j = rb_buffer_pysical_address b + rb_data_size b * of_nat j"

definition demo_ring :: SharedRingBuffer where
  "demo_ring = \<lparr>rb_data_size = 360960, rb_length = 8, rb_position = 0,
     rb_allocated_memory_size = 3608576, rb_fpga_device = 4, rb_mmap_start_address = 0x50000000,
     rb_buffer_pysical_address = 0x1F000000, rb_registers = demo_regs\<rparr>"

subsection \<open>Cyclic readers\<close>

text \<open>
  The contract of a reader that walks through a fixed number of slots and starts over at the end.
\<close>

locale cyclic_reader =
  fixes slot :: "'s \<Rightarrow> nat" and slots :: "'s \<Rightarrow> nat" and advance :: "'s \<Rightarrow> 's" and wf :: "'s \<Rightarrow> bool"
  assumes wf_slot: "wf s \<Longrightarrow> slot s < slots s"
    and wf_advance: "wf s \<Longrightarrow> wf (advance s)"
    and slot_advance: "wf s \<Longrightarrow> slot (advance s) = Suc (slot s) mod slots s"
    and slots_advance: "wf s \<Longrightarrow> slots (advance s) = slots s"
begin

lemma advance_n:
  "wf s \<Longrightarrow> wf ((advance ^^ k) s) \<and> slots ((advance ^^ k) s) = slots s \<and>
     slot ((advance ^^ k) s) = (slot s + k) mod slots s"
proof (induction k)
  case 0
  then show ?case using wf_slot by simp
next
  case (Suc k)
  then show ?case by (simp add: wf_advance slot_advance slots_advance mod_Suc_eq)
qed

lemma advance_round: "wf s \<Longrightarrow> slot ((advance ^^ slots s) s) = slot s"
  using advance_n [of s "slots s"] wf_slot [of s] by simp

lemma visits_all:
  assumes "wf s" and "j < slots s"
  shows "\<exists>k < slots s. slot ((advance ^^ k) s) = j"
proof -
  let ?k = "(j + (slots s - slot s)) mod slots s"
  have "slot s < slots s" using assms(1) by (rule wf_slot)
  then have "(slot s + ?k) mod slots s = j"
    using assms(2) by (simp add: mod_add_right_eq)
  moreover have "?k < slots s" using assms(2) by simp
  ultimately show ?thesis using advance_n [OF assms(1), of ?k] by auto
qed

end

lemma ring_wf_words:
  assumes "ring_wf b"
  shows "unat (rb_position b + 1) = Suc (unat (rb_position b))"
    and "unat (rb_length b + 1) = Suc (unat (rb_length b))"
    and "unat (rb_length b) < 2 ^ 31"
  using assms by (auto simp: ring_wf_def unat_add_small)

lemma movePointer_position:
  assumes "ring_wf b"
  shows "unat (rb_position (fst (SharedRingBuffer_movePointer mm b d))) =
     Suc (unat (rb_position b)) mod unat (rb_length b)"
proof -
  have "rb_length b <=s rb_position b + 1 \<longleftrightarrow> unat (rb_length b) \<le> Suc (unat (rb_position b))"
    using ring_wf_words [OF assms] assms by (subst sle_small) (auto simp: ring_wf_def)
  moreover have "unat (rb_position b) < unat (rb_length b)" using assms by (simp add: ring_wf_def)
  ultimately show ?thesis
    using ring_wf_words [OF assms]
    by (auto simp: SharedRingBuffer_movePointer_def Let_def mod_Suc)
qed

lemma movePointer_frame [simp]:
  "rb_length (fst (SharedRingBuffer_movePointer mm b d)) = rb_length b"
  "rb_data_size (fst (SharedRingBuffer_movePointer mm b d)) = rb_data_size b"
  "rb_mmap_start_address (fst (SharedRingBuffer_movePointer mm b d)) = rb_mmap_start_address b"
  "rb_buffer_pysical_address (fst (SharedRingBuffer_movePointer mm b d)) = rb_buffer_pysical_address b"
  "rb_allocated_memory_size (fst (SharedRingBuffer_movePointer mm b d)) = rb_allocated_memory_size b"
  "rb_registers (fst (SharedRingBuffer_movePointer mm b d)) = rb_registers b"
  by (simp_all add: SharedRingBuffer_movePointer_def Let_def)

lemma movePointer_wf:
  assumes "ring_wf b"
  shows "ring_wf (fst (SharedRingBuffer_movePointer mm b d))"
proof -
  have "0 < unat (rb_length b)" using assms by (simp add: ring_wf_def)
  then show ?thesis using assms by (simp add: ring_wf_def movePointer_position)
qed

interpretation ring: cyclic_reader
  "\<lambda>(b, d). unat (rb_position b)" "\<lambda>(b, d). unat (rb_length b)"
  "\<lambda>(b, d). SharedRingBuffer_movePointer mm b d" "\<lambda>(b, d). ring_wf b" for mm
  by unfold_locales (auto simp: ring_wf_def movePointer_position case_prod_unfold)

subsection \<open>Properties of the ring buffer\<close>

text \<open>C3: Moving the pointer \<open>k\<close> times leaves a well-formed ring at position
  \<open>(position + k) mod length\<close>, whatever the hardware does; in particular \<open>length\<close> moves are
  a full round.\<close>

theorem movePointer_cycles:
  assumes "ring_wf b"
  shows "case ((\<lambda>(b, d). SharedRingBuffer_movePointer mm b d) ^^ k) (b, d) of (b', d') \<Rightarrow>
    ring_wf b' \<and> unat (rb_length b') = unat (rb_length b) \<and>
    unat (rb_position b') = (unat (rb_position b) + k) mod unat (rb_length b)"
  using ring.advance_n [of "(b, d)" k mm] assms by (auto split: prod.splits)

theorem movePointer_cycles_witness:
  "case ((\<lambda>(b, d). SharedRingBuffer_movePointer ram b d) ^^ 19) (demo_ring, \<lambda>_. 0) of (b', d') \<Rightarrow>
    unat (rb_position b') = 3"
proof -
  have "ring_wf demo_ring" by (simp add: ring_wf_def demo_ring_def)
  from movePointer_cycles [OF this, where mm = ram and k = 19 and d = "\<lambda>_. 0"] show ?thesis
    by (auto simp: demo_ring_def split: prod.splits)
qed

text \<open>C19: After \<open>movePointer\<close> the register \<open>BUFFER_LINUX_POINTER\<close> holds the physical address
  of the slot the reader is at, and no other register of the block has changed.\<close>

theorem movePointer_publishes:
  assumes "ring_wf b" and "apart4 BUFFER_LINUX_POINTER a"
  shows "case SharedRingBuffer_movePointer ram b m of (b', m') \<Rightarrow>
    fst (FPGARegisters_getRegisterValue ram (rb_registers b) BUFFER_LINUX_POINTER m') =
      slot_address b' (Suc (unat (rb_position b)) mod unat (rb_length b)) \<and>
    fst (FPGARegisters_getRegisterValue ram (rb_registers b) a m') =
      fst (FPGARegisters_getRegisterValue ram (rb_registers b) a m)"
proof -
  obtain b' m' where *: "SharedRingBuffer_movePointer ram b m = (b', m')" by force
  have "rb_position b' = of_nat (unat (rb_position b'))" by simp
  also have "unat (rb_position b') = Suc (unat (rb_position b)) mod unat (rb_length b)"
    using movePointer_position [OF assms(1), of ram m] * by simp
  finally have "rb_position b' = of_nat (Suc (unat (rb_position b)) mod unat (rb_length b))" .
  moreover have "m' = FPGARegisters_setRegisterValue ram (rb_registers b) BUFFER_LINUX_POINTER
      (rb_buffer_pysical_address b + rb_data_size b * rb_position b') m"
      and "rb_buffer_pysical_address b' = rb_buffer_pysical_address b" "rb_data_size b' = rb_data_size b"
    using * by (auto simp: SharedRingBuffer_movePointer_def Let_def)
  ultimately show ?thesis
    using assms(2) * by (simp add: fpga_regs.get_set fpga_regs.get_set_other slot_address_def)
qed

theorem movePointer_publishes_witness:
  "case SharedRingBuffer_movePointer ram demo_ring (\<lambda>_. 0) of (b', m') \<Rightarrow>
    fst (FPGARegisters_getRegisterValue ram demo_regs BUFFER_LINUX_POINTER m') = 0x1F058200 \<and>
    fst (FPGARegisters_getRegisterValue ram demo_regs CONTROL m') = 0"
proof -
  have "ring_wf demo_ring" and "apart4 BUFFER_LINUX_POINTER CONTROL"
    by (simp_all add: ring_wf_def demo_ring_def apart4_def register_offsets)
  from movePointer_publishes [OF this, where m = "\<lambda>_. 0"] show ?thesis
    by (auto simp: demo_ring_def slot_address_def SharedRingBuffer_movePointer_def Let_def
        FPGARegisters_getRegisterValue_def load32_def cat32_def)
qed

text \<open>C18: When the slots fit the memory the driver allocated and the mapping does not wrap
  around the address space, \<open>data()\<close> is exactly \<open>position * data_size\<close> bytes into the mapping
  and its \<open>data_size\<close> bytes end inside it, at every position.\<close>

theorem SharedRingBuffer_data_in_mapping:
  assumes "ring_wf b"
    and fits: "unat (rb_data_size b) * unat (rb_length b) \<le> unat (rb_allocated_memory_size b)"
    and nowrap: "unat (rb_mmap_start_address b) + unat (rb_allocated_memory_size b) < 2 ^ 32"
  shows "unat (SharedRingBuffer_data b) =
           unat (rb_mmap_start_address b) + unat (rb_position b) * unat (rb_data_size b) \<and>
         unat (SharedRingBuffer_data b) + unat (rb_data_size b) \<le>
           unat (rb_mmap_start_address b) + unat (rb_allocated_memory_size b)"
proof -
  have "Suc (unat (rb_position b)) * unat (rb_data_size b) \<le> unat (rb_length b) * unat (rb_data_size b)"
    using assms(1) by (intro mult_le_mono1) (simp add: ring_wf_def Suc_le_eq)
  then have le: "unat (rb_position b) * unat (rb_data_size b) + unat (rb_data_size b) \<le>
      unat (rb_allocated_memory_size b)"
    using fits by (simp add: mult.commute)
  then have "unat (rb_position b * rb_data_size b) = unat (rb_position b) * unat (rb_data_size b)"
    using nowrap by (intro unat_mult_small) linarith
  then have "unat (SharedRingBuffer_data b) =
           unat (rb_mmap_start_address b) + unat (rb_position b) * unat (rb_data_size b)"
    unfolding SharedRingBuffer_data_def using nowrap le by (subst unat_add_small) auto
  then show ?thesis using le by linarith
qed

theorem SharedRingBuffer_data_in_mapping_witness:
  "unat (SharedRingBuffer_data demo_ring) + 360960 \<le> unat (0x50000000 :: u32) + 3608576"
proof -
  have "ring_wf demo_ring" by (simp add: ring_wf_def demo_ring_def)
  from SharedRingBuffer_data_in_mapping [OF this] show ?thesis by (simp add: demo_ring_def)
qed

text \<open>\<open>newDataAvailable\<close> is false exactly when the FPGA's pointer is at the slot after the
  reader's, counted without wrap-around: the branch that resets \<open>next_data_position\<close> to 0
  is never taken.\<close>

theorem newDataAvailable_spec:
  assumes "ring_wf b"
  shows "SharedRingBuffer_newDataAvailable mm b d =
    (case FPGARegisters_getRegisterValue mm (rb_registers b) BUFFER_FPGA_POINTER d of (p, d') \<Rightarrow>
       (p \<noteq> slot_address b (Suc (unat (rb_position b))), d'))"
proof -
  have "\<not> rb_length b + 1 <=s rb_position b + 1"
    using ring_wf_words [OF assms] assms by (subst sle_small) (auto simp: ring_wf_def)
  then show ?thesis
    by (auto simp: SharedRingBuffer_newDataAvailable_def slot_address_def Let_def algebra_simps
        split: prod.splits)
qed

theorem newDataAvailable_spec_witness:
  "SharedRingBuffer_newDataAvailable ram demo_ring (store32 (\<lambda>_. 0) 0x4000000C 0x1F058200) =
     (False, store32 (\<lambda>_. 0) 0x4000000C 0x1F058200)"
proof -
  have "ring_wf demo_ring" by (simp add: ring_wf_def demo_ring_def)
  from newDataAvailable_spec [OF this, where mm = ram and d = "store32 (\<lambda>_. 0) 0x4000000C 0x1F058200"]
  show ?thesis
    by (simp add: demo_ring_def demo_regs_def slot_address_def FPGARegisters_getRegisterValue_def
        register_offsets)
qed

lemma slot_address_eq_iff:
  assumes "0 < unat (rb_data_size b)" and "unat (rb_data_size b) * n < 2 ^ 32" and "i \<le> n" and "j \<le> n"
  shows "slot_address b i = slot_address b j \<longleftrightarrow> i = j"
proof -
  have small: "unat (rb_data_size b * of_nat k) = unat (rb_data_size b) * k" if "k \<le> n" for k
  proof -
    have "unat (rb_data_size b) * k \<le> unat (rb_data_size b) * n" using that by simp
    then have lt: "unat (rb_data_size b) * k < 2 ^ 32" using assms(2) by linarith
    moreover have "k \<le> unat (rb_data_size b) * k" using assms(1) by simp
    ultimately have "k < 2 ^ 32" by linarith
    then have "unat (of_nat k :: u32) = k" by (simp add: unat_of_nat)
    then show ?thesis using lt by (simp add: unat_mult_small)
  qed
  have "slot_address b i = slot_address b j \<longleftrightarrow>
      unat (rb_data_size b * of_nat i) = unat (rb_data_size b * of_nat j)"
    unfolding slot_address_def add_left_cancel by (rule word_unat_eq_iff)
  then show ?thesis using small assms by simp
qed

text \<open>C20: The wrap test of \<open>newDataAvailable\<close> is off by one (\<open>length_+1\<close>, where
  \<open>movePointer\<close> uses \<open>length_\<close>): at the last slot it compares with the address one past the
  ring, so for an FPGA pointer at any slot of the ring it reports new data, also when the FPGA is
  at slot 0, the slot after the last.\<close>

theorem newDataAvailable_last_slot:
  assumes "ring_wf b" and last: "Suc (unat (rb_position b)) = unat (rb_length b)"
    and "0 < unat (rb_data_size b)" and "unat (rb_data_size b) * unat (rb_length b) < 2 ^ 32"
    and fpga: "fst (FPGARegisters_getRegisterValue mm (rb_registers b) BUFFER_FPGA_POINTER d) = slot_address b j"
    and "j < unat (rb_length b)"
  shows "fst (SharedRingBuffer_newDataAvailable mm b d)"
proof -
  have "slot_address b j \<noteq> slot_address b (unat (rb_length b))"
    using slot_address_eq_iff [OF assms(3,4), of j "unat (rb_length b)"] assms(6) by simp
  then show ?thesis
    using fpga by (simp add: newDataAvailable_spec [OF assms(1)] last case_prod_unfold)
qed

theorem newDataAvailable_last_slot_witness:
  "fst (SharedRingBuffer_newDataAvailable ram (demo_ring\<lparr>rb_position := 7\<rparr>)
          (store32 (\<lambda>_. 0) 0x4000000C 0x1F000000))"
proof -
  let ?b = "demo_ring\<lparr>rb_position := 7\<rparr>" and ?m = "store32 (\<lambda>_. 0) 0x4000000C 0x1F000000 :: mem"
  have "ring_wf ?b" "Suc (unat (rb_position ?b)) = unat (rb_length ?b)" "0 < unat (rb_data_size ?b)"
    "unat (rb_data_size ?b) * unat (rb_length ?b) < 2 ^ 32"
    "fst (FPGARegisters_getRegisterValue ram (rb_registers ?b) BUFFER_FPGA_POINTER ?m) = slot_address ?b 0"
    "0 < unat (rb_length ?b)"
    by (simp_all add: ring_wf_def demo_ring_def demo_regs_def slot_address_def
        FPGARegisters_getRegisterValue_def register_offsets)
  then show ?thesis by (rule newDataAvailable_last_slot)
qed

end
