(* ===== verification/SharedMem.thy ===== *)
theory SharedMem
  imports RingBuffer
begin

text \<open>
  Shared memory of the two servers. The older server divides one mapping into regions, each a flag
  byte followed by its data: \<open>SharedMemory\<close> and \<open>SharedMemoryManager\<close> of slam_sensor_server
  (shared_memory.cpp, shared_memory_manager.cpp). The camera server's \<open>SharedMemoryManager\<close>
  (xilinx/visensor-srv/src/shared_memory_manager.cpp) keeps a list of ring buffers. The flag bytes
  are an instance of the locale \<open>flag_store\<close>: independent booleans.
\<close>

subsection \<open>SharedMemory\<close>

record SharedMemory =
  sm_addr :: u32
  sm_size :: u32

definition HEADER_SIZE :: u32 where "HEADER_SIZE = 1"

definition SharedMemory_default :: SharedMemory where
  "SharedMemory_default = \<lparr>sm_addr = 0, sm_size = 0\<rparr>"

definition SharedMemory_new :: "u32 \<Rightarrow> u32 \<Rightarrow> SharedMemory" where
  "SharedMemory_new addr sz = \<lparr>sm_addr = addr, sm_size = sz\<rparr>"

definition SharedMemory_data :: "SharedMemory \<Rightarrow> u32" where
  "SharedMemory_data s = sm_addr s + HEADER_SIZE"

definition SharedMemory_size :: "SharedMemory \<Rightarrow> u32" where
  "SharedMemory_size s = sm_size s"

definition SharedMemory_newDataAvailable :: "mem \<Rightarrow> SharedMemory \<Rightarrow> bool" where
  "SharedMemory_newDataAvailable m s \<longleftrightarrow> m (sm_addr s) \<noteq> 0"

definition SharedMemory_setNewDataAvailable :: "SharedMemory \<Rightarrow> bool \<Rightarrow> mem \<Rightarrow> mem" where
  "SharedMemory_setNewDataAvailable s v m = m(sm_addr s := (if v then 1 else 0))"

subsection \<open>SharedMemoryManager of the slam server\<close>

record slam_manager =
  sl_num_cams :: u32
  sl_cams :: "SharedMemory list"
  sl_imu :: SharedMemory
  sl_config :: SharedMemory

definition slam_mem_space :: "u32 \<Rightarrow> u32 \<Rightarrow> u32 \<Rightarrow> u32 \<Rightarrow> u32" where
  "slam_mem_space num_cams image_size imu_size config_size =
     (image_size + 1) * num_cams + imu_size + 1 + config_size + 1"

definition slam_manager_new :: "os \<Rightarrow> u32 \<Rightarrow> u32 \<Rightarrow> u32 \<Rightarrow> u32 \<Rightarrow> slam_manager outcome" where
  "slam_manager_new os num_cams image_size imu_size config_size =
     (let device = os_open os ''/dev/slam-sensor'' in
      if device <s 0 then Exit (- 1)
      else
        let addr = os_mmap os (slam_mem_space num_cams image_size imu_size config_size) device 0 in
        if addr = MAP_FAILED then Exit (- 1)
        else
          let imu = SharedMemory_new (addr + (image_size + HEADER_SIZE) * num_cams) imu_size in
          Ret \<lparr>sl_num_cams = num_cams,
               sl_cams = map (\<lambda>i. SharedMemory_new (addr + (image_size + HEADER_SIZE) * of_nat i) image_size)
                           [0..<nat (sint num_cams)],
               sl_imu = imu,
               sl_config = SharedMemory_new (SharedMemory_data imu + SharedMemory_size imu) config_size\<rparr>)"

definition slam_getNumCams :: "slam_manager \<Rightarrow> u32" where
  "slam_getNumCams g = sl_num_cams g"

text \<open>\<open>vector::at\<close> converts the \<open>int\<close> to \<open>size_t\<close> and throws outside the vector.\<close>

definition slam_cam :: "slam_manager \<Rightarrow> u32 \<Rightarrow> SharedMemory outcome" where
  "slam_cam g cam_id =
     (if unat cam_id < length (sl_cams g) then Ret (sl_cams g ! unat cam_id) else Throw ''out_of_range'')"

definition slam_imu :: "slam_manager \<Rightarrow> SharedMemory" where
  "slam_imu g = sl_imu g"

definition slam_config :: "slam_manager \<Rightarrow> SharedMemory" where
  "slam_config g = sl_config g"

subsection \<open>SharedMemoryManager of the camera server\<close>

record SharedMemoryManager =
  mg_allocated_memory_size :: u32
  mg_fpga_device :: u32
  mg_mmap_start_address :: u32
  mg_buffers :: "SharedRingBuffer list"

definition SharedMemoryManager_new :: "os \<Rightarrow> u32 \<Rightarrow> SharedMemoryManager outcome" where
  "SharedMemoryManager_new os junk_size =
     (let fd = os_open os ''/dev/slam-sensor'' in
      if fd <s 0 then Exit (- 1)
      else let alloc = read_int junk_size (snd (os_read os fd 1));
               base = os_mmap os alloc fd 0 in
        if base = MAP_FAILED then Exit (- 1)
        else Ret \<lparr>mg_allocated_memory_size = alloc, mg_fpga_device = fd, mg_mmap_start_address = base,
                  mg_buffers = []\<rparr>)"

definition SharedMemoryManager_getMemoryAddress :: "os \<Rightarrow> SharedMemoryManager \<Rightarrow> u32" where
  "SharedMemoryManager_getMemoryAddress os g = read_int 0 (snd (os_read os (mg_fpga_device g) 0))"

text \<open>The result says whether the buffer was added (otherwise the error is printed).\<close>

definition SharedMemoryManager_addRingBuffer ::
  "SharedRingBuffer \<Rightarrow> SharedMemoryManager \<Rightarrow> bool \<times> SharedMemoryManager" where
  "SharedMemoryManager_addRingBuffer buffer g =
     (let buffer_start_address =
            fold (\<lambda>buf a. a + SharedRingBuffer_size buf) (mg_buffers g) (mg_mmap_start_address g)
      in if mg_allocated_memory_size g <s
              buffer_start_address + SharedRingBuffer_size buffer * SharedRingBuffer_length buffer
         then (False, g)
         else (True, g\<lparr>mg_buffers := mg_buffers g @ [buffer]\<rparr>))"

definition SharedMemoryManager_getRingBuffer :: "SharedMemoryManager \<Rightarrow> u32 \<Rightarrow> SharedRingBuffer outcome" where
  "SharedMemoryManager_getRingBuffer g i =
     (if unat i < length (mg_buffers g) then Ret (mg_buffers g ! unat i) else Throw ''out_of_range'')"

definition SharedMemoryManager_printMemoryLayout :: "SharedMemoryManager \<Rightarrow> (u32 \<times> u32) list" where
  "SharedMemoryManager_printMemoryLayout g =
     map (\<lambda>buf. (SharedRingBuffer_data buf, SharedRingBuffer_length buf)) (mg_buffers g)"

subsection \<open>The test pattern\<close>

text \<open>\<open>sprintf("%d")\<close> of a number that is not negative, without the final NUL.\<close>

fun dec_digits :: "nat \<Rightarrow> byte list" where
  "dec_digits n = (if n < 10 then [of_nat (48 + n)] else dec_digits (n div 10) @ [of_nat (48 + n mod 10)])"

declare dec_digits.simps [simp del]

text \<open>The loop of slam_sensor_server/src/main.cpp that fills an image with numbers: the number \<open>k\<close>
  is printed at offset \<open>4 * k\<close>, with its NUL.\<close>

definition fill_number :: "u32 \<Rightarrow> nat \<Rightarrow> mem \<Rightarrow> mem" where
  "fill_number data k m = store_bytes m (data + of_nat (4 * k)) (dec_digits k @ [0])"

definition fill_numbers :: "u32 \<Rightarrow> nat \<Rightarrow> mem \<Rightarrow> mem" where
  "fill_numbers data image_size m = fold (fill_number data) [0..<(image_size + 3) div 4] m"

subsection \<open>Regions\<close>

definition region :: "SharedMemory \<Rightarrow> u32 list" where
  "region s = map (\<lambda>i. sm_addr s + of_nat i) [0..<Suc (unat (sm_size s))]"

definition all_regions :: "slam_manager \<Rightarrow> SharedMemory list" where
  "all_regions g = sl_cams g @ [sl_imu g, sl_config g]"

definition demo_slam_os :: os where
  "demo_slam_os = \<lparr>os_open = (\<lambda>_. 4), os_mmap = (\<lambda>_ _ _. 0x50000000), os_munmap = (\<lambda>_ _. 0),
     os_read = (\<lambda>_ n. if n = 0 then (4, le32 0x1F000000) else (4, le32 3608576))\<rparr>"

definition demo_slam_manager :: slam_manager where
  "demo_slam_manager = \<lparr>sl_num_cams = 2,
     sl_cams = [\<lparr>sm_addr = 0x50000000, sm_size = 360960\<rparr>, \<lparr>sm_addr = 0x50058201, sm_size = 360960\<rparr>],
     sl_imu = \<lparr>sm_addr = 0x500B0402, sm_size = 10\<rparr>, sl_config = \<lparr>sm_addr = 0x500B040D, sm_size = 10\<rparr>\<rparr>"

definition demo_manager :: SharedMemoryManager where
  "demo_manager = \<lparr>mg_allocated_memory_size = 3608576, mg_fpga_device = 4,
     mg_mmap_start_address = 0x40000000, mg_buffers = []\<rparr>"

subsection \<open>Flags as independent booleans\<close>

locale flag_store =
  fixes get :: "'m \<Rightarrow> 'r \<Rightarrow> bool" and put :: "'r \<Rightarrow> bool \<Rightarrow> 'm \<Rightarrow> 'm" and apart :: "'r \<Rightarrow> 'r \<Rightarrow> bool"
  assumes get_put: "get (put r v m) r = v"
    and get_put_apart: "apart r r' \<Longrightarrow> get (put r v m) r' = get m r'"
begin

text \<open>Clearing a list of flags clears exactly these.\<close>

lemma get_clear_others:
  "(\<And>r'. r' \<in> set rs \<Longrightarrow> apart r' r) \<Longrightarrow> get (fold (\<lambda>r m. put r False m) rs m) r = get m r"
  by (induction rs arbitrary: m) (auto simp: get_put_apart)

lemma get_clear:
  "r \<in> set rs \<Longrightarrow> (\<And>r'. r' \<in> set rs \<Longrightarrow> r' \<noteq> r \<Longrightarrow> apart r' r) \<Longrightarrow>
   \<not> get (fold (\<lambda>r m. put r False m) rs m) r"
proof (induction rs arbitrary: m)
  case (Cons a rs)
  show ?case
  proof (cases "r \<in> set rs")
    case False
    then have "a = r" using Cons.prems(1) by simp
    with False Cons.prems show ?thesis
      by (subst fold.simps) (simp add: get_clear_others get_put, metis get_clear_others get_put)
  qed (use Cons in auto)
qed simp

end

interpretation flags: flag_store SharedMemory_newDataAvailable SharedMemory_setNewDataAvailable
  "\<lambda>r r'. sm_addr r \<noteq> sm_addr r'"
  by unfold_locales (auto simp: SharedMemory_newDataAvailable_def SharedMemory_setNewDataAvailable_def)

subsection \<open>The layout of the slam server's memory\<close>

lemma region_at:
  "region (SharedMemory_new (a + of_nat k) sz) = map (\<lambda>i. a + of_nat i) [k..<k + Suc (unat sz)]"
  by (rule nth_equalityI) (simp_all add: region_def SharedMemory_new_def add.assoc del: upt_Suc)

lemma regions_at:
  "concat (map (\<lambda>i. region (SharedMemory_new (a + (sz + 1) * of_nat i) sz)) [0..<n]) =
   map (\<lambda>i. a + of_nat i) [0..<n * Suc (unat sz)]"
proof (induction n)
  case (Suc n)
  let ?k = "n * Suc (unat sz)"
  have addr: "(sz + 1) * of_nat n = (of_nat ?k :: u32)" by (simp add: algebra_simps)
  have upt: "[0..<Suc n * Suc (unat sz)] = [0..<?k] @ [?k..<?k + Suc (unat sz)]"
    using upt_add_eq_append [of 0 ?k "Suc (unat sz)"] by (simp only: mult_Suc add.commute)
  show ?case
    unfolding upt map_append Suc.IH [symmetric] region_at [symmetric] by (simp add: addr del: of_nat_mult)
qed simp

lemma distinct_addresses: "n \<le> 2 ^ 32 \<Longrightarrow> distinct (map (\<lambda>i. (a :: u32) + of_nat i) [0..<n])"
  by (auto simp: distinct_map inj_on_def word_of_nat_eq_iff take_bit_nat_eq_self)

text \<open>What the constructor builds, when the sizes fit an \<open>int\<close>.\<close>

lemma slam_manager_new_regions:
  assumes "slam_manager_new os num_cams image_size imu_size config_size = Ret g"
    and "n = Suc (unat image_size) * unat num_cams + unat imu_size + 1 + unat config_size + 1"
    and "n < 2 ^ 31"
  shows "\<exists>addr. addr = os_mmap os (of_nat n) (os_open os ''/dev/slam-sensor'') 0 \<and>
     concat (map region (all_regions g)) = map (\<lambda>i. addr + of_nat i) [0..<n]"
proof -
  define addr where
    "addr = os_mmap os (slam_mem_space num_cams image_size imu_size config_size) (os_open os ''/dev/slam-sensor'') 0"
  have space: "slam_mem_space num_cams image_size imu_size config_size = of_nat n"
    by (simp add: slam_mem_space_def assms(2) algebra_simps)
  have "unat num_cams \<le> Suc (unat image_size) * unat num_cams" by simp
  then have "unat num_cams < 2 ^ 31" using assms(2,3) by linarith
  then have num: "nat (sint num_cams) = unat num_cams" by (simp add: sint_small)
  let ?k = "unat num_cams * Suc (unat image_size)"
  let ?j = "?k + Suc (unat imu_size)"
  have imu: "(image_size + 1) * num_cams = of_nat ?k" by (simp add: algebra_simps)
  have config: "addr + (image_size + 1) * num_cams + 1 + imu_size = addr + of_nat ?j"
    by (simp add: algebra_simps)
  have tot: "[0..<n] = ([0..<?k] @ [?k..<?j]) @ [?j..<?j + Suc (unat config_size)]"
  proof -
    have "n = ?j + Suc (unat config_size)" by (simp add: assms(2) algebra_simps)
    then show ?thesis
      using upt_add_eq_append [of 0 ?k "Suc (unat imu_size)"] upt_add_eq_append [of 0 ?j "Suc (unat config_size)"]
      by (simp only: le0 simp_thms)
  qed
  have g: "all_regions g =
      map (\<lambda>i. SharedMemory_new (addr + (image_size + 1) * of_nat i) image_size) [0..<unat num_cams] @
      [SharedMemory_new (addr + of_nat ?k) imu_size, SharedMemory_new (addr + of_nat ?j) config_size]"
    using assms(1) config
    by (auto simp: slam_manager_new_def Let_def all_regions_def HEADER_SIZE_def num addr_def imu
        SharedMemory_data_def SharedMemory_size_def SharedMemory_new_def split: if_splits)
  have "concat (map region (all_regions g)) = map (\<lambda>i. addr + of_nat i) [0..<n]"
    unfolding g tot map_append concat_append
    by (simp only: list.map concat.simps append_Nil2 map_map comp_def regions_at region_at append_assoc)
  then show ?thesis using addr_def space by simp
qed

lemma regions_disjoint:
  assumes "distinct (concat (map region rs))" and "i < length rs" and "j < length rs" and "i \<noteq> j"
  shows "set (region (rs ! i)) \<inter> set (region (rs ! j)) = {}"
proof -
  have "[] \<notin> set (map region rs)" by (auto simp: region_def)
  then have "removeAll [] (map region rs) = map region rs" by (rule removeAll_id)
  then have dist: "distinct (map region rs)"
    and disj: "\<And>ys zs. ys \<in> set (map region rs) \<Longrightarrow> zs \<in> set (map region rs) \<Longrightarrow> ys \<noteq> zs \<Longrightarrow> set ys \<inter> set zs = {}"
    using assms(1) by (auto simp: distinct_concat_iff)
  have "region (rs ! i) \<noteq> region (rs ! j)"
    using dist assms(2-4) by (simp add: distinct_conv_nth)
  then show ?thesis using assms(2,3) by (intro disj) auto
qed

lemma slam_regions_distinct:
  assumes "slam_manager_new os num_cams image_size imu_size config_size = Ret g"
    and "Suc (unat image_size) * unat num_cams + unat imu_size + 1 + unat config_size + 1 < 2 ^ 31"
  shows "distinct (concat (map region (all_regions g)))"
proof -
  define n where "n = Suc (unat image_size) * unat num_cams + unat imu_size + 1 + unat config_size + 1"
  have "n < 2 ^ 31" using assms(2) n_def by simp
  with slam_manager_new_regions [OF assms(1) n_def] distinct_addresses [of n] show ?thesis by auto
qed

lemma demo_slam_manager_new: "slam_manager_new demo_slam_os 2 360960 10 10 = Ret demo_slam_manager"
  by (simp add: slam_manager_new_def demo_slam_os_def MAP_FAILED_def Let_def demo_slam_manager_def
      sless_small sint_small HEADER_SIZE_def SharedMemory_new_def SharedMemory_data_def SharedMemory_size_def
      upt_rec)

lemma flag_in_region: "sm_addr r \<in> set (region r)"
  by (simp add: region_def image_iff del: upt_Suc) (rule bexI [of _ 0], simp_all)

lemma data_in_region:
  "i < unat (sm_size r) \<Longrightarrow> SharedMemory_data r + of_nat i \<in> set (region r)"
  by (simp add: region_def SharedMemory_data_def HEADER_SIZE_def image_iff add.assoc del: upt_Suc)
     (rule bexI [of _ "Suc i"], simp_all)

lemma data_not_flag:
  assumes "k < unat (sm_size r)"
  shows "SharedMemory_data r + of_nat k \<noteq> sm_addr r"
proof
  assume "SharedMemory_data r + of_nat k = sm_addr r"
  then have "of_nat (Suc k) = (0 :: u32)" by (simp add: SharedMemory_data_def HEADER_SIZE_def add.assoc)
  moreover have "Suc k < 2 ^ 32" using assms unat_lt32 [of "sm_size r"] by simp
  then have "unat (of_nat (Suc k) :: u32) = Suc k" by (simp only: unat_of_nat) simp
  ultimately show False by simp
qed

lemma load_bytes_set_flag:
  assumes "\<And>i. i < n \<Longrightarrow> a + of_nat i \<noteq> sm_addr r"
  shows "load_bytes (SharedMemory_setNewDataAvailable r v m) a n = load_bytes m a n"
  by (rule nth_equalityI) (auto simp: SharedMemory_setNewDataAvailable_def assms)

lemma set_flag_frame:
  assumes "distinct (concat (map region rs))" and "i < length rs" and "j < length rs"
  shows "SharedMemory_newDataAvailable (SharedMemory_setNewDataAvailable (rs ! i) v m) (rs ! j) =
           (if i = j then v else SharedMemory_newDataAvailable m (rs ! j)) \<and>
         load_bytes (SharedMemory_setNewDataAvailable (rs ! i) v m)
             (SharedMemory_data (rs ! j)) (unat (SharedMemory_size (rs ! j))) =
           load_bytes m (SharedMemory_data (rs ! j)) (unat (SharedMemory_size (rs ! j)))"
proof -
  let ?r = "rs ! i" and ?s = "rs ! j"
  have own: "SharedMemory_data ?s + of_nat k \<noteq> sm_addr ?s" if "k < unat (sm_size ?s)" for k
    by (rule data_not_flag [OF that])
  have bytes: "SharedMemory_data ?s + of_nat k \<noteq> sm_addr ?r" if "k < unat (sm_size ?s)" for k
    using regions_disjoint [OF assms] own [OF that] flag_in_region [of ?r] data_in_region [OF that]
    by (cases "i = j") auto
  have flag: "i \<noteq> j \<Longrightarrow> sm_addr ?r \<noteq> sm_addr ?s"
    using regions_disjoint [OF assms] flag_in_region [of ?r] flag_in_region [of ?s] by auto
  show ?thesis
    using flags.get_put flags.get_put_apart [OF flag] load_bytes_set_flag [OF bytes]
    by (simp add: SharedMemory_size_def)
qed

subsection \<open>The digits of the test pattern\<close>

lemma length_dec_digits: "k < 10 ^ d \<Longrightarrow> 0 < d \<Longrightarrow> length (dec_digits k) \<le> d"
proof (induction d arbitrary: k)
  case (Suc d)
  show ?case
  proof (cases "k < 10")
    case False
    with Suc.prems have "0 < d" by (cases d) auto
    moreover have "k div 10 < 10 ^ d" using Suc.prems by (simp add: less_mult_imp_div_less mult.commute)
    ultimately have "length (dec_digits (k div 10)) \<le> d" by (intro Suc.IH)
    then show ?thesis by (subst dec_digits.simps) (simp add: False)
  qed (subst dec_digits.simps, simp)
qed simp

lemma unat_offset_diff:
  assumes "p < 2 ^ 32" and "q < 2 ^ 32"
  shows "unat ((a :: u32) + of_nat p - (a + of_nat q)) = (if q \<le> p then p - q else p + 2 ^ 32 - q)"
  using assms by (simp add: unat_sub_if' unat_of_nat)

lemma fill_number_apply:
  assumes "k < 100000" and "p < 500000"
  shows "fill_number data k m (data + of_nat p) =
    (if 4 * k \<le> p \<and> p - 4 * k \<le> length (dec_digits k)
     then (dec_digits k @ [0]) ! (p - 4 * k) else m (data + of_nat p))"
proof -
  have len: "length (dec_digits k) \<le> 5" using length_dec_digits [of k 5] assms by simp
  have diff: "unat (data + of_nat p - (data + of_nat (4 * k))) = (if 4 * k \<le> p then p - 4 * k else p + 2 ^ 32 - 4 * k)"
    using assms by (intro unat_offset_diff) auto
  show ?thesis
    using len assms unfolding fill_number_def
    by (subst store_bytes_apply, simp, subst diff, subst diff) auto
qed

lemma fill_numbers_prefix:
  assumes "n \<le> 90240" and "k < n" and "j < 4" and "j < length (dec_digits k)"
  shows "fold (fill_number data) [0..<n] m (data + of_nat (4 * k + j)) = dec_digits k ! j"
  using assms(1,2)
proof (induction n)
  case (Suc n)
  have "fold (fill_number data) [0..<Suc n] m (data + of_nat (4 * k + j)) =
        fill_number data n (fold (fill_number data) [0..<n] m) (data + of_nat (4 * k + j))" by simp
  also have "\<dots> = dec_digits k ! j"
    using Suc assms(3,4) by (subst fill_number_apply) (auto simp: nth_append less_Suc_eq)
  finally show ?case .
qed simp

lemma fill_numbers_last:
  "fill_numbers data 360960 m = fill_number data 90239 (fold (fill_number data) [0..<90239] m)"
proof -
  have "[0..<90240] = [0..<90239] @ [90239]" using upt_Suc_append [of 0 90239] by simp
  then show ?thesis unfolding fill_numbers_def by (simp del: upt_rec_numeral)
qed

subsection \<open>Properties\<close>

text \<open>C13: the slam server's shared memory is laid out without gaps or overlaps: the flag byte and the
  data of every camera, of the IMU and of the configuration, in this order, cover exactly the bytes
  of the mapping the constructor asked for, each byte once.\<close>

theorem slam_layout_tiles:
  assumes "slam_manager_new os num_cams image_size imu_size config_size = Ret g"
    and "n = Suc (unat image_size) * unat num_cams + unat imu_size + 1 + unat config_size + 1"
    and "n < 2 ^ 31"
  shows "concat (map region (all_regions g)) =
           map (\<lambda>i. os_mmap os (of_nat n) (os_open os ''/dev/slam-sensor'') 0 + of_nat i) [0..<n] \<and>
         distinct (concat (map region (all_regions g)))"
  using slam_manager_new_regions [OF assms] distinct_addresses [of n] assms(3) by auto

theorem slam_layout_tiles_witness:
  "concat (map region (all_regions demo_slam_manager)) = map (\<lambda>i. 0x50000000 + of_nat i) [0..<721944] \<and>
   distinct (concat (map region (all_regions demo_slam_manager)))"
  by (rule slam_layout_tiles [OF demo_slam_manager_new, of 721944, unfolded demo_slam_os_def os.simps]) simp_all

text \<open>C22: the flags of the regions are independent. Setting or clearing the flag of one region gives that
  flag its new value, leaves the flag of every other region, and changes no data byte of any
  region.\<close>

theorem slam_flags_independent:
  assumes "slam_manager_new os num_cams image_size imu_size config_size = Ret g"
    and "Suc (unat image_size) * unat num_cams + unat imu_size + 1 + unat config_size + 1 < 2 ^ 31"
    and "i < length (all_regions g)" and "j < length (all_regions g)"
  shows "SharedMemory_newDataAvailable (SharedMemory_setNewDataAvailable (all_regions g ! i) v m) (all_regions g ! j) =
           (if i = j then v else SharedMemory_newDataAvailable m (all_regions g ! j)) \<and>
         load_bytes (SharedMemory_setNewDataAvailable (all_regions g ! i) v m)
             (SharedMemory_data (all_regions g ! j)) (unat (SharedMemory_size (all_regions g ! j))) =
           load_bytes m (SharedMemory_data (all_regions g ! j)) (unat (SharedMemory_size (all_regions g ! j)))"
  using set_flag_frame [OF slam_regions_distinct [OF assms(1,2)] assms(3,4)] by simp

theorem slam_flags_independent_witness:
  "SharedMemory_newDataAvailable
     (SharedMemory_setNewDataAvailable (sl_cams demo_slam_manager ! 0) True (\<lambda>_. 0)) (sl_imu demo_slam_manager) =
   SharedMemory_newDataAvailable (\<lambda>_. 0) (sl_imu demo_slam_manager)"
  using slam_flags_independent [OF demo_slam_manager_new, of 0 2 True "\<lambda>_. 0"]
  by (simp add: all_regions_def demo_slam_manager_def)

text \<open>the fill loop of the slam server's \<open>main\<close> leaves the leading digits of \<open>k\<close> in the \<open>k\<close>-th
  word of the image (all of them up to 9999, the first four above).\<close>

theorem fill_numbers_content:
  assumes "k < 90240" and "j < 4" and "j < length (dec_digits k)"
  shows "fill_numbers data 360960 m (data + of_nat (4 * k + j)) = dec_digits k ! j"
  using fill_numbers_prefix [of 90240, OF _ assms] by (simp add: fill_numbers_def)

theorem fill_numbers_content_witness:
  "fill_numbers 1000 360960 (\<lambda>_. 0) (1000 + of_nat (4 * 427 + 1)) = 0x32"
  using fill_numbers_content [of 427 1 1000 "\<lambda>_. 0"] by (simp add: dec_digits.simps)

text \<open>C40: the last number of the fill loop has five digits and a NUL in four bytes, so the loop writes two
  bytes beyond the image of camera 0: the digit \<open>9\<close> into the flag of camera 1, which now reads as
  having new data, and a NUL into its first pixel.\<close>

theorem fill_numbers_overflows:
  assumes "slam_manager_new os 2 360960 imu_size config_size = Ret g"
    and "cam0 = sl_cams g ! 0" and "cam1 = sl_cams g ! 1"
  shows "SharedMemory_newDataAvailable (fill_numbers (SharedMemory_data cam0) 360960 m) cam1 \<and>
    fill_numbers (SharedMemory_data cam0) 360960 m (sm_addr cam1) = 0x39 \<and>
    fill_numbers (SharedMemory_data cam0) 360960 m (SharedMemory_data cam1) = 0"
proof -
  have two: "nat (sint (2 :: u32)) = 2" by (simp add: sint_small)
  have "sm_addr cam1 = SharedMemory_data cam0 + of_nat 360960"
    and "SharedMemory_data cam1 = SharedMemory_data cam0 + of_nat 360961"
    using assms
    by (auto simp: slam_manager_new_def Let_def SharedMemory_data_def SharedMemory_new_def HEADER_SIZE_def
        two split: if_splits)
  moreover have "dec_digits 90239 = [0x39, 0x30, 0x32, 0x33, 0x39]" by (simp add: dec_digits.simps)
  ultimately show ?thesis
    by (simp only: SharedMemory_newDataAvailable_def fill_numbers_last) (simp add: fill_number_apply del: of_nat_numeral)
qed

theorem fill_numbers_overflows_witness:
  "SharedMemory_newDataAvailable
     (fill_numbers (SharedMemory_data (sl_cams demo_slam_manager ! 0)) 360960 (\<lambda>_. 0)) (sl_cams demo_slam_manager ! 1)"
  using fill_numbers_overflows [OF demo_slam_manager_new refl refl] by blast

text \<open>the check of \<open>addRingBuffer\<close> compares an absolute address with the size of the memory. The
  camera's own buffer (eight images, which fit the 3608576 bytes of the driver) is refused whenever the
  mapping starts in the lower half of the address space above the first 50 MB, and accepted
  whenever the mapping starts in the upper half, where the address is a negative \<open>int\<close>.\<close>

theorem addRingBuffer_compares_address:
  assumes "mg_allocated_memory_size g = 3608576" and "mg_buffers g = []"
    and "rb_data_size b = 360960" and "rb_length b = 8"
  shows "(3608576 \<le> unat (mg_mmap_start_address g) \<and> unat (mg_mmap_start_address g) < 0x7E000000 \<longrightarrow>
            SharedMemoryManager_addRingBuffer b g = (False, g)) \<and>
         (0x80000000 \<le> unat (mg_mmap_start_address g) \<and> unat (mg_mmap_start_address g) < 0xFE000000 \<longrightarrow>
            SharedMemoryManager_addRingBuffer b g = (True, g\<lparr>mg_buffers := [b]\<rparr>))"
proof -
  let ?a = "mg_mmap_start_address g"
  let ?e = "?a + 23101440"
  have check: "SharedMemoryManager_addRingBuffer b g =
      (if 3608576 <s ?e then (False, g) else (True, g\<lparr>mg_buffers := [b]\<rparr>))"
    using assms by (simp add: SharedMemoryManager_addRingBuffer_def SharedRingBuffer_size_def SharedRingBuffer_length_def)
  have low: "3608576 <s ?e" if "3608576 \<le> unat ?a" "unat ?a < 0x7E000000"
  proof -
    have "unat ?e = unat ?a + 23101440" using that by (subst unat_add_small) auto
    with that show ?thesis by (simp add: sless_small)
  qed
  have high: "\<not> 3608576 <s ?e" if "0x80000000 \<le> unat ?a" "unat ?a < 0xFE000000"
  proof -
    have "unat ?e = unat ?a + 23101440" using that by (subst unat_add_small) auto
    then have "sint ?e < 0" using that by (intro sint_negative) simp
    then show ?thesis by (simp add: word_sless_alt)
  qed
  from low high show ?thesis by (simp add: check)
qed

theorem addRingBuffer_compares_address_witness:
  "SharedMemoryManager_addRingBuffer demo_ring demo_manager = (False, demo_manager)"
  using addRingBuffer_compares_address [of demo_manager demo_ring]
  by (simp add: demo_manager_def demo_ring_def)

end
