(* ===== verification/Driver.thy ===== *)
theory Driver
  imports SharedMem
begin

text \<open>
  The kernel modules that provide \<open>/dev/slam-sensor\<close>: the camera server's driver
  (meta-visensor/recipes-visensor/visensor-mod/files/visensor.c), its older version
  (memory_allocator/memory_allocator.c), and the one-byte device
  (memory_allocator/simple_char_device.c). The two larger drivers share their functions up to the
  number of pages, which is an argument here. The kernel's answers are the parameter
  \<open>kernel\<close>; what the module did to the kernel's state is the list of \<open>kevent\<close>s, and the kernel
  memory it writes is \<open>dr_mem\<close>. The driver as an operating system seen by a user process is
  \<open>driver_os\<close>.
\<close>

subsection \<open>The kernel as a parameter\<close>

record kernel =
  k_kmalloc :: "u32 \<Rightarrow> u32"
  k_alloc_chrdev_region :: u32
  k_cdev_add :: u32
  k_remap_pfn_range :: "u32 \<Rightarrow> u32 \<Rightarrow> u32 \<Rightarrow> u32"
  k_virt_to_phys :: "u32 \<Rightarrow> u32"
  k_vmalloc_to_pfn :: "u32 \<Rightarrow> u32"
  k_register_chrdev :: u32

datatype kevent =
    Kfree u32 | UnregisterChrdev | CdevInit | CdevAdd | ClassCreate | DeviceCreate
  | DeviceDestroy | ClassDestroy | CdevDel | SetPageReserved u32 | RemapPfn u32 u32 u32

record driver =
  dr_vmalloc_area :: u32
  dr_kmalloc_area :: u32
  dr_kmalloc_ptr :: u32
  dr_bytes_in_memory :: u32
  dr_mem :: mem
  dr_log :: "kevent list"

definition PAGE_SIZE :: u32 where "PAGE_SIZE = 4096"
definition PAGE_MASK :: u32 where "PAGE_MASK = NOT (PAGE_SIZE - 1)"
definition EIO :: u32 where "EIO = 5"
definition ENOMEM :: u32 where "ENOMEM = 12"

definition visensor_npages :: u32 where "visensor_npages = (360960 * 10) div PAGE_SIZE"
definition allocator_npages :: u32 where "allocator_npages = (360960 * 3) div PAGE_SIZE"

subsection \<open>File operations\<close>

definition aslam_open :: u32 where "aslam_open = 0"
definition aslam_release :: u32 where "aslam_release = 0"

text \<open>\<open>length > npages * PAGE_SIZE\<close> compares a \<open>long\<close> with an \<open>unsigned long\<close>: unsigned.\<close>

definition aslam_kmem :: "u32 \<Rightarrow> kernel \<Rightarrow> u32 \<Rightarrow> u32 \<Rightarrow> driver \<Rightarrow> u32 \<times> driver" where
  "aslam_kmem npages k vm_start vm_end s =
     (let len = vm_end - vm_start in
      if npages * PAGE_SIZE < len then (- EIO, s)
      else
        let pfn = drop_bit 12 (k_virt_to_phys k (dr_kmalloc_area s));
            ret = k_remap_pfn_range k vm_start pfn len;
            s' = s\<lparr>dr_log := dr_log s @ [RemapPfn vm_start pfn len]\<rparr>
        in if ret <s 0 then (ret, s') else (0, s'))"

function aslam_vmem_loop :: "kernel \<Rightarrow> u32 \<Rightarrow> u32 \<Rightarrow> int \<Rightarrow> driver \<Rightarrow> u32 \<times> driver" where
  "aslam_vmem_loop k start area_ptr len s =
     (if len > 0 then
        let pfn = k_vmalloc_to_pfn k area_ptr;
            ret = k_remap_pfn_range k start pfn PAGE_SIZE;
            s' = s\<lparr>dr_log := dr_log s @ [RemapPfn start pfn PAGE_SIZE]\<rparr>
        in if ret <s 0 then (ret, s')
           else aslam_vmem_loop k (start + PAGE_SIZE) (area_ptr + PAGE_SIZE) (len - 4096) s'
      else (0, s))"
  by pat_completeness auto
termination
  by (relation "measure (\<lambda>(k, start, area_ptr, len, s). nat len)") auto

declare aslam_vmem_loop.simps [simp del]

definition aslam_vmem :: "u32 \<Rightarrow> kernel \<Rightarrow> u32 \<Rightarrow> u32 \<Rightarrow> driver \<Rightarrow> u32 \<times> driver" where
  "aslam_vmem npages k vm_start vm_end s =
     (let len = vm_end - vm_start in
      if npages * PAGE_SIZE < len then (- EIO, s)
      else aslam_vmem_loop k vm_start (dr_vmalloc_area s) (sint len) s)"

definition aslam_mmap :: "u32 \<Rightarrow> kernel \<Rightarrow> u32 \<Rightarrow> u32 \<Rightarrow> u32 \<Rightarrow> driver \<Rightarrow> u32 \<times> driver" where
  "aslam_mmap npages k vm_start vm_end vm_pgoff s =
     (if vm_pgoff = 0 then aslam_kmem npages k vm_start vm_end s else (- EIO, s))"

text \<open>\<open>read\<close> of the camera server's driver: the count selects what is copied to the user. The bytes are
  those given to \<open>copy_to_user\<close>; the file position is only printed.\<close>

definition aslam_read :: "kernel \<Rightarrow> u32 \<Rightarrow> driver \<Rightarrow> u32 \<times> byte list" where
  "aslam_read k count s =
     (if count = 0 then (4, le32 (k_virt_to_phys k (dr_kmalloc_area s)))
      else if count = 1 then (4, le32 (dr_bytes_in_memory s))
      else (- EIO, []))"

text \<open>\<open>read\<close> of memory_allocator.c tests the pointer \<open>f_pos\<close> itself and copies eight bytes from a
  four-byte variable; the other four are whatever follows it on the stack.\<close>

definition allocator_aslam_read :: "byte list \<Rightarrow> u32 \<Rightarrow> u32 \<Rightarrow> driver \<Rightarrow> u32 \<times> byte list" where
  "allocator_aslam_read stack f_pos count s =
     (if f_pos \<noteq> 0 \<or> count \<noteq> 8 then (- EIO, [])
      else (8, le32 (dr_kmalloc_area s) @ take 4 stack))"

subsection \<open>Loading and unloading\<close>

definition reserve_pages :: "u32 \<Rightarrow> u32 \<Rightarrow> kevent list" where
  "reserve_pages npages area = map (\<lambda>i. SetPageReserved (area + of_nat i * PAGE_SIZE)) [0..<unat npages]"

definition store_pattern_pair :: "u32 \<Rightarrow> nat \<Rightarrow> mem \<Rightarrow> mem" where
  "store_pattern_pair area k m =
     (let i = of_nat (2 * k) in
      store32 (store32 m (area + 4 * i) (0xdead0000 + i)) (area + 4 * (i + 1)) (0xbeef0000 + i))"

definition store_pattern :: "u32 \<Rightarrow> u32 \<Rightarrow> mem \<Rightarrow> mem" where
  "store_pattern npages area m =
     fold (store_pattern_pair area) [0..<(unat (npages * PAGE_SIZE div 4) + 1) div 2] m"

definition aslam_init_body :: "u32 \<Rightarrow> kernel \<Rightarrow> driver \<Rightarrow> u32 \<times> driver" where
  "aslam_init_body npages k s =
     (let ptr = k_kmalloc k ((npages + 2) * PAGE_SIZE) in
      if ptr = 0 then (- ENOMEM, s\<lparr>dr_kmalloc_ptr := ptr\<rparr>)
      else
        let area = (ptr + PAGE_SIZE - 1) AND PAGE_MASK;
            log1 = (if k_alloc_chrdev_region k <s 0 then [Kfree ptr] else []);
            ret = k_cdev_add k;
            log2 = [CdevInit, CdevAdd] @ (if ret <s 0 then [UnregisterChrdev, Kfree ptr] else [])
        in (ret, s\<lparr>dr_kmalloc_ptr := ptr, dr_kmalloc_area := area,
                   dr_mem := store_pattern npages area (dr_mem s),
                   dr_log := dr_log s @ log1 @ log2 @ [ClassCreate, DeviceCreate] @ reserve_pages npages area\<rparr>))"

definition aslam_init :: "kernel \<Rightarrow> driver \<Rightarrow> u32 \<times> driver" where
  "aslam_init k s =
     (case aslam_init_body visensor_npages k s of (ret, s1) \<Rightarrow>
        if dr_kmalloc_ptr s1 = 0 then (ret, s1)
        else (ret, s1\<lparr>dr_bytes_in_memory := visensor_npages * PAGE_SIZE\<rparr>))"

definition allocator_aslam_init :: "kernel \<Rightarrow> driver \<Rightarrow> u32 \<times> driver" where
  "allocator_aslam_init k s = aslam_init_body allocator_npages k s"

definition aslam_exit_body :: "u32 \<Rightarrow> driver \<Rightarrow> driver" where
  "aslam_exit_body npages s =
     s\<lparr>dr_log := dr_log s @ [DeviceDestroy, ClassDestroy, CdevDel, UnregisterChrdev] @
                 reserve_pages npages (dr_kmalloc_area s) @ [Kfree (dr_kmalloc_ptr s)]\<rparr>"

definition aslam_exit :: "driver \<Rightarrow> driver" where
  "aslam_exit s = aslam_exit_body visensor_npages s"

definition allocator_aslam_exit :: "driver \<Rightarrow> driver" where
  "allocator_aslam_exit s = aslam_exit_body allocator_npages s"

definition allocator_aslam_kmem :: "kernel \<Rightarrow> u32 \<Rightarrow> u32 \<Rightarrow> driver \<Rightarrow> u32 \<times> driver" where
  "allocator_aslam_kmem = aslam_kmem allocator_npages"

definition allocator_aslam_vmem :: "kernel \<Rightarrow> u32 \<Rightarrow> u32 \<Rightarrow> driver \<Rightarrow> u32 \<times> driver" where
  "allocator_aslam_vmem = aslam_vmem allocator_npages"

definition allocator_aslam_mmap :: "kernel \<Rightarrow> u32 \<Rightarrow> u32 \<Rightarrow> u32 \<Rightarrow> driver \<Rightarrow> u32 \<times> driver" where
  "allocator_aslam_mmap = aslam_mmap allocator_npages"

subsection \<open>The one-byte device\<close>

record char_device =
  cd_memory_buffer :: "byte option"
  cd_registered :: bool

definition memory_exit :: "char_device \<Rightarrow> char_device" where
  "memory_exit c = c\<lparr>cd_registered := False, cd_memory_buffer := None\<rparr>"

definition memory_init :: "kernel \<Rightarrow> char_device \<Rightarrow> u32 \<times> char_device" where
  "memory_init k c =
     (let result = k_register_chrdev k in
      if result <s 0 then (result, c)
      else if k_kmalloc k 1 = 0 then (- ENOMEM, memory_exit (c\<lparr>cd_registered := True, cd_memory_buffer := None\<rparr>))
      else (0, c\<lparr>cd_registered := True, cd_memory_buffer := Some 0\<rparr>))"

definition memory_open :: u32 where "memory_open = 0"
definition memory_release :: u32 where "memory_release = 0"

text \<open>\<open>memory_read\<close>: the returned count, the new file position and the byte copied to the user (also
  when the count is 0).\<close>

definition memory_read :: "nat \<Rightarrow> char_device \<Rightarrow> u32 \<times> nat \<times> byte option" where
  "memory_read f_pos c =
     (if f_pos = 0 then (1, f_pos + 1, cd_memory_buffer c) else (0, f_pos, cd_memory_buffer c))"

text \<open>\<open>memory_write\<close> keeps the byte at \<open>buf + count - 1\<close> (the user memory is \<open>m\<close>).\<close>

definition memory_write :: "mem \<Rightarrow> u32 \<Rightarrow> u32 \<Rightarrow> char_device \<Rightarrow> u32 \<times> char_device" where
  "memory_write m buf count c = (1, c\<lparr>cd_memory_buffer := Some (m (buf + count - 1))\<rparr>)"

subsection \<open>The driver seen by a user process\<close>

text \<open>
  \<open>mmap\<close> of the device at offset 0 asks the driver for whole pages at the address \<open>vm_start\<close> the
  kernel chose; \<open>read\<close> goes to \<open>aslam_read\<close>.
\<close>

definition page_round :: "u32 \<Rightarrow> u32" where
  "page_round len = (len + PAGE_SIZE - 1) AND PAGE_MASK"

definition driver_os :: "kernel \<Rightarrow> u32 \<Rightarrow> driver \<Rightarrow> os" where
  "driver_os k vm_start s =
     \<lparr>os_open = (\<lambda>name. 3),
      os_mmap = (\<lambda>len fd off.
         if fst (aslam_mmap visensor_npages k vm_start (vm_start + page_round len) (drop_bit 12 off) s) <s 0
         then MAP_FAILED else vm_start),
      os_munmap = (\<lambda>_ _. 0),
      os_read = (\<lambda>fd count. aslam_read k count s)\<rparr>"

text \<open>The pattern the test application expects in word \<open>i\<close>.\<close>

definition pattern_word :: "nat \<Rightarrow> u32" where
  "pattern_word i = (if even i then 0xdead0000 + of_nat i else 0xbeef0000 + of_nat (i - 1))"

definition demo_kernel :: kernel where
  "demo_kernel = \<lparr>k_kmalloc = (\<lambda>n. 0xC1000040), k_alloc_chrdev_region = 0, k_cdev_add = 0,
     k_remap_pfn_range = (\<lambda>_ _ _. 0), k_virt_to_phys = (\<lambda>a. a - 0xC0000000),
     k_vmalloc_to_pfn = (\<lambda>a. drop_bit 12 a), k_register_chrdev = 0\<rparr>"

definition demo_driver :: driver where
  "demo_driver = \<lparr>dr_vmalloc_area = 0, dr_kmalloc_area = 0, dr_kmalloc_ptr = 0, dr_bytes_in_memory = 0,
     dr_mem = (\<lambda>_. 0), dr_log = []\<rparr>"

subsection \<open>Pages\<close>

lemma page_consts:
  "npages * PAGE_SIZE = npages * 4096" "visensor_npages = 881" "allocator_npages = 264"
  by (simp_all add: PAGE_SIZE_def visensor_npages_def allocator_npages_def)

lemma and_PAGE_MASK: "x AND PAGE_MASK = push_bit 12 (drop_bit 12 x)"
proof (rule bit_word_eqI)
  have mask: "PAGE_MASK = NOT (mask 12)" by (simp add: PAGE_MASK_def PAGE_SIZE_def mask_eq_exp_minus_1)
  fix n assume "n < LENGTH(32)"
  then show "bit (x AND PAGE_MASK) n = bit (push_bit 12 (drop_bit 12 x)) n"
    by (auto simp: mask bit_simps)
qed

lemma unat_page_down: "unat (x AND PAGE_MASK) = 4096 * (unat x div 4096)"
proof -
  have "unat x div 4096 * 4096 < 2 ^ 32" using unat_lt32 [of x] by (meson div_times_less_eq_dividend le_less_trans)
  then have "take_bit 32 (push_bit 12 (drop_bit 12 (unat x))) = push_bit 12 (drop_bit 12 (unat x))"
    by (intro take_bit_nat_eq_self) (simp add: push_bit_eq_mult drop_bit_eq_div)
  then show ?thesis
    unfolding and_PAGE_MASK unsigned_push_bit_eq unsigned_drop_bit_eq
    using unat_lt32 [of x] by (simp add: push_bit_eq_mult drop_bit_eq_div take_bit_nat_eq_self)
qed

text \<open>Rounding a block of two spare pages up to a page boundary stays inside the block.\<close>

lemma page_up_bounds:
  assumes "unat ptr + (n + 2) * 4096 \<le> 2 ^ 32" and "area = (ptr + PAGE_SIZE - 1) AND PAGE_MASK"
  shows "4096 dvd unat area" and "unat ptr \<le> unat area" and "unat area < unat ptr + 4096"
proof -
  have "unat (ptr + 4095) = unat ptr + 4095" using assms(1) by (subst unat_add_small) auto
  then have area: "unat area = 4096 * ((unat ptr + 4095) div 4096)"
    using unat_page_down [of "ptr + 4095"] assms(2) by (simp add: PAGE_SIZE_def add.commute)
  show "4096 dvd unat area" by (simp add: area)
  have "4096 * ((unat ptr + 4095) div 4096) + (unat ptr + 4095) mod 4096 = unat ptr + 4095"
    by (rule mult_div_mod_eq)
  moreover have "(unat ptr + 4095) mod 4096 < 4096" by simp
  ultimately show "unat ptr \<le> unat area" and "unat area < unat ptr + 4096" unfolding area by linarith+
qed

subsection \<open>The pattern\<close>

lemma apart4_words:
  assumes "i \<noteq> j" and "i < 2 ^ 29" and "j < 2 ^ 29"
  shows "apart4 (a + 4 * of_nat i) (a + 4 * of_nat j)"
proof -
  have dist: "4 \<le> unat (a + of_nat (4 * q) - (a + of_nat (4 * p)))" if "p \<noteq> q" "p < 2 ^ 29" "q < 2 ^ 29" for p q
    using that by (subst unat_offset_diff) auto
  then show ?thesis
    using dist [of i j] dist [of j i] assms by (simp add: apart4_def word_le_nat_alt)
qed

lemma load32_pattern_pair:
  assumes "i < 2 ^ 28" and "k < 2 ^ 27"
  shows "load32 (store_pattern_pair area k m) (area + 4 * of_nat i) =
    (if i div 2 = k then pattern_word i else load32 m (area + 4 * of_nat i))"
proof -
  have pair: "store_pattern_pair area k m =
      store32 (store32 m (area + 4 * of_nat (2 * k)) (pattern_word (2 * k)))
        (area + 4 * of_nat (Suc (2 * k))) (pattern_word (Suc (2 * k)))"
    by (simp add: store_pattern_pair_def pattern_word_def Let_def algebra_simps)
  consider "i = 2 * k" | "i = Suc (2 * k)" | "i div 2 \<noteq> k" by arith
  then show ?thesis
  proof cases
    case 1
    have "apart4 (area + 4 * of_nat (Suc (2 * k))) (area + 4 * of_nat (2 * k))"
      using assms by (intro apart4_words) auto
    with 1 show ?thesis unfolding pair by (simp only: load32_store32_other load32_store32_same) simp
  next
    case 2
    then show ?thesis unfolding pair by (simp only: load32_store32_same) simp
  next
    case 3
    then have "i \<noteq> Suc (2 * k)" and "i \<noteq> 2 * k" by auto
    then have "apart4 (area + 4 * of_nat (Suc (2 * k))) (area + 4 * of_nat i)"
      and "apart4 (area + 4 * of_nat (2 * k)) (area + 4 * of_nat i)"
      using assms by (intro apart4_words; simp)+
    with 3 show ?thesis unfolding pair by (simp only: load32_store32_other) simp
  qed
qed

lemma load32_pattern:
  assumes "n < 2 ^ 27" and "i < 2 * n"
  shows "load32 (fold (store_pattern_pair area) [0..<n] m) (area + 4 * of_nat i) = pattern_word i"
  using assms
proof (induction n)
  case (Suc n)
  then show ?case by (cases "i div 2 = n") (auto simp: load32_pattern_pair)
qed simp

lemma store32_outside:
  assumes "4 \<le> x - (a :: u32)"
  shows "store32 m a w x = m x"
proof -
  have "x \<noteq> a + d" if "d < 4" for d using assms that by auto
  from this [of 0] this [of 1] this [of 2] this [of 3] show ?thesis by (simp add: store32_def)
qed

lemma store_pattern_outside:
  assumes "n < 2 ^ 27" and "8 * n \<le> unat (x - area)"
  shows "fold (store_pattern_pair area) [0..<n] m x = m x"
  using assms
proof (induction n)
  case (Suc n)
  have far: "4 \<le> x - (area + 4 * of_nat j)" if "j \<le> Suc (2 * n)" for j
  proof -
    have "(4 * of_nat j :: u32) = of_nat (4 * j)" by simp
    then have uj: "unat (4 * of_nat j :: u32) = 4 * j" using that Suc.prems by (simp only: unat_of_nat) simp
    have "unat ((x - area) - 4 * of_nat j) = unat (x - area) - 4 * j"
      using that Suc.prems uj by (subst unat_sub) (auto simp: word_le_nat_alt)
    then have "unat (x - (area + 4 * of_nat j)) = unat (x - area) - 4 * j" by (simp only: diff_diff_eq)
    then show ?thesis using that Suc.prems by (simp add: word_le_nat_alt)
  qed
  have "store_pattern_pair area n m' x = m' x" for m'
    using far [of "2 * n"] far [of "Suc (2 * n)"]
    by (simp add: store_pattern_pair_def Let_def store32_outside algebra_simps)
  with Suc show ?case by simp
qed simp

subsection \<open>Loading the module\<close>

lemma aslam_init_ok:
  assumes "k_kmalloc k 3616768 = ptr" and "ptr \<noteq> 0" and "aslam_init k s = (ret, s1)"
  shows "dr_kmalloc_ptr s1 = ptr" "dr_kmalloc_area s1 = (ptr + PAGE_SIZE - 1) AND PAGE_MASK"
    "dr_bytes_in_memory s1 = 3608576" "ret = k_cdev_add k"
    "dr_mem s1 = fold (store_pattern_pair (dr_kmalloc_area s1)) [0..<451072] (dr_mem s)"
    "dr_log s1 = dr_log s @ (if k_alloc_chrdev_region k <s 0 then [Kfree ptr] else []) @ [CdevInit, CdevAdd] @
       (if ret <s 0 then [UnregisterChrdev, Kfree ptr] else []) @ [ClassCreate, DeviceCreate] @
       reserve_pages 881 (dr_kmalloc_area s1)"
proof -
  have size: "(visensor_npages + 2) * PAGE_SIZE = 3616768" "visensor_npages * PAGE_SIZE = 3608576"
    by (simp_all add: page_consts PAGE_SIZE_def)
  have s1: "(ret, s1) =
     (let area = (ptr + PAGE_SIZE - 1) AND PAGE_MASK in
      (k_cdev_add k, s\<lparr>dr_kmalloc_ptr := ptr, dr_kmalloc_area := area,
         dr_mem := store_pattern visensor_npages area (dr_mem s),
         dr_log := dr_log s @ (if k_alloc_chrdev_region k <s 0 then [Kfree ptr] else []) @ ([CdevInit, CdevAdd] @
           (if k_cdev_add k <s 0 then [UnregisterChrdev, Kfree ptr] else [])) @ [ClassCreate, DeviceCreate] @
           reserve_pages visensor_npages area, dr_bytes_in_memory := 3608576\<rparr>))"
    using assms unfolding aslam_init_def aslam_init_body_def by (auto simp: size Let_def)
  have pat: "store_pattern visensor_npages area m = fold (store_pattern_pair area) [0..<451072] m" for area m
    unfolding store_pattern_def size by (simp del: upt_rec_numeral)
  have np: "visensor_npages = 881" by (simp add: page_consts)
  show "dr_kmalloc_ptr s1 = ptr" "dr_kmalloc_area s1 = (ptr + PAGE_SIZE - 1) AND PAGE_MASK"
    "dr_bytes_in_memory s1 = 3608576" "ret = k_cdev_add k"
    using s1 by (simp_all add: Let_def)
  then show "dr_mem s1 = fold (store_pattern_pair (dr_kmalloc_area s1)) [0..<451072] (dr_mem s)"
    "dr_log s1 = dr_log s @ (if k_alloc_chrdev_region k <s 0 then [Kfree ptr] else []) @ [CdevInit, CdevAdd] @
       (if ret <s 0 then [UnregisterChrdev, Kfree ptr] else []) @ [ClassCreate, DeviceCreate] @
       reserve_pages 881 (dr_kmalloc_area s1)"
    using s1 by (simp_all add: Let_def pat [unfolded np] np del: upt_rec_numeral)
qed

lemma page_round_exact: "page_round 3608576 = 3608576"
  by (simp add: word_unat_eq_iff page_round_def PAGE_SIZE_def unat_page_down)

lemma read_int_le32 [simp]: "read_int old (le32 w) = w"
  by (simp add: read_int_def le32_def)

lemma aslam_vmem_loop_ok:
  assumes "\<And>a p n. \<not> k_remap_pfn_range k a p n <s 0"
  shows "aslam_vmem_loop k start ptr (int (n * 4096)) s =
    (0, s\<lparr>dr_log := dr_log s @
        map (\<lambda>i. RemapPfn (start + of_nat i * PAGE_SIZE) (k_vmalloc_to_pfn k (ptr + of_nat i * PAGE_SIZE)) PAGE_SIZE)
          [0..<n]\<rparr>)"
proof (induction n arbitrary: start ptr s)
  case (Suc n)
  have "int (Suc n * 4096) - 4096 = int (n * 4096)" by simp
  moreover have "[0..<Suc n] = 0 # map Suc [0..<n]" by (metis map_Suc_upt upt_conv_Cons zero_less_Suc)
  ultimately show ?case
    using assms by (subst aslam_vmem_loop.simps) (simp add: Suc.IH [unfolded of_nat_mult of_nat_numeral] Let_def algebra_simps comp_def del: upt_Suc)
qed (simp add: aslam_vmem_loop.simps)

subsection \<open>Properties\<close>

text \<open>C6: loading the camera server's driver. When the allocation of 883 pages succeeds, the memory area
  starts on a page boundary and its 881 pages lie inside the allocated block; every word of the area then
  holds the pattern the test application expects, and no byte outside the area was written.\<close>

theorem aslam_init_memory:
  assumes "k_kmalloc k 3616768 = ptr" and "ptr \<noteq> 0" and "unat ptr + 3616768 \<le> 2 ^ 32"
    and "aslam_init k s = (ret, s1)"
  shows "4096 dvd unat (dr_kmalloc_area s1) \<and> unat ptr \<le> unat (dr_kmalloc_area s1) \<and>
    unat (dr_kmalloc_area s1) + 3608576 \<le> unat ptr + 3616768 \<and> dr_bytes_in_memory s1 = 3608576 \<and>
    (\<forall>i < 902144. load32 (dr_mem s1) (dr_kmalloc_area s1 + 4 * of_nat i) = pattern_word i) \<and>
    (\<forall>x. unat x < unat (dr_kmalloc_area s1) \<or> unat (dr_kmalloc_area s1) + 3608576 \<le> unat x \<longrightarrow>
       dr_mem s1 x = dr_mem s x)"
proof -
  note init = aslam_init_ok [OF assms(1,2,4)]
  let ?a = "dr_kmalloc_area s1"
  have bounds: "4096 dvd unat ?a" "unat ptr \<le> unat ?a" "unat ?a < unat ptr + 4096"
    using page_up_bounds [of ptr 881 ?a] assms(3) init(2) by simp_all
  have "load32 (dr_mem s1) (?a + 4 * of_nat i) = pattern_word i" if "i < 902144" for i
    unfolding init(5) using that by (intro load32_pattern) auto
  moreover have "dr_mem s1 x = dr_mem s x" if "unat x < unat ?a \<or> unat ?a + 3608576 \<le> unat x" for x
  proof -
    have "3608576 \<le> unat (x - ?a)"
      using that bounds(3) assms(3) by (auto simp: unat_sub_if')
    then show ?thesis unfolding init(5) by (intro store_pattern_outside) auto
  qed
  ultimately show ?thesis using bounds assms(3) init(3) by auto
qed

theorem aslam_init_memory_witness:
  "load32 (dr_mem (snd (aslam_init demo_kernel demo_driver))) (0xC1001000 + 4 * of_nat 70001) = 0xBEF01170"
proof -
  obtain ret s1 where init: "aslam_init demo_kernel demo_driver = (ret, s1)" by fastforce
  have area: "dr_kmalloc_area s1 = 0xC1001000"
    using aslam_init_ok(2) [OF refl _ init]
    by (simp add: demo_kernel_def PAGE_MASK_def PAGE_SIZE_def)
  have kmalloc: "k_kmalloc demo_kernel 3616768 = 0xC1000040" by (simp add: demo_kernel_def)
  from aslam_init_memory [OF kmalloc _ _ init]
  have "\<forall>i < 902144. load32 (dr_mem s1) (0xC1001000 + 4 * of_nat i) = pattern_word i" by (simp add: area)
  from this [rule_format, of 70001] show ?thesis by (simp add: init pattern_word_def)
qed

text \<open>\<open>mmap\<close> of the driver never exposes memory beyond its area: it succeeds only at offset 0, for at
  most the 881 pages of the area, and only after exactly this range, starting at the area's first
  physical page, was handed to \<open>remap_pfn_range\<close>; on a refusal nothing is mapped.\<close>

theorem aslam_mmap_safe:
  "case aslam_mmap visensor_npages k vm_start vm_end pgoff s of (ret, s1) \<Rightarrow>
     (if pgoff = 0 \<and> unat (vm_end - vm_start) \<le> 3608576
      then dr_log s1 = dr_log s @
             [RemapPfn vm_start (drop_bit 12 (k_virt_to_phys k (dr_kmalloc_area s))) (vm_end - vm_start)] \<and>
           (ret = 0 \<longleftrightarrow> \<not> k_remap_pfn_range k vm_start (drop_bit 12 (k_virt_to_phys k (dr_kmalloc_area s)))
                              (vm_end - vm_start) <s 0)
      else ret = - EIO \<and> s1 = s)"
  by (auto simp: aslam_mmap_def aslam_kmem_def Let_def page_consts word_less_nat_alt not_less not_le)

text \<open>C29: the helper for memory that is not physically contiguous maps every page of the request, one after
  the other, each at its own place and with its own frame, and then returns 0.\<close>

theorem aslam_vmem_maps_all_pages:
  assumes "\<And>a p n. \<not> k_remap_pfn_range k a p n <s 0" and "n \<le> 881"
    and "vm_end = vm_start + of_nat (n * 4096)"
  shows "aslam_vmem visensor_npages k vm_start vm_end s =
    (0, s\<lparr>dr_log := dr_log s @
        map (\<lambda>i. RemapPfn (vm_start + of_nat i * PAGE_SIZE)
              (k_vmalloc_to_pfn k (dr_vmalloc_area s + of_nat i * PAGE_SIZE)) PAGE_SIZE) [0..<n]\<rparr>)"
proof -
  have un: "unat (of_nat (n * 4096) :: u32) = n * 4096" using assms(2) by (simp only: unat_of_nat) simp
  have "uint (of_nat (n * 4096) :: u32) = int (unat (of_nat (n * 4096) :: u32))" by (rule uint_nat)
  then have "sint (of_nat (n * 4096) :: u32) = int (n * 4096)"
    using assms(2) un by (subst sint_small) (simp_all del: of_nat_mult)
  moreover have "\<not> visensor_npages * PAGE_SIZE < of_nat (n * 4096)"
    using assms(2) un by (simp add: page_consts word_less_nat_alt del: of_nat_mult)
  ultimately show ?thesis
    using aslam_vmem_loop_ok [OF assms(1), of vm_start "dr_vmalloc_area s" n s] assms(3)
    by (simp add: aslam_vmem_def Let_def del: of_nat_mult)
qed

theorem aslam_vmem_maps_all_pages_witness:
  "aslam_vmem visensor_npages demo_kernel 0x40000000 0x40002000 demo_driver =
    (0, demo_driver\<lparr>dr_log := [RemapPfn 0x40000000 0 4096, RemapPfn 0x40001000 1 4096]\<rparr>)"
  using aslam_vmem_maps_all_pages [where k = demo_kernel and n = 2 and vm_start = "0x40000000" and s = demo_driver]
  by (simp add: demo_kernel_def demo_driver_def PAGE_SIZE_def upt_rec)

text \<open>C30: a failure to reserve the device number is not an error to \<open>aslam_init\<close>: the memory block is
  freed, the function goes on to write its pattern into the block and to register the device, and returns
  the result of \<open>cdev_add\<close>, so that the load succeeds; unloading frees the block a second time.\<close>

theorem aslam_init_uses_freed_block:
  assumes "k_kmalloc k 3616768 = ptr" and "ptr \<noteq> 0" and "k_alloc_chrdev_region k <s 0" and "k_cdev_add k = 0"
    and "aslam_init k s = (ret, s1)" and "dr_log s = []"
  shows "ret = 0 \<and> dr_log s1 ! 0 = Kfree ptr \<and> CdevAdd \<in> set (dr_log s1) \<and>
    dr_mem s1 = fold (store_pattern_pair (dr_kmalloc_area s1)) [0..<451072] (dr_mem s) \<and>
    count_list (dr_log (aslam_exit s1)) (Kfree ptr) = 2"
proof -
  note init = aslam_init_ok [OF assms(1,2,5)]
  have pages: "count_list (reserve_pages n a) (Kfree ptr) = 0" for n a
    by (rule count_notin) (auto simp: reserve_pages_def)
  show ?thesis
    using init assms(3,4,6)
    by (simp add: aslam_exit_def aslam_exit_body_def count_list_append pages del: upt_rec_numeral)
qed

theorem aslam_init_uses_freed_block_witness:
  "fst (aslam_init (demo_kernel\<lparr>k_alloc_chrdev_region := - 16\<rparr>) demo_driver) = 0 \<and>
   count_list (dr_log (aslam_exit (snd (aslam_init (demo_kernel\<lparr>k_alloc_chrdev_region := - 16\<rparr>) demo_driver))))
     (Kfree 0xC1000040) = 2"
proof -
  let ?k = "demo_kernel\<lparr>k_alloc_chrdev_region := - 16\<rparr>"
  obtain ret s1 where init: "aslam_init ?k demo_driver = (ret, s1)" by fastforce
  have kmalloc: "k_kmalloc ?k 3616768 = 0xC1000040" by (simp add: demo_kernel_def)
  have fails: "k_alloc_chrdev_region ?k <s 0" by (simp add: word_sless_alt)
  show ?thesis
    using aslam_init_uses_freed_block [OF kmalloc _ fails _ init] unfolding init
    by (simp add: demo_kernel_def demo_driver_def)
qed

text \<open>C7: driver and ring buffer fit together. A process that opens the device of a loaded driver gets a
  buffer of eight images whose size and physical address are those the driver reported, and every slot
  of the ring lies, in physical memory, inside the driver's area.\<close>

theorem ring_buffer_on_driver:
  assumes "k_kmalloc k 3616768 = ptr" and "ptr \<noteq> 0" and "aslam_init k s = (ret, s1)"
    and "\<And>a p n. \<not> k_remap_pfn_range k a p n <s 0" and "vm_start \<noteq> MAP_FAILED"
    and "unat (k_virt_to_phys k (dr_kmalloc_area s1)) + 3608576 \<le> 2 ^ 32"
  shows "\<exists>b. SharedRingBuffer_new (driver_os k vm_start s1) j1 j2 360960 8 regs = Ret b \<and> ring_wf b \<and>
    rb_allocated_memory_size b = 3608576 \<and> rb_mmap_start_address b = vm_start \<and>
    rb_buffer_pysical_address b = k_virt_to_phys k (dr_kmalloc_area s1) \<and>
    (\<forall>j < 8. unat (slot_address b j) = unat (k_virt_to_phys k (dr_kmalloc_area s1)) + 360960 * j \<and>
       unat (slot_address b j) + 360960 \<le> unat (k_virt_to_phys k (dr_kmalloc_area s1)) + 3608576)"
proof -
  let ?p = "k_virt_to_phys k (dr_kmalloc_area s1)"
  have alloc: "dr_bytes_in_memory s1 = 3608576" by (rule aslam_init_ok(3) [OF assms(1-3)])
  have mmap: "fst (aslam_mmap visensor_npages k vm_start (vm_start + 3608576) 0 s1) = 0"
    using assms(4) by (simp add: aslam_mmap_def aslam_kmem_def Let_def page_consts)
  let ?b = "\<lparr>rb_data_size = 360960, rb_length = 8, rb_position = 0, rb_allocated_memory_size = 3608576,
    rb_fpga_device = 3, rb_mmap_start_address = vm_start, rb_buffer_pysical_address = ?p, rb_registers = regs\<rparr>"
  have new: "SharedRingBuffer_new (driver_os k vm_start s1) j1 j2 360960 8 regs = Ret ?b"
    using assms(5) mmap
    by (simp add: SharedRingBuffer_new_def driver_os_def Let_def aslam_read_def alloc page_round_exact sless_small)
  have "unat (slot_address ?b j) = unat ?p + 360960 * j" if "j < 8" for j
  proof -
    have "360960 * of_nat j = (of_nat (360960 * j) :: u32)" by simp
    then have "unat (360960 * of_nat j :: u32) = 360960 * j" using that by (simp only: unat_of_nat) simp
    then show ?thesis using that assms(6) by (simp add: slot_address_def unat_add_small)
  qed
  then show ?thesis using new by (auto simp: ring_wf_def)
qed

theorem ring_buffer_on_driver_witness:
  "\<exists>b. SharedRingBuffer_new (driver_os demo_kernel 0x50000000 (snd (aslam_init demo_kernel demo_driver)))
        0 0 360960 8 demo_regs = Ret b \<and>
     rb_buffer_pysical_address b = 0x01001000 \<and> unat (slot_address b 7) = 0x01001000 + 360960 * 7"
proof -
  obtain ret s1 where init: "aslam_init demo_kernel demo_driver = (ret, s1)" by fastforce
  have kmalloc: "k_kmalloc demo_kernel 3616768 = 0xC1000040" by (simp add: demo_kernel_def)
  have "dr_kmalloc_area s1 = 0xC1001000"
    using aslam_init_ok(2) [OF kmalloc _ init] by (simp add: PAGE_MASK_def PAGE_SIZE_def)
  then have phys: "k_virt_to_phys demo_kernel (dr_kmalloc_area s1) = 0x01001000" by (simp add: demo_kernel_def)
  have remap: "\<not> k_remap_pfn_range demo_kernel a p n <s 0" for a p n by (simp add: demo_kernel_def)
  have "(0x50000000 :: u32) \<noteq> MAP_FAILED" by (simp add: MAP_FAILED_def)
  from ring_buffer_on_driver [OF kmalloc _ init remap this, of 0 0 demo_regs]
  obtain b where "SharedRingBuffer_new (driver_os demo_kernel 0x50000000 s1) 0 0 360960 8 demo_regs = Ret b"
    "rb_buffer_pysical_address b = 0x01001000" "\<forall>j < 8. unat (slot_address b j) = 0x01001000 + 360960 * j"
    by (auto simp: phys)
  then show ?thesis unfolding init by auto
qed

text \<open>\<open>read\<close> of the older driver tests the pointer to the file position instead of the position: every
  call that the kernel makes (with a pointer that is not null) fails with \<open>EIO\<close>, whatever the position
  and the count.\<close>

lemma allocator_read_always_fails:
  "f_pos \<noteq> 0 \<Longrightarrow> allocator_aslam_read stack f_pos count s = (- EIO, [])"
  by (simp add: allocator_aslam_read_def)

text \<open>the one-byte device returns what was written last: after any sequence of writes that is not empty,
  a read at the start of the file gives the last byte of the last one and moves the position, and the next
  read reports the end of the file.\<close>

theorem char_device_reads_last_byte:
  assumes "ws \<noteq> []"
  shows "case fold (\<lambda>(m, buf, count) c. snd (memory_write m buf count c)) ws c of c1 \<Rightarrow>
    (case last ws of (m, buf, count) \<Rightarrow>
       memory_read 0 c1 = (1, 1, Some (m (buf + count - 1))) \<and> fst (memory_read 1 c1) = 0)"
  using assms by (cases ws rule: rev_cases) (auto simp: memory_write_def memory_read_def split: prod.splits)

theorem char_device_reads_last_byte_witness:
  "memory_read 0 (fold (\<lambda>(m, buf, count) c. snd (memory_write m buf count c))
      [(\<lambda>a. ucast a, 16, 1), (\<lambda>a. ucast a, 32, 4)] \<lparr>cd_memory_buffer = Some 0, cd_registered = True\<rparr>) =
   (1, 1, Some 35)"
  using char_device_reads_last_byte
    [of "[(\<lambda>a. ucast a, 16, 1), (\<lambda>a. ucast a, 32, 4)]" "\<lparr>cd_memory_buffer = Some 0, cd_registered = True\<rparr>"]
  by simp

end
