(* ===== verification/DriverSystem.thy ===== *)
theory DriverSystem
  imports Driver Transitions
begin

text \<open>
  The life of the two kernel modules of \<open>Driver\<close>: their tables of functions (\<open>aslam_fops\<close>, \<open>module_init\<close> and
  \<open>module_exit\<close> of visensor.c and memory_allocator.c) and what the kernel and the processes do with them. A module is loaded,
  its device is opened, read, mapped, unmapped and closed any number of times, and it is unloaded when nothing refers to it
  (\<open>owner\<close> is the module). The locale \<open>memory_module\<close> states what the table of a module promises and proves what follows
  for every history; it is interpreted on both modules.
\<close>

subsection \<open>The tables\<close>

record file_operations =
  fo_open :: u32
  fo_release :: u32
  fo_mmap :: "kernel \<Rightarrow> u32 \<Rightarrow> u32 \<Rightarrow> u32 \<Rightarrow> driver \<Rightarrow> u32 \<times> driver"
  fo_read :: "kernel \<Rightarrow> u32 \<Rightarrow> u32 \<Rightarrow> driver \<Rightarrow> u32 \<times> byte list"

definition aslam_fops :: file_operations where
  "aslam_fops = \<lparr>fo_open = aslam_open, fo_release = aslam_release, fo_mmap = aslam_mmap visensor_npages,
     fo_read = (\<lambda>k f_pos count s. aslam_read k count s)\<rparr>"

text \<open>The older module; \<open>stack\<close> are the bytes its \<open>read\<close> takes from the stack.\<close>

definition allocator_aslam_fops :: "byte list \<Rightarrow> file_operations" where
  "allocator_aslam_fops stack = \<lparr>fo_open = aslam_open, fo_release = aslam_release, fo_mmap = allocator_aslam_mmap,
     fo_read = (\<lambda>k f_pos count s. allocator_aslam_read stack f_pos count s)\<rparr>"

record kmodule =
  km_init :: "kernel \<Rightarrow> driver \<Rightarrow> u32 \<times> driver"
  km_exit :: "driver \<Rightarrow> driver"
  km_fops :: file_operations

definition visensor_module :: kmodule where
  "visensor_module = \<lparr>km_init = aslam_init, km_exit = aslam_exit, km_fops = aslam_fops\<rparr>"

definition allocator_module :: "byte list \<Rightarrow> kmodule" where
  "allocator_module stack =
     \<lparr>km_init = allocator_aslam_init, km_exit = allocator_aslam_exit, km_fops = allocator_aslam_fops stack\<rparr>"

subsection \<open>The steps\<close>

text \<open>The frees and the mappings in a list of events.\<close>

fun freed :: "kevent list \<Rightarrow> u32 list" where
  "freed [] = []"
| "freed (Kfree p # es) = p # freed es"
| "freed (_ # es) = freed es"

fun remapped :: "kevent list \<Rightarrow> (u32 \<times> u32 \<times> u32) list" where
  "remapped [] = []"
| "remapped (RemapPfn a pfn len # es) = (a, pfn, len) # remapped es"
| "remapped (_ # es) = remapped es"

text \<open>The descriptors that are open, the mappings that exist (address, frame, length) and, for the statements only, the
  blocks that \<open>kmalloc\<close> has given to the module, each with whether \<open>alloc_chrdev_region\<close> failed in that load.\<close>

record module_sys =
  ms_driver :: driver
  ms_loaded :: bool
  ms_open :: nat
  ms_maps :: "(u32 \<times> u32 \<times> u32) list"
  ms_blocks :: "(u32 \<times> bool) list"

definition module_sys_init :: "driver \<Rightarrow> module_sys" where
  "module_sys_init s = \<lparr>ms_driver = s, ms_loaded = False, ms_open = 0, ms_maps = [], ms_blocks = []\<rparr>"

text \<open>Every call meets a kernel that answers as it likes within \<open>K\<close>. The kernel takes back a load or a mapping that the
  module refuses; a mapping holds a reference as an open descriptor does.\<close>

inductive module_step :: "kmodule \<Rightarrow> (kernel \<Rightarrow> bool) \<Rightarrow> module_sys \<Rightarrow> module_sys \<Rightarrow> bool" for M K where
  load: "\<not> ms_loaded c \<Longrightarrow> K k \<Longrightarrow> km_init M k (ms_driver c) = (ret, s) \<Longrightarrow>
    module_step M K c (c\<lparr>ms_driver := s, ms_loaded := \<not> ret <s 0,
      ms_blocks := ms_blocks c @
        (if dr_kmalloc_ptr s = 0 then [] else [(dr_kmalloc_ptr s, k_alloc_chrdev_region k <s 0)])\<rparr>)"
| open_dev: "ms_loaded c \<Longrightarrow> fo_open (km_fops M) = 0 \<Longrightarrow> module_step M K c (c\<lparr>ms_open := ms_open c + 1\<rparr>)"
| read_dev: "ms_open c > 0 \<Longrightarrow> K k \<Longrightarrow> fo_read (km_fops M) k f_pos count (ms_driver c) = (ret, bytes) \<Longrightarrow> module_step M K c c"
| mmap_dev: "ms_open c > 0 \<Longrightarrow> K k \<Longrightarrow>
    fo_mmap (km_fops M) k vm_start vm_end pgoff (ms_driver c) = (ret, s) \<Longrightarrow>
    module_step M K c (c\<lparr>ms_driver := s, ms_maps := ms_maps c @
      (if ret <s 0 then [] else remapped (drop (length (dr_log (ms_driver c))) (dr_log s)))\<rparr>)"
| munmap_dev: "i < length (ms_maps c) \<Longrightarrow>
    module_step M K c (c\<lparr>ms_maps := take i (ms_maps c) @ drop (Suc i) (ms_maps c)\<rparr>)"
| close_dev: "ms_open c > 0 \<Longrightarrow> module_step M K c (c\<lparr>ms_open := ms_open c - 1\<rparr>)"
| unload: "ms_loaded c \<Longrightarrow> ms_open c = 0 \<Longrightarrow> ms_maps c = [] \<Longrightarrow>
    module_step M K c (c\<lparr>ms_driver := km_exit M (ms_driver c), ms_loaded := False\<rparr>)"

text \<open>The kernel of the documentation: the memory of \<open>kmalloc\<close> lies in the linear mapping that starts at the page \<open>off\<close>
  and does not go past the end of the address space. Any of its calls may fail.\<close>

definition linear_kernel :: "u32 \<Rightarrow> kernel \<Rightarrow> bool" where
  "linear_kernel off k \<longleftrightarrow> (\<forall>a. k_virt_to_phys k a = a - off) \<and>
     (\<forall>n. k_kmalloc k n \<noteq> 0 \<longrightarrow> off \<le> k_kmalloc k n \<and> unat (k_kmalloc k n) + unat n \<le> 2 ^ 32)"

abbreviation module_reach :: "kmodule \<Rightarrow> u32 \<Rightarrow> module_sys \<Rightarrow> bool" where
  "module_reach M off \<equiv> reachable (\<lambda>c. \<exists>s. dr_log s = [] \<and> c = module_sys_init s) (module_step M (linear_kernel off))"

definition demo_linear_kernel :: kernel where
  "demo_linear_kernel = demo_kernel\<lparr>k_kmalloc := (\<lambda>n. if n \<le> 3616768 then 0xC1000040 else 0)\<rparr>"

text \<open>A range of physical memory inside a block of \<open>n + 2\<close> pages at the virtual address \<open>p\<close>, from a frame on.\<close>

definition frames_inside :: "u32 \<Rightarrow> nat \<Rightarrow> u32 \<Rightarrow> u32 \<times> u32 \<times> u32 \<Rightarrow> bool" where
  "frames_inside off n p = (\<lambda>(a, pfn, len). unat (p - off) \<le> 4096 * unat pfn \<and>
     4096 * unat pfn + unat len \<le> unat (p - off) + (n + 2) * 4096)"

text \<open>The frees that a list of blocks has had when the module is unloaded, and while it is loaded with the last of them: one
  for each block, and one more where the region could not be allocated, since \<open>aslam_init\<close> frees the block then and goes
  on.\<close>

fun frees :: "(u32 \<times> bool) list \<Rightarrow> u32 list" where
  "frees [] = []"
| "frees ((p, failed) # bs) = (if failed then [p, p] else [p]) @ frees bs"

fun frees_loaded :: "(u32 \<times> bool) list \<Rightarrow> u32 list" where
  "frees_loaded [] = []"
| "frees_loaded [(p, failed)] = (if failed then [p] else [])"
| "frees_loaded ((p, failed) # bs) = (if failed then [p, p] else [p]) @ frees_loaded bs"

subsection \<open>Events\<close>

lemma frees_append [simp]: "frees (bs @ cs) = frees bs @ frees cs"
  by (induction bs rule: frees.induct) auto

lemma frees_loaded_append [simp]: "frees_loaded (bs @ [(p, failed)]) = frees bs @ (if failed then [p] else [])"
proof (induction bs rule: frees.induct)
  case (2 q f bs)
  then show ?case by (cases bs) auto
qed simp

lemma freed_append [simp]: "freed (es @ fs) = freed es @ freed fs"
  by (induction es rule: freed.induct) auto

lemma remapped_append [simp]: "remapped (es @ fs) = remapped es @ remapped fs"
  by (induction es rule: remapped.induct) auto

lemma reserved_silent:
  "freed (map (\<lambda>i. SetPageReserved (f i)) is) = []" "remapped (map (\<lambda>i. SetPageReserved (f i)) is) = []"
  by (induction "is") auto

lemma reserve_pages_silent [simp]: "freed (reserve_pages n a) = []" "remapped (reserve_pages n a) = []"
  unfolding reserve_pages_def by (rule reserved_silent)+

subsection \<open>What a module promises\<close>

locale memory_module =
  fixes M :: kmodule and npages :: u32
  assumes page_count: "unat npages + 2 < 2 ^ 20"
    and init_no_memory: "k_kmalloc k ((npages + 2) * PAGE_SIZE) = 0 \<Longrightarrow>
      km_init M k s = (- ENOMEM, s\<lparr>dr_kmalloc_ptr := 0\<rparr>)"
    and init_loads: "k_kmalloc k ((npages + 2) * PAGE_SIZE) \<noteq> 0 \<Longrightarrow> km_init M k s = (ret, s1) \<Longrightarrow>
      dr_kmalloc_ptr s1 = k_kmalloc k ((npages + 2) * PAGE_SIZE) \<and>
      dr_kmalloc_area s1 = (dr_kmalloc_ptr s1 + PAGE_SIZE - 1) AND PAGE_MASK \<and>
      freed (dr_log s1) = freed (dr_log s) @ (if k_alloc_chrdev_region k <s 0 then [dr_kmalloc_ptr s1] else []) @
        (if ret <s 0 then [dr_kmalloc_ptr s1] else [])"
    and mmap_inside: "fo_mmap (km_fops M) k a b pgoff s = (ret, s1) \<Longrightarrow>
      dr_kmalloc_ptr s1 = dr_kmalloc_ptr s \<and> dr_kmalloc_area s1 = dr_kmalloc_area s \<and>
      freed (dr_log s1) = freed (dr_log s) \<and>
      (\<not> ret <s 0 \<longrightarrow> b - a \<le> npages * PAGE_SIZE \<and>
         dr_log s1 = dr_log s @ [RemapPfn a (drop_bit 12 (k_virt_to_phys k (dr_kmalloc_area s))) (b - a)])"
    and exit_frees: "freed (dr_log (km_exit M s)) = freed (dr_log s) @ [dr_kmalloc_ptr s]"

text \<open>While the module is loaded its last block is still to be freed by the unload, and every mapping begins at the first
  frame of the area in it; otherwise nothing refers to the module.\<close>

definition module_inv :: "u32 \<Rightarrow> u32 \<Rightarrow> module_sys \<Rightarrow> bool" where
  "module_inv off npages c \<longleftrightarrow>
     (let s = ms_driver c; p = dr_kmalloc_ptr s in
      if ms_loaded c
      then (\<exists>bs failed. ms_blocks c = bs @ [(p, failed)]) \<and> freed (dr_log s) = frees_loaded (ms_blocks c) \<and> off \<le> p \<and> unat p + (unat npages + 2) * 4096 \<le> 2 ^ 32 \<and>
        dr_kmalloc_area s = (p + PAGE_SIZE - 1) AND PAGE_MASK \<and>
        set (ms_maps c) \<subseteq> {(a, pfn, len). pfn = drop_bit 12 (dr_kmalloc_area s - off) \<and> unat len \<le> unat npages * 4096}
      else freed (dr_log s) = frees (ms_blocks c) \<and> ms_open c = 0 \<and> ms_maps c = [])"

text \<open>The area of the invariant, from its first frame on, lies inside the block.\<close>

lemma area_inside:
  assumes "unat p + (n + 2) * 4096 \<le> 2 ^ 32" and "off \<le> p" and "4096 dvd unat off"
    and "area = (p + PAGE_SIZE - 1) AND PAGE_MASK" and "unat len \<le> n * 4096"
  shows "frames_inside off n p (a, drop_bit 12 (area - off), len)"
proof -
  note up = page_up_bounds [OF assms(1,4)]
  have le: "unat off \<le> unat p" using assms(2) by (simp add: word_le_nat_alt)
  from this up(2) have diff: "unat (area - off) = unat area - unat off" "unat (p - off) = unat p - unat off" "unat off \<le> unat area"
    by (simp_all add: unat_sub word_le_nat_alt)
  have "4096 dvd unat (area - off)" using up(1) assms(3) diff by (simp add: dvd_diff_nat)
  then have frame: "4096 * unat (drop_bit 12 (area - off)) = unat (area - off)"
    by (simp add: drop_bit_eq_div unat_div_distrib)
  show ?thesis using frame le up(2,3) diff assms(5) by (simp add: frames_inside_def) linarith
qed

lemma inv_fewer_maps:
  assumes "module_inv off npages c" and "set maps \<subseteq> set (ms_maps c)"
  shows "module_inv off npages (c\<lparr>ms_maps := maps\<rparr>)"
proof (cases "ms_loaded c")
  case True
  then show ?thesis
    using assms(1) subsetD [OF assms(2)] by (fastforce simp: module_inv_def Let_def)
qed (use assms in \<open>simp add: module_inv_def Let_def\<close>)

context memory_module
begin

lemma block_size: "unat ((npages + 2) * PAGE_SIZE) = (unat npages + 2) * 4096" "unat (npages * PAGE_SIZE) = unat npages * 4096"
proof -
  have "npages + 2 = of_nat (unat npages + 2)" by simp
  then have "(npages + 2) * PAGE_SIZE = of_nat ((unat npages + 2) * 4096)"
    by (simp only: PAGE_SIZE_def of_nat_mult of_nat_numeral)
  then show "unat ((npages + 2) * PAGE_SIZE) = (unat npages + 2) * 4096"
    using page_count by (simp only: unat_of_nat) simp
  have "npages * PAGE_SIZE = of_nat (unat npages * 4096)" by (simp add: PAGE_SIZE_def)
  then show "unat (npages * PAGE_SIZE) = unat npages * 4096" using page_count by (simp only: unat_of_nat) simp
qed

lemma load_keeps:
  assumes "module_inv off npages c" and "\<not> ms_loaded c" and "linear_kernel off k"
    and "km_init M k (ms_driver c) = (ret, s)"
  shows "module_inv off npages (c\<lparr>ms_driver := s, ms_loaded := \<not> ret <s 0,
    ms_blocks := ms_blocks c @
      (if dr_kmalloc_ptr s = 0 then [] else [(dr_kmalloc_ptr s, k_alloc_chrdev_region k <s 0)])\<rparr>)"
proof (cases "k_kmalloc k ((npages + 2) * PAGE_SIZE) = 0")
  case True
  have "- ENOMEM <s 0" by (simp add: ENOMEM_def word_sless_alt)
  then show ?thesis using assms init_no_memory [OF True, of "ms_driver c"] by (auto simp: module_inv_def Let_def)
next
  case False
  have k: "off \<le> k_kmalloc k ((npages + 2) * PAGE_SIZE)"
    "unat (k_kmalloc k ((npages + 2) * PAGE_SIZE)) + (unat npages + 2) * 4096 \<le> 2 ^ 32"
    using assms(3) False block_size(1) unfolding linear_kernel_def by metis+
  from init_loads [OF False assms(4)] show ?thesis
    using assms(1,2) False k by (simp add: module_inv_def Let_def)
qed

lemma mmap_keeps:
  assumes "module_inv off npages c" and "ms_open c > 0" and "linear_kernel off k"
    and "fo_mmap (km_fops M) k a b pgoff (ms_driver c) = (ret, s)"
  shows "module_inv off npages (c\<lparr>ms_driver := s, ms_maps := ms_maps c @
    (if ret <s 0 then [] else remapped (drop (length (dr_log (ms_driver c))) (dr_log s)))\<rparr>)"
  using assms(1,2) mmap_inside [OF assms(4)] assms(3) block_size(2)
  by (auto simp: module_inv_def Let_def linear_kernel_def word_le_nat_alt split: if_splits)

lemma inv_module_step:
  assumes "module_step M (linear_kernel off) c c'" and "module_inv off npages c"
  shows "module_inv off npages c'"
  using assms(1)
proof cases
  case (load k ret s)
  then show ?thesis using load_keeps [OF assms(2)] by simp
next
  case (mmap_dev k a b pgoff ret s)
  then show ?thesis using mmap_keeps [OF assms(2)] by simp
next
  case (munmap_dev i)
  have "set (take i (ms_maps c) @ drop (Suc i) (ms_maps c)) \<subseteq> set (ms_maps c)"
    by (auto dest: in_set_takeD in_set_dropD)
  from inv_fewer_maps [OF assms(2) this] show ?thesis using munmap_dev by simp
next
  case unload
  then show ?thesis using assms(2) exit_frees [of "ms_driver c"] by (auto simp: module_inv_def Let_def)
qed (use assms(2) in \<open>auto simp: module_inv_def Let_def split: if_splits\<close>)

end

sublocale memory_module \<subseteq> life: invariant_system "\<lambda>c. \<exists>s. dr_log s = [] \<and> c = module_sys_init s"
  "module_step M (linear_kernel off)" "module_inv off npages" for off
proof unfold_locales
  show "module_inv off npages c" if "\<exists>s. dr_log s = [] \<and> c = module_sys_init s" for c
    using that by (auto simp: module_inv_def module_sys_init_def)
qed (rule inv_module_step)

context memory_module
begin

text \<open>In every reachable state the mappings lie inside the block that the module was given last, and the frees are known.\<close>

lemma memory_safe:
  assumes "module_reach M off c" and "4096 dvd unat off"
  shows "(\<forall>x \<in> set (ms_maps c). ms_loaded c \<and> frames_inside off (unat npages) (dr_kmalloc_ptr (ms_driver c)) x) \<and>
    (ms_loaded c \<longrightarrow> (\<exists>bs failed. ms_blocks c = bs @ [(dr_kmalloc_ptr (ms_driver c), failed)])) \<and>
    freed (dr_log (ms_driver c)) = (if ms_loaded c then frees_loaded (ms_blocks c) else frees (ms_blocks c))"
proof -
  have inv: "module_inv off npages c" using assms(1) by (rule life.reach_inv)
  have "frames_inside off (unat npages) (dr_kmalloc_ptr (ms_driver c)) (a, pfn, len)"
    if "ms_loaded c" and "(a, pfn, len) \<in> set (ms_maps c)" for a pfn len
    using inv that area_inside [OF _ _ assms(2) refl, of "dr_kmalloc_ptr (ms_driver c)" "unat npages" len a]
    by (auto simp: module_inv_def Let_def)
  then show ?thesis using inv by (auto simp: module_inv_def Let_def split: if_splits)
qed

end

subsection \<open>Both modules\<close>

lemma aslam_init_body_cases:
  assumes "aslam_init_body npages k s = (ret, s1)"
  shows "if k_kmalloc k ((npages + 2) * PAGE_SIZE) = 0 then ret = - ENOMEM \<and> s1 = s\<lparr>dr_kmalloc_ptr := 0\<rparr>
    else ret = k_cdev_add k \<and> dr_kmalloc_ptr s1 = k_kmalloc k ((npages + 2) * PAGE_SIZE) \<and>
      dr_kmalloc_area s1 = (dr_kmalloc_ptr s1 + PAGE_SIZE - 1) AND PAGE_MASK \<and>
      freed (dr_log s1) = freed (dr_log s) @ (if k_alloc_chrdev_region k <s 0 then [dr_kmalloc_ptr s1] else []) @
        (if ret <s 0 then [dr_kmalloc_ptr s1] else [])"
  using assms by (auto simp: aslam_init_body_def Let_def split: if_splits)

lemma aslam_mmap_cases:
  assumes "aslam_mmap npages k a b pgoff s = (ret, s1)"
  shows "dr_kmalloc_ptr s1 = dr_kmalloc_ptr s \<and> dr_kmalloc_area s1 = dr_kmalloc_area s \<and>
    freed (dr_log s1) = freed (dr_log s) \<and>
    (\<not> ret <s 0 \<longrightarrow> b - a \<le> npages * PAGE_SIZE \<and>
       dr_log s1 = dr_log s @ [RemapPfn a (drop_bit 12 (k_virt_to_phys k (dr_kmalloc_area s))) (b - a)])"
proof -
  have "- EIO <s 0" by (simp add: EIO_def word_sless_alt)
  then show ?thesis using assms by (auto simp: aslam_mmap_def aslam_kmem_def Let_def not_less split: if_splits)
qed

lemma aslam_exit_body_frees: "freed (dr_log (aslam_exit_body npages s)) = freed (dr_log s) @ [dr_kmalloc_ptr s]"
  by (simp add: aslam_exit_body_def)

interpretation visensor_mod: memory_module visensor_module visensor_npages
proof unfold_locales
  fix k :: kernel and s ret s1
  let ?p = "k_kmalloc k ((visensor_npages + 2) * PAGE_SIZE)"
  obtain r0 s0 where body: "aslam_init_body visensor_npages k s = (r0, s0)" by fastforce
  note cases = aslam_init_body_cases [OF this]
  show "km_init visensor_module k s = (- ENOMEM, s\<lparr>dr_kmalloc_ptr := 0\<rparr>)" if "?p = 0"
    using that cases body by (simp add: visensor_module_def aslam_init_def)
  show "dr_kmalloc_ptr s1 = ?p \<and> dr_kmalloc_area s1 = (dr_kmalloc_ptr s1 + PAGE_SIZE - 1) AND PAGE_MASK \<and>
      freed (dr_log s1) = freed (dr_log s) @ (if k_alloc_chrdev_region k <s 0 then [dr_kmalloc_ptr s1] else []) @
        (if ret <s 0 then [dr_kmalloc_ptr s1] else [])"
    if "?p \<noteq> 0" "km_init visensor_module k s = (ret, s1)"
    using that cases body by (auto simp: visensor_module_def aslam_init_def)
qed (auto simp: visensor_module_def aslam_fops_def aslam_exit_def aslam_exit_body_frees page_consts dest: aslam_mmap_cases)

interpretation allocator_mod: memory_module "allocator_module stack" allocator_npages for stack
proof unfold_locales
  fix k :: kernel and s ret s1
  note defs = allocator_module_def allocator_aslam_init_def
  let ?p = "k_kmalloc k ((allocator_npages + 2) * PAGE_SIZE)"
  obtain r0 s0 where body: "aslam_init_body allocator_npages k s = (r0, s0)" by fastforce
  note cases = aslam_init_body_cases [OF this]
  show "km_init (allocator_module stack) k s = (- ENOMEM, s\<lparr>dr_kmalloc_ptr := 0\<rparr>)" if "?p = 0"
    using that cases body by (simp add: defs)
  show "dr_kmalloc_ptr s1 = ?p \<and> dr_kmalloc_area s1 = (dr_kmalloc_ptr s1 + PAGE_SIZE - 1) AND PAGE_MASK \<and>
      freed (dr_log s1) = freed (dr_log s) @ (if k_alloc_chrdev_region k <s 0 then [dr_kmalloc_ptr s1] else []) @
        (if ret <s 0 then [dr_kmalloc_ptr s1] else [])"
    if "?p \<noteq> 0" "km_init (allocator_module stack) k s = (ret, s1)"
    using that cases body by (auto simp: defs)
qed (auto simp: allocator_module_def allocator_aslam_fops_def allocator_aslam_mmap_def allocator_aslam_exit_def
    aslam_exit_body_frees page_consts dest: aslam_mmap_cases)

subsection \<open>Properties\<close>

text \<open>C8: memory safety of both modules, in every history of loads, opens, reads, mappings and unloads on a kernel whose
  \<open>kmalloc\<close> gives blocks of the linear mapping and in which any call may fail: every mapping that exists belongs to a loaded
  module and lies, in physical memory, inside the block that load was given; and the frees are exactly these: a block whose
  load could allocate the character device region is freed once, by the unload or by the failing \<open>cdev_add\<close>, and not
  while the module is loaded; a block whose load could not is freed twice, and already when the module is loaded.\<close>

theorem modules_memory_safe:
  assumes "module_reach M off c" and "4096 dvd unat off"
    and "(M, n) \<in> {(visensor_module, 881), (allocator_module stack, 264)}"
  shows "(\<forall>x \<in> set (ms_maps c). ms_loaded c \<and> frames_inside off n (dr_kmalloc_ptr (ms_driver c)) x) \<and>
    (ms_loaded c \<longrightarrow> (\<exists>bs failed. ms_blocks c = bs @ [(dr_kmalloc_ptr (ms_driver c), failed)])) \<and>
    freed (dr_log (ms_driver c)) = (if ms_loaded c then frees_loaded (ms_blocks c) else frees (ms_blocks c))"
proof -
  from assms(3) consider "M = visensor_module" "n = 881" | "M = allocator_module stack" "n = 264" by auto
  then show ?thesis
  proof cases
    case 1
    then show ?thesis using visensor_mod.memory_safe [OF _ assms(2)] assms(1) by (simp add: page_consts)
  next
    case 2
    then show ?thesis using allocator_mod.memory_safe [OF _ assms(2)] assms(1) by (simp add: page_consts)
  qed
qed

text \<open>A history with a mapping: the module is loaded, opened and two pages are mapped.\<close>

theorem modules_memory_safe_witness:
  "\<exists>c. module_reach visensor_module 0xC0000000 c \<and> ms_maps c = [(0x40000000, 0x1001, 8192)] \<and> ms_loaded c \<and>
     frames_inside 0xC0000000 881 (dr_kmalloc_ptr (ms_driver c)) (0x40000000, 0x1001, 8192) \<and>
     freed (dr_log (ms_driver c)) = []"
proof -
  let ?K = "linear_kernel 0xC0000000" and ?k = demo_linear_kernel and ?M = visensor_module
  have K: "?K ?k" by (simp add: linear_kernel_def demo_linear_kernel_def demo_kernel_def word_le_nat_alt)
  obtain ret s where init: "aslam_init ?k demo_driver = (ret, s)" by fastforce
  have kmalloc: "k_kmalloc ?k 3616768 = 0xC1000040" by (simp add: demo_linear_kernel_def)
  note loaded = aslam_init_ok [OF kmalloc _ init]
  have area: "dr_kmalloc_area s = 0xC1001000" using loaded(2) by (simp add: PAGE_MASK_def PAGE_SIZE_def)
  let ?c = "\<lparr>ms_driver = s, ms_loaded = True, ms_open = 0, ms_maps = [], ms_blocks = [(0xC1000040, False)]\<rparr>"
  have "module_reach ?M 0xC0000000 (module_sys_init demo_driver)"
    by (rule reach_init, rule exI [of _ demo_driver]) (simp add: demo_driver_def)
  from reach_step [OF this module_step.load [where K = ?K and k = ?k and ret = ret and s = s, OF _ K]] have "module_reach ?M 0xC0000000 ?c"
    using init loaded(1,4) by (simp add: module_sys_init_def visensor_module_def demo_linear_kernel_def demo_kernel_def)
  from reach_step [OF this module_step.open_dev] have opened: "module_reach ?M 0xC0000000 (?c\<lparr>ms_open := 1\<rparr>)"
    by (simp add: visensor_module_def aslam_fops_def aslam_open_def)
  let ?s = "s\<lparr>dr_log := dr_log s @ [RemapPfn 0x40000000 0x1001 8192]\<rparr>"
  let ?d = "?c\<lparr>ms_open := 1, ms_driver := ?s, ms_maps := [(0x40000000, 0x1001, 8192)]\<rparr>"
  have "aslam_mmap visensor_npages ?k 0x40000000 0x40002000 0 s = (0, ?s)"
    by (simp add: aslam_mmap_def aslam_kmem_def Let_def page_consts area demo_linear_kernel_def demo_kernel_def)
  then have "module_step ?M ?K (?c\<lparr>ms_open := 1\<rparr>) ?d"
    using module_step.mmap_dev [where K = ?K and k = ?k and c = "?c\<lparr>ms_open := 1\<rparr>" and M = ?M and ret = 0 and s = ?s and
        vm_start = "0x40000000" and vm_end = "0x40002000" and pgoff = 0, OF _ K]
    by (simp add: visensor_module_def aslam_fops_def)
  with opened have "module_reach ?M 0xC0000000 ?d" by (rule reach_step)
  from modules_memory_safe [OF this, of 881 "[]"] this show ?thesis by (intro exI [of _ ?d]) auto
qed

end
