(* ===== verification/I2cRaw.thy ===== *)
theory I2cRaw
  imports Mmio
begin

text \<open>
  The camera's control bus: \<open>I2CBusRaw\<close> (xilinx/visensor-srv/src/I2CBusRaw.h, I2CBusRaw.cpp),
  which drives the Xilinx AXI IIC controller through its registers. The controller is the
  \<open>mmio\<close> parameter, so every theorem holds for any behaviour of the hardware; what the code
  does is stated over the trace of accesses. Each \<open>for\<close> loop that polls the status register
  is \<open>i2c_wait\<close>.
\<close>

subsection \<open>Definitions\<close>

definition LOWBYTE :: "u16 \<Rightarrow> byte" where
  "LOWBYTE v = ucast v"

definition HIGHBYTE :: "u16 \<Rightarrow> byte" where
  "HIGHBYTE v = ucast (drop_bit 8 (scast v :: u32))"

record I2CBusRaw =
  i2c_mem :: DevMem
  deviceAddress :: byte

definition I2CBusRaw_new :: "os \<Rightarrow> 'd mmio \<Rightarrow> 'd \<Rightarrow> (I2CBusRaw \<times> 'd) outcome" where
  "I2CBusRaw_new os mm d =
     bind_outcome (DevMem_new os 0x41600000 256) (\<lambda>m.
       let d1 = DevMem_write_word mm m 0x040 0xa d;
           d2 = DevMem_write_word mm m 0x120 0x0F d1;
           d3 = DevMem_write_word mm m 0x100 (push_bit 1 1) d2;
           d4 = DevMem_write_word mm m 0x100 0x01 d3
       in Ret (\<lparr>i2c_mem = m, deviceAddress = 0x48\<rparr>, d4))"

text \<open>
  \<open>for (int i = 0; cond(mem.read_word(0x104)) && i < 10; i++) nanosleep(ns)\<close>: the status is
  read before the counter is tested.
\<close>

function i2c_wait :: "'d mmio \<Rightarrow> DevMem \<Rightarrow> (u32 \<Rightarrow> bool) \<Rightarrow> u32 \<Rightarrow> nat \<Rightarrow> 'd \<Rightarrow> 'd" where
  "i2c_wait mm m cond ns i d =
     (case DevMem_read_word mm m 0x104 d of (v, d1) \<Rightarrow>
        if cond v \<and> i < 10 then i2c_wait mm m cond ns (Suc i) (mm_sleep mm ns d1) else d1)"
  by pat_completeness auto
termination
  by (relation "measure (\<lambda>(mm, m, cond, ns, i, d). 10 - i)") auto

definition tx_not_empty :: "u32 \<Rightarrow> bool" where "tx_not_empty v \<longleftrightarrow> v AND push_bit 7 1 = 0"
definition bus_busy :: "u32 \<Rightarrow> bool" where "bus_busy v \<longleftrightarrow> v AND push_bit 2 1 \<noteq> 0"
definition rx_empty :: "u32 \<Rightarrow> bool" where "rx_empty v \<longleftrightarrow> v AND push_bit 6 1 \<noteq> 0"

definition I2CBusRaw_writeReg :: "'d mmio \<Rightarrow> I2CBusRaw \<Rightarrow> byte \<Rightarrow> u16 \<Rightarrow> 'd \<Rightarrow> u32 \<times> 'd" where
  "I2CBusRaw_writeReg mm bus reg_addr data d0 =
     (let m = i2c_mem bus;
          d1 = i2c_wait mm m tx_not_empty 10000 0 d0;
          d2 = i2c_wait mm m bus_busy 10000 0 d1
      in case DevMem_read_word mm m 0x104 d2 of (status, d3) \<Rightarrow>
         if tx_not_empty status then (1, d3)
         else
           let d4 = DevMem_write_word mm m 0x108 (push_bit 1 (ucast (deviceAddress bus)) OR push_bit 8 1) d3;
               d5 = DevMem_write_word mm m 0x108 (ucast reg_addr) d4;
               d6 = DevMem_write_word mm m 0x108 (ucast (HIGHBYTE data)) d5;
               d7 = DevMem_write_word mm m 0x108 (ucast (LOWBYTE data) OR push_bit 9 1) d6
           in (0, d7))"

text \<open>\<open>data\<close> is a reference: the new value is returned beside the result code.\<close>

definition I2CBusRaw_readReg :: "'d mmio \<Rightarrow> I2CBusRaw \<Rightarrow> byte \<Rightarrow> u16 \<Rightarrow> 'd \<Rightarrow> u32 \<times> u16 \<times> 'd" where
  "I2CBusRaw_readReg mm bus reg_addr data d0 =
     (let m = i2c_mem bus;
          d1 = i2c_wait mm m tx_not_empty 1000 0 d0;
          d2 = i2c_wait mm m bus_busy 1000 0 d1
      in case DevMem_read_word mm m 0x104 d2 of (status, d3) \<Rightarrow>
         if tx_not_empty status then (1, data, d3)
         else
           let d4 = DevMem_write_word mm m 0x108 (push_bit 1 (ucast (deviceAddress bus)) OR push_bit 8 1) d3;
               d5 = DevMem_write_word mm m 0x108 (ucast reg_addr) d4;
               d6 = i2c_wait mm m tx_not_empty 1000 0 d5;
               d7 = DevMem_write_word mm m 0x108
                      (push_bit 1 (ucast (deviceAddress bus)) OR 0x01 OR push_bit 8 1) d6;
               d8 = i2c_wait mm m tx_not_empty 1000 0 d7;
               d9 = DevMem_write_word mm m 0x108 (0x02 OR push_bit 9 1) d8;
               d10 = i2c_wait mm m rx_empty 1000 0 d9
           in case DevMem_read_word mm m 0x10C d10 of (hi, d11) \<Rightarrow>
              let d12 = i2c_wait mm m rx_empty 1000 0 d11
              in case DevMem_read_word mm m 0x10C d12 of (lo, d13) \<Rightarrow>
                 (0, ucast (lo OR push_bit 8 hi), d13))"

text \<open>The status-poll part of a trace and the words fetched from the receive FIFO.\<close>

definition is_poll :: "u32 \<Rightarrow> bus_event \<Rightarrow> bool" where
  "is_poll b e = (case e of Rd32 a v \<Rightarrow> a = b + 0x104 | Slept n \<Rightarrow> True | _ \<Rightarrow> False)"

definition rx_words :: "u32 \<Rightarrow> bus_event list \<Rightarrow> u32 list" where
  "rx_words b tr = concat (map (\<lambda>e. case e of Rd32 a v \<Rightarrow> if a = b + 0x10C then [v] else [] | _ \<Rightarrow> []) tr)"

text \<open>
  The transmit-FIFO words of the controller's dynamic mode (i2c_manual.txt): a register write is
  start and slave address, register, high byte, low byte with stop; a register read is start and
  slave address, register, repeated start and read address, stop with the number of bytes.
\<close>

definition write_frame :: "I2CBusRaw \<Rightarrow> byte \<Rightarrow> u16 \<Rightarrow> bus_event list" where
  "write_frame bus reg v = (let tx = mapped_dev_base (i2c_mem bus) + 0x108 in
     [Wr32 tx (push_bit 1 (ucast (deviceAddress bus)) OR 0x100), Wr32 tx (ucast reg),
      Wr32 tx (ucast (HIGHBYTE v)), Wr32 tx (ucast (LOWBYTE v) OR 0x200)])"

definition read_frame :: "I2CBusRaw \<Rightarrow> byte \<Rightarrow> bus_event list" where
  "read_frame bus reg = (let tx = mapped_dev_base (i2c_mem bus) + 0x108 in
     [Wr32 tx (push_bit 1 (ucast (deviceAddress bus)) OR 0x100), Wr32 tx (ucast reg),
      Wr32 tx (push_bit 1 (ucast (deviceAddress bus)) OR 0x101), Wr32 tx 0x202])"

text \<open>
  A controller for examples: it answers every status read with \<open>status\<close> and every read of
  the receive FIFO with the next word of its state.
\<close>

definition demo_iic :: "u32 \<Rightarrow> u32 \<Rightarrow> u32 list mmio" where
  "demo_iic base status =
     \<lparr>mm_read8 = (\<lambda>_ q. (0, q)), mm_write8 = (\<lambda>_ _ q. q),
      mm_read32 = (\<lambda>a q. if a = base + 0x10C then (case q of [] \<Rightarrow> (0, []) | w # q' \<Rightarrow> (w, q')) else (status, q)),
      mm_write32 = (\<lambda>_ _ q. q), mm_sleep = (\<lambda>_ q. q)\<rparr>"

definition demo_bus :: I2CBusRaw where
  "demo_bus = \<lparr>i2c_mem = \<lparr>memfd = 3, mapped_dev_base = 0x40000000, mapped_base = 0x40000000, map_size = 256\<rparr>,
               deviceAddress = 0x48\<rparr>"

declare i2c_wait.simps [simp del]

subsection \<open>Polling\<close>

lemma i2c_wait_trace:
  assumes "i \<le> 10"
  shows "\<exists>d' tr. i2c_wait (traced mm) m cond ns i (d, l) = (d', l @ tr)
           \<and> (\<forall>e \<in> set tr. is_poll (mapped_dev_base m) e) \<and> length tr \<le> 2 * (10 - i) + 1"
  using assms
proof (induction "10 - i" arbitrary: i d l)
  case 0
  then have "\<not> i < 10" by simp
  then show ?case
    by (subst i2c_wait.simps) (auto simp: DevMem_read_word_def is_poll_def split: prod.splits)
next
  case (Suc k)
  obtain v d1 where rd: "mm_read32 mm (mapped_dev_base m + 0x104) d = (v, d1)"
    by (cases "mm_read32 mm (mapped_dev_base m + 0x104) d")
  have k: "k = 10 - Suc i" "Suc i \<le> 10" using Suc by simp_all
  obtain d' tr where *: "i2c_wait (traced mm) m cond ns (Suc i)
        (mm_sleep mm ns d1, l @ [Rd32 (mapped_dev_base m + 0x104) v, Slept ns]) =
        (d', (l @ [Rd32 (mapped_dev_base m + 0x104) v, Slept ns]) @ tr)"
      "\<forall>e \<in> set tr. is_poll (mapped_dev_base m) e" "length tr \<le> 2 * (10 - Suc i) + 1"
    using Suc.hyps(1) [OF k] by blast
  show ?case
  proof (cases "cond v \<and> i < 10")
    case True
    have "i2c_wait (traced mm) m cond ns i (d, l) =
        (d', l @ [Rd32 (mapped_dev_base m + 0x104) v, Slept ns] @ tr)"
      using True *(1) by (subst i2c_wait.simps) (simp add: DevMem_read_word_def rd)
    then show ?thesis
      using *(2,3) k(2)
      by (intro exI [of _ d'] exI [of _ "[Rd32 (mapped_dev_base m + 0x104) v, Slept ns] @ tr"])
        (auto simp: is_poll_def)
  next
    case False
    have "i2c_wait (traced mm) m cond ns i (d, l) = (d1, l @ [Rd32 (mapped_dev_base m + 0x104) v])"
      using False by (subst i2c_wait.simps) (auto simp: DevMem_read_word_def rd)
    then show ?thesis by (auto simp: is_poll_def)
  qed
qed

lemma is_poll_simps [simp]:
  "is_poll b (Rd32 a v) \<longleftrightarrow> a = b + 0x104" "is_poll b (Slept n)"
  "\<not> is_poll b (Wr32 a v)" "\<not> is_poll b (Rd8 a w)" "\<not> is_poll b (Wr8 a w)"
  by (simp_all add: is_poll_def)

lemma polls_no_write: "\<forall>e \<in> set tr. is_poll b e \<Longrightarrow> writes tr = []"
  by (induction tr) (auto simp: is_poll_def split: bus_event.splits)

lemma rx_words_simps [simp]:
  "rx_words b [] = []" "rx_words b (l @ l') = rx_words b l @ rx_words b l'"
  "rx_words b (Rd32 a v # l) = (if a = b + 0x10C then v # rx_words b l else rx_words b l)"
  "rx_words b (Wr32 a v # l) = rx_words b l" "rx_words b (Slept n # l) = rx_words b l"
  by (simp_all add: rx_words_def)

lemma polls_no_rx: "\<forall>e \<in> set tr. is_poll b e \<Longrightarrow> rx_words b tr = []"
  by (induction tr) (auto simp: is_poll_def rx_words_def split: bus_event.splits)

lemma i2c_waitE:
  obtains d' tr where "i2c_wait (traced mm) m cond ns 0 (d, l) = (d', l @ tr)"
    "writes tr = []" "rx_words (mapped_dev_base m) tr = []" "length tr \<le> 21"
proof -
  obtain d' tr where "i2c_wait (traced mm) m cond ns 0 (d, l) = (d', l @ tr)"
      and polls: "\<forall>e \<in> set tr. is_poll (mapped_dev_base m) e" and "length tr \<le> 21"
    using i2c_wait_trace [of 0 mm m cond ns d l] by auto
  then show thesis using that polls_no_write [OF polls] polls_no_rx [OF polls] by blast
qed

lemma traced_read_word:
  obtains v d' where "DevMem_read_word (traced mm) m r (d, l) = (v, d', l @ [Rd32 (mapped_dev_base m + r) v])"
  by (cases "mm_read32 mm (mapped_dev_base m + r) d") (simp add: DevMem_read_word_def)

lemma traced_write_word:
  "DevMem_write_word (traced mm) m r v (d, l) =
     (mm_write32 mm (mapped_dev_base m + r) v d, l @ [Wr32 (mapped_dev_base m + r) v])"
  by (simp add: DevMem_write_word_def)

lemma wait_write:
  obtains d' tr where
    "DevMem_write_word (traced mm) m 0x108 v (i2c_wait (traced mm) m cond ns 0 (d, l)) = (d', l @ tr)"
    "writes tr = [Wr32 (mapped_dev_base m + 0x108) v]" "rx_words (mapped_dev_base m) tr = []"
    "length tr \<le> 22"
proof -
  obtain d1 t where "i2c_wait (traced mm) m cond ns 0 (d, l) = (d1, l @ t)"
    "writes t = []" "rx_words (mapped_dev_base m) t = []" "length t \<le> 21" by (rule i2c_waitE)
  then show thesis
    by (intro that [of _ "t @ [Wr32 (mapped_dev_base m + 0x108) v]"]) (auto simp: traced_write_word)
qed

lemma wait_read:
  obtains v d' tr where
    "DevMem_read_word (traced mm) m 0x10C (i2c_wait (traced mm) m cond ns 0 (d, l)) = (v, d', l @ tr)"
    "writes tr = []" "rx_words (mapped_dev_base m) tr = [v]" "length tr \<le> 22"
proof -
  obtain d1 t where t: "i2c_wait (traced mm) m cond ns 0 (d, l) = (d1, l @ t)"
    "writes t = []" "rx_words (mapped_dev_base m) t = []" "length t \<le> 21" by (rule i2c_waitE)
  obtain v d' where "DevMem_read_word (traced mm) m 0x10C (d1, l @ t) =
    (v, d', (l @ t) @ [Rd32 (mapped_dev_base m + 0x10C) v])" by (rule traced_read_word)
  with t show thesis
    by (intro that [of v d' "t @ [Rd32 (mapped_dev_base m + 0x10C) v]"]) auto
qed

text \<open>The common start of both transfers: two waits and the status check that decides.\<close>

lemma wait_ready_polls:
  obtains s d' polls where
    "DevMem_read_word (traced mm) m 0x104
       (i2c_wait (traced mm) m bus_busy ns 0 (i2c_wait (traced mm) m tx_not_empty ns 0 (d, l))) =
     (s, d', l @ polls @ [Rd32 (mapped_dev_base m + 0x104) s])"
    "\<forall>e \<in> set polls. is_poll (mapped_dev_base m) e" "length polls \<le> 42"
proof -
  obtain d1 t1 where 1: "i2c_wait (traced mm) m tx_not_empty ns 0 (d, l) = (d1, l @ t1)"
    "\<forall>e \<in> set t1. is_poll (mapped_dev_base m) e" "length t1 \<le> 21"
    using i2c_wait_trace [of 0 mm m tx_not_empty ns d l] by auto
  obtain d2 t2 where 2: "i2c_wait (traced mm) m bus_busy ns 0 (d1, l @ t1) = (d2, (l @ t1) @ t2)"
    "\<forall>e \<in> set t2. is_poll (mapped_dev_base m) e" "length t2 \<le> 21"
    using i2c_wait_trace [of 0 mm m bus_busy ns d1 "l @ t1"] by auto
  obtain s d' where "DevMem_read_word (traced mm) m 0x104 (d2, (l @ t1) @ t2) =
      (s, d', ((l @ t1) @ t2) @ [Rd32 (mapped_dev_base m + 0x104) s])" by (rule traced_read_word)
  with 1 2 show thesis by (intro that [of s d' "t1 @ t2"]) auto
qed

lemma wait_ready:
  obtains s d' tr where
    "DevMem_read_word (traced mm) m 0x104
       (i2c_wait (traced mm) m bus_busy ns 0 (i2c_wait (traced mm) m tx_not_empty ns 0 (d, l))) = (s, d', l @ tr)"
    "writes tr = []" "rx_words (mapped_dev_base m) tr = []" "length tr \<le> 43"
proof -
  obtain s d' polls where 1: "DevMem_read_word (traced mm) m 0x104
      (i2c_wait (traced mm) m bus_busy ns 0 (i2c_wait (traced mm) m tx_not_empty ns 0 (d, l))) =
    (s, d', l @ polls @ [Rd32 (mapped_dev_base m + 0x104) s])" and "length polls \<le> 42"
    and polls: "\<forall>e \<in> set polls. is_poll (mapped_dev_base m) e" by (rule wait_ready_polls)
  then show thesis
    by (intro that [OF 1]) (simp_all add: polls_no_write [OF polls] polls_no_rx [OF polls])
qed

lemma bytes_of_u16:
  "ucast (ucast (LOWBYTE v) OR push_bit 8 (ucast (HIGHBYTE v) :: u32)) = (v :: u16)"
  by (rule bit_word_eqI) (auto simp: LOWBYTE_def HIGHBYTE_def bit_simps)

lemma I2CBusRaw_writeReg_trace:
  "\<exists>ret d' tr. I2CBusRaw_writeReg (traced mm) bus reg v (d, l) = (ret, d', l @ tr) \<and> length tr \<le> 47 \<and>
    (ret = 1 \<and> writes tr = [] \<or> ret = 0 \<and> writes tr = write_frame bus reg v)"
proof -
  obtain s d' tr where "DevMem_read_word (traced mm) (i2c_mem bus) 0x104
       (i2c_wait (traced mm) (i2c_mem bus) bus_busy 10000 0
          (i2c_wait (traced mm) (i2c_mem bus) tx_not_empty 10000 0 (d, l))) = (s, d', l @ tr)"
    "writes tr = []" "length tr \<le> 43" by (rule wait_ready)
  then show ?thesis
    by (cases "tx_not_empty s")
      (force simp: I2CBusRaw_writeReg_def Let_def traced_write_word write_frame_def push_bit_eq_mult)+
qed

lemma I2CBusRaw_readReg_steps:
  "\<exists>ret data' d' polls status rest. I2CBusRaw_readReg (traced mm) bus reg data (d, l) =
     (ret, data', d', l @ polls @ Rd32 (mapped_dev_base (i2c_mem bus) + 0x104) status # rest) \<and>
    (\<forall>e \<in> set polls. is_poll (mapped_dev_base (i2c_mem bus)) e) \<and> length polls \<le> 42 \<and> length rest \<le> 90 \<and>
    (if tx_not_empty status then ret = 1 \<and> data' = data \<and> rest = []
     else ret = 0 \<and> writes rest = read_frame bus reg \<and>
       (\<exists>hi lo. rx_words (mapped_dev_base (i2c_mem bus)) rest = [hi, lo] \<and> data' = ucast (lo OR push_bit 8 hi)))"
proof -
  let ?m = "i2c_mem bus" and ?b = "mapped_dev_base (i2c_mem bus)" and ?mm = "traced mm"
  let ?a = "push_bit 1 (ucast (deviceAddress bus)) :: u32"
  obtain s d1 polls where 1: "DevMem_read_word ?mm ?m 0x104
       (i2c_wait ?mm ?m bus_busy 1000 0 (i2c_wait ?mm ?m tx_not_empty 1000 0 (d, l))) = (s, d1, l @ polls @ [Rd32 (?b + 0x104) s])"
    "\<forall>e \<in> set polls. is_poll ?b e" "length polls \<le> 42" by (rule wait_ready_polls)
  show ?thesis
  proof (cases "tx_not_empty s")
    case True
    then show ?thesis using 1
      by (intro exI [of _ 1] exI [of _ data] exI [of _ d1] exI [of _ polls] exI [of _ s] exI [of _ "[]"])
        (simp add: I2CBusRaw_readReg_def Let_def)
  next
    case False
    let ?head = "[Wr32 (?b + 0x108) (?a OR push_bit 8 1), Wr32 (?b + 0x108) (ucast reg)]"
    define l2 where "l2 = (l @ polls @ [Rd32 (?b + 0x104) s]) @ ?head"
    define d2 where "d2 = mm_write32 mm (?b + 0x108) (ucast reg) (mm_write32 mm (?b + 0x108) (?a OR push_bit 8 1) d1)"
    obtain d3 t3 where 3: "DevMem_write_word ?mm ?m 0x108 (?a OR 1 OR push_bit 8 1)
        (i2c_wait ?mm ?m tx_not_empty 1000 0 (d2, l2)) = (d3, l2 @ t3)"
      "writes t3 = [Wr32 (?b + 0x108) (?a OR 1 OR push_bit 8 1)]" "rx_words ?b t3 = []" "length t3 \<le> 22"
      by (rule wait_write)
    obtain d4 t4 where 4: "DevMem_write_word ?mm ?m 0x108 (2 OR push_bit 9 1)
        (i2c_wait ?mm ?m tx_not_empty 1000 0 (d3, l2 @ t3)) = (d4, (l2 @ t3) @ t4)"
      "writes t4 = [Wr32 (?b + 0x108) (2 OR push_bit 9 1)]" "rx_words ?b t4 = []" "length t4 \<le> 22"
      by (rule wait_write)
    obtain hi d5 t5 where 5: "DevMem_read_word ?mm ?m 0x10C
        (i2c_wait ?mm ?m rx_empty 1000 0 (d4, (l2 @ t3) @ t4)) = (hi, d5, ((l2 @ t3) @ t4) @ t5)"
      "writes t5 = []" "rx_words ?b t5 = [hi]" "length t5 \<le> 22" by (rule wait_read)
    obtain lo d6 t6 where 6: "DevMem_read_word ?mm ?m 0x10C
        (i2c_wait ?mm ?m rx_empty 1000 0 (d5, ((l2 @ t3) @ t4) @ t5)) = (lo, d6, (((l2 @ t3) @ t4) @ t5) @ t6)"
      "writes t6 = []" "rx_words ?b t6 = [lo]" "length t6 \<le> 22" by (rule wait_read)
    let ?rest = "?head @ t3 @ t4 @ t5 @ t6"
    have "I2CBusRaw_readReg ?mm bus reg data (d, l) =
        (0, ucast (lo OR push_bit 8 hi), d6, l @ polls @ Rd32 (?b + 0x104) s # ?rest)"
      using 1(1) 3(1) 4(1) 5(1) 6(1) False
      by (simp add: I2CBusRaw_readReg_def Let_def traced_write_word l2_def d2_def)
    moreover have "writes ?rest = read_frame bus reg" "rx_words ?b ?rest = [hi, lo]" "length ?rest \<le> 90"
      using 3 4 5 6 by (simp_all add: read_frame_def push_bit_eq_mult Let_def)
    ultimately show ?thesis using 1(2,3) False
      by (intro exI [of _ 0] exI [of _ "ucast (lo OR push_bit 8 hi)"] exI [of _ d6] exI [of _ polls] exI [of _ s]
          exI [of _ ?rest]) auto
  qed
qed

lemma I2CBusRaw_readReg_trace:
  "\<exists>ret data' d' tr. I2CBusRaw_readReg (traced mm) bus reg data (d, l) = (ret, data', d', l @ tr) \<and> length tr \<le> 133 \<and>
    (ret = 1 \<and> data' = data \<and> writes tr = [] \<and> rx_words (mapped_dev_base (i2c_mem bus)) tr = [] \<or>
     ret = 0 \<and> writes tr = read_frame bus reg \<and>
     (\<exists>hi lo. rx_words (mapped_dev_base (i2c_mem bus)) tr = [hi, lo] \<and> data' = ucast (lo OR push_bit 8 hi)))"
proof -
  let ?b = "mapped_dev_base (i2c_mem bus)"
  obtain ret data' d' polls status rest where
    step: "I2CBusRaw_readReg (traced mm) bus reg data (d, l) = (ret, data', d', l @ polls @ Rd32 (?b + 0x104) status # rest)"
    and polls: "\<forall>e \<in> set polls. is_poll ?b e" "length polls \<le> 42" and len: "length rest \<le> 90"
    and res: "if tx_not_empty status then ret = 1 \<and> data' = data \<and> rest = []
     else ret = 0 \<and> writes rest = read_frame bus reg \<and>
       (\<exists>hi lo. rx_words ?b rest = [hi, lo] \<and> data' = ucast (lo OR push_bit 8 hi))"
    using I2CBusRaw_readReg_steps [of mm bus reg data d l] by blast
  then show ?thesis
    using polls_no_write [OF polls(1)] polls_no_rx [OF polls(1)]
    by (intro exI [of _ ret] exI [of _ data'] exI [of _ d'] exI [of _ "polls @ Rd32 (?b + 0x104) status # rest"])
      (auto split: if_splits)
qed

text \<open>One transfer, in full: the status is polled, and the last status read decides. With a transmit FIFO that is not empty
  the transfer ends there, otherwise the frame is written.\<close>

definition attempted :: "I2CBusRaw \<Rightarrow> bus_event list \<Rightarrow> bus_event list \<Rightarrow> bool" where
  "attempted bus frame tr \<longleftrightarrow>
     (\<exists>polls status rest. tr = polls @ Rd32 (mapped_dev_base (i2c_mem bus) + 0x104) status # rest \<and>
        (\<forall>e \<in> set polls. is_poll (mapped_dev_base (i2c_mem bus)) e) \<and>
        (if tx_not_empty status then rest = [] else writes rest = frame))"

text \<open>What a read does to its variable: nothing received, the old value; two words received, high byte first.\<close>

definition read_value :: "u32 \<Rightarrow> u16 \<Rightarrow> bus_event list \<Rightarrow> u16 \<Rightarrow> bool" where
  "read_value b old tr v \<longleftrightarrow> rx_words b tr = [] \<and> v = old \<or>
     (\<exists>hi lo. rx_words b tr = [hi, lo] \<and> v = ucast (lo OR push_bit 8 hi))"

lemma writeReg_attempted:
  obtains d' tr where "snd (I2CBusRaw_writeReg (traced mm) bus reg v (d, l)) = (d', l @ tr)"
    "attempted bus (write_frame bus reg v) tr"
proof -
  obtain s d' polls where ready: "DevMem_read_word (traced mm) (i2c_mem bus) 0x104
       (i2c_wait (traced mm) (i2c_mem bus) bus_busy 10000 0
          (i2c_wait (traced mm) (i2c_mem bus) tx_not_empty 10000 0 (d, l))) =
      (s, d', l @ polls @ [Rd32 (mapped_dev_base (i2c_mem bus) + 0x104) s])"
    and polls: "\<forall>e \<in> set polls. is_poll (mapped_dev_base (i2c_mem bus)) e" by (rule wait_ready_polls)
  let ?rest = "if tx_not_empty s then [] else write_frame bus reg v"
  let ?tr = "polls @ Rd32 (mapped_dev_base (i2c_mem bus) + 0x104) s # ?rest"
  have "\<exists>d2. snd (I2CBusRaw_writeReg (traced mm) bus reg v (d, l)) = (d2, l @ ?tr)"
    using ready by (auto simp: I2CBusRaw_writeReg_def Let_def traced_write_word write_frame_def push_bit_eq_mult)
  moreover have "attempted bus (write_frame bus reg v) ?tr"
    unfolding attempted_def using polls
    by (intro exI [of _ polls] exI [of _ s] exI [of _ ?rest]) (simp add: write_frame_def Let_def)
  ultimately show thesis using that by blast
qed

lemma readReg_attempted:
  obtains v d' tr where "snd (I2CBusRaw_readReg (traced mm) bus reg data (d, l)) = (v, d', l @ tr)"
    "attempted bus (read_frame bus reg) tr" "read_value (mapped_dev_base (i2c_mem bus)) data tr v"
proof -
  let ?b = "mapped_dev_base (i2c_mem bus)"
  obtain ret v d' polls status rest where
    step: "I2CBusRaw_readReg (traced mm) bus reg data (d, l) = (ret, v, d', l @ polls @ Rd32 (?b + 0x104) status # rest)"
    and polls: "\<forall>e \<in> set polls. is_poll ?b e"
    and res: "if tx_not_empty status then ret = 1 \<and> v = data \<and> rest = []
     else ret = 0 \<and> writes rest = read_frame bus reg \<and>
       (\<exists>hi lo. rx_words ?b rest = [hi, lo] \<and> v = ucast (lo OR push_bit 8 hi))"
    using I2CBusRaw_readReg_steps [of mm bus reg data d l] by blast
  let ?tr = "polls @ Rd32 (?b + 0x104) status # rest"
  have "attempted bus (read_frame bus reg) ?tr"
    unfolding attempted_def using polls res
    by (intro exI [of _ polls] exI [of _ status] exI [of _ rest]) (auto split: if_splits)
  moreover have "read_value ?b data ?tr v"
    using res polls_no_rx [OF polls] by (auto simp: read_value_def split: if_splits)
  ultimately show thesis using that [of v d' ?tr] step by simp
qed

text \<open>When the controller always reports an empty transmit FIFO, the transfers succeed.\<close>

definition tx_ready :: "'d mmio \<Rightarrow> I2CBusRaw \<Rightarrow> bool" where
  "tx_ready mm bus \<longleftrightarrow> (\<forall>d. \<not> tx_not_empty (fst (mm_read32 mm (mapped_dev_base (i2c_mem bus) + 0x104) d)))"

lemma tx_ready_traced [simp]: "tx_ready mm bus \<Longrightarrow> tx_ready (traced mm) bus"
  by (auto simp: tx_ready_def case_prod_unfold)

lemma writeReg_ok: "tx_ready mm bus \<Longrightarrow> fst (I2CBusRaw_writeReg mm bus reg v d) = 0"
  by (simp add: I2CBusRaw_writeReg_def Let_def DevMem_read_word_def tx_ready_def case_prod_unfold)

lemma readReg_ok: "tx_ready mm bus \<Longrightarrow> fst (I2CBusRaw_readReg mm bus reg data d) = 0"
  by (simp add: I2CBusRaw_readReg_def Let_def DevMem_read_word_def tx_ready_def case_prod_unfold)

subsection \<open>Properties of the bus\<close>

text \<open>C23: Whatever the controller does, \<open>writeReg\<close> makes at most 47 accesses and pauses (so it
  always ends), and it either reports failure (1) without having transmitted anything or reports
  success (0) having put exactly the four words of a register write into the transmit FIFO: start
  and slave address, register address, high data byte, low data byte with the stop bit.\<close>

theorem I2CBusRaw_writeReg_transmits:
  "\<exists>ret d' tr. I2CBusRaw_writeReg (traced mm) bus reg v (d, l) = (ret, d', l @ tr) \<and> length tr \<le> 47 \<and>
    (ret = 1 \<and> writes tr = [] \<or> ret = 0 \<and> writes tr = write_frame bus reg v)"
  by (rule I2CBusRaw_writeReg_trace)

text \<open>C24: Whatever the controller does, \<open>readReg\<close> makes at most 133 accesses and pauses. It
  reports failure (1) with \<open>data\<close> unchanged and nothing transmitted, or success (0) having
  sent the four words of the controller's documented read sequence (start and write address,
  register address, repeated start and read address, stop with a count of two) and taken two words
  from the receive FIFO, the first of which is the high byte.\<close>

theorem I2CBusRaw_readReg_transaction:
  "\<exists>ret data' d' tr. I2CBusRaw_readReg (traced mm) bus reg data (d, l) = (ret, data', d', l @ tr) \<and> length tr \<le> 133 \<and>
    (ret = 1 \<and> data' = data \<and> writes tr = [] \<and> rx_words (mapped_dev_base (i2c_mem bus)) tr = [] \<or>
     ret = 0 \<and> writes tr = read_frame bus reg \<and>
     (\<exists>hi lo. rx_words (mapped_dev_base (i2c_mem bus)) tr = [hi, lo] \<and> data' = ucast (lo OR push_bit 8 hi)))"
  by (rule I2CBusRaw_readReg_trace)

text \<open>\<open>readReg\<close> puts a value together the way \<open>writeReg\<close> takes it apart: when the
  controller's receive FIFO delivers the high and the low byte that \<open>writeReg\<close> transmits for
  \<open>v\<close>, a successful \<open>readReg\<close> returns \<open>v\<close>.\<close>

theorem I2CBusRaw_read_back:
  assumes "I2CBusRaw_readReg (traced mm) bus reg data (d, []) = (0, data', d', tr)"
    and "rx_words (mapped_dev_base (i2c_mem bus)) tr = [ucast (HIGHBYTE v), ucast (LOWBYTE v)]"
  shows "data' = v"
  using I2CBusRaw_readReg_trace [of mm bus reg data d "[]"] assms by (auto simp: bytes_of_u16)

theorem I2CBusRaw_read_back_witness:
  "fst (snd (I2CBusRaw_readReg (traced (demo_iic 0x40000000 0x80)) demo_bus 0xB1 0 ([0xBE, 0xEF], []))) = 0xBEEF"
proof -
  let ?mm = "traced (demo_iic 0x40000000 0x80)" and ?m = "i2c_mem demo_bus"
  have wr: "DevMem_write_word ?mm ?m r v (q, l) = (q, l @ [Wr32 (0x40000000 + r) v])" for r v q l
    by (simp add: DevMem_write_word_def demo_iic_def demo_bus_def)
  have rd: "DevMem_read_word ?mm ?m 0x104 (q, l) = (0x80, q, l @ [Rd32 0x40000104 0x80])"
    "DevMem_read_word ?mm ?m 0x10C (w # q, l) = (w, q, l @ [Rd32 0x4000010C w])" for w q l
    by (simp_all add: DevMem_read_word_def demo_iic_def demo_bus_def)
  have st: "\<not> tx_not_empty 0x80" "\<not> bus_busy 0x80" "\<not> rx_empty 0x80"
    by (simp_all add: tx_not_empty_def bus_busy_def rx_empty_def)
  have w: "\<not> cond 0x80 \<Longrightarrow> i2c_wait ?mm ?m cond 1000 0 (q, l) = (q, l @ [Rd32 0x40000104 0x80])" for cond q l
    by (simp add: i2c_wait.simps rd)
  obtain tr where run: "I2CBusRaw_readReg ?mm demo_bus 0xB1 0 ([0xBE, 0xEF], []) = (0, 0xBEEF, [], tr)"
    and rx: "rx_words 0x40000000 tr = [0xBE, 0xEF]"
    by (force simp: I2CBusRaw_readReg_def Let_def wr rd st w)
  have "rx_words (mapped_dev_base (i2c_mem demo_bus)) tr = [ucast (HIGHBYTE 0xBEEF), ucast (LOWBYTE 0xBEEF)]"
    using rx by (simp add: demo_bus_def HIGHBYTE_def LOWBYTE_def)
  from I2CBusRaw_read_back [OF run this] run show ?thesis by simp
qed

text \<open>The bus-busy wait has no effect on the result: on a controller that reports a busy bus
  forever (with an empty transmit FIFO) \<open>writeReg\<close> gives up waiting, transmits and reports
  success.\<close>

theorem I2CBusRaw_writeReg_ignores_busy:
  assumes "\<And>d. bus_busy (fst (mm_read32 mm (mapped_dev_base (i2c_mem bus) + 0x104) d))"
    and "\<And>d. \<not> tx_not_empty (fst (mm_read32 mm (mapped_dev_base (i2c_mem bus) + 0x104) d))"
  shows "fst (I2CBusRaw_writeReg mm bus reg v d) = 0"
  using assms(2) by (intro writeReg_ok) (simp add: tx_ready_def)

theorem I2CBusRaw_writeReg_ignores_busy_witness:
  "fst (I2CBusRaw_writeReg (demo_iic 0x40000000 0x84) demo_bus 0xB2 0 []) = 0"
  by (rule I2CBusRaw_writeReg_ignores_busy)
    (simp_all add: demo_iic_def demo_bus_def bus_busy_def tx_not_empty_def)

text \<open>A receive timeout is not reported: on a controller whose receive FIFO stays empty
  \<open>readReg\<close> still returns success and whatever the empty FIFO read as.\<close>

theorem I2CBusRaw_readReg_ignores_rx_timeout:
  assumes "\<And>d. rx_empty (fst (mm_read32 mm (mapped_dev_base (i2c_mem bus) + 0x104) d))"
    and "\<And>d. \<not> tx_not_empty (fst (mm_read32 mm (mapped_dev_base (i2c_mem bus) + 0x104) d))"
  shows "fst (I2CBusRaw_readReg mm bus reg data d) = 0"
  using assms(2) by (intro readReg_ok) (simp add: tx_ready_def)

theorem I2CBusRaw_readReg_ignores_rx_timeout_witness:
  "fst (I2CBusRaw_readReg (demo_iic 0x40000000 0xC0) demo_bus 0xB2 0 []) = 0"
  by (rule I2CBusRaw_readReg_ignores_rx_timeout)
    (simp_all add: demo_iic_def demo_bus_def rx_empty_def tx_not_empty_def)

end
