(* ===== verification/Camera.thy ===== *)
theory Camera
  imports RingBuffer I2cRaw
begin

text \<open>
  The camera: \<open>Sensor\<close> (Sensor.hpp, Sensor.cpp) owns a register block and a ring buffer;
  \<open>MT9V034\<close> (MT9V034.hpp, MT9V034.cpp) adds the I2C bus, programs the FPGA's registers in its
  constructor and the image sensor in \<open>power_on\<close>. All under xilinx/visensor-srv/src. Member
  and base destructors run in C++'s order.
\<close>

subsection \<open>Sensor\<close>

record Sensor =
  sn_registers :: FPGARegisters
  sn_buffer :: SharedRingBuffer

definition Sensor_new :: "os \<Rightarrow> u32 \<Rightarrow> u32 \<Rightarrow> u32 \<Rightarrow> u32 \<Rightarrow> u32 \<Rightarrow> u32 \<Rightarrow> Sensor outcome" where
  "Sensor_new os junk_size junk_addr register_start_address sz data_size len =
     bind_outcome (FPGARegisters_new os register_start_address sz) (\<lambda>r.
       bind_outcome (SharedRingBuffer_new os junk_size junk_addr data_size len r) (\<lambda>b.
         Ret \<lparr>sn_registers = r, sn_buffer = b\<rparr>))"

definition Sensor_delete :: "os \<Rightarrow> Sensor \<Rightarrow> syscall list outcome" where
  "Sensor_delete os s = FPGARegisters_delete os (sn_registers s)"

definition Sensor_data :: "Sensor \<Rightarrow> u32" where
  "Sensor_data s = SharedRingBuffer_data (sn_buffer s)"

definition Sensor_size :: "Sensor \<Rightarrow> u32" where
  "Sensor_size s = SharedRingBuffer_size (sn_buffer s)"

definition Sensor_data_size :: "Sensor \<Rightarrow> u32" where
  "Sensor_data_size s = SharedRingBuffer_data_size (sn_buffer s)"

definition Sensor_movePointer :: "'d mmio \<Rightarrow> Sensor \<Rightarrow> 'd \<Rightarrow> Sensor \<times> 'd" where
  "Sensor_movePointer mm s d =
     (case SharedRingBuffer_movePointer mm (sn_buffer s) d of (b, d') \<Rightarrow> (s\<lparr>sn_buffer := b\<rparr>, d'))"

definition Sensor_newDataAvailable :: "'d mmio \<Rightarrow> Sensor \<Rightarrow> 'd \<Rightarrow> bool \<times> 'd" where
  "Sensor_newDataAvailable mm s d = SharedRingBuffer_newDataAvailable mm (sn_buffer s) d"

subsection \<open>MT9V034\<close>

definition IMAGE_SIZE :: u32 where "IMAGE_SIZE = 360960"
definition BUFFER_LENGTH :: u32 where "BUFFER_LENGTH = 8"

record MT9V034 =
  mt_sensor :: Sensor
  mt_i2c_bus :: I2CBusRaw

definition MT9V034_new ::
  "os \<Rightarrow> 'd mmio \<Rightarrow> u32 \<Rightarrow> u32 \<Rightarrow> u32 \<Rightarrow> 'd \<Rightarrow> (MT9V034 \<times> (int \<times> u32 \<times> u32) list \<times> 'd) outcome" where
  "MT9V034_new os mm junk_size junk_addr register_address d =
     bind_outcome (Sensor_new os junk_size junk_addr register_address CAM_REGISTER_BYTES IMAGE_SIZE BUFFER_LENGTH) (\<lambda>s.
     bind_outcome (I2CBusRaw_new os mm d) (\<lambda>(bus, d1).
       let r = sn_registers s;
           start = SharedRingBuffer_get_start_address (sn_buffer s);
           d2 = FPGARegisters_setRegisterValue mm r BUFFER_ADDRESS start d1;
           d3 = FPGARegisters_setRegisterValue mm r BUFFER_SIZE (IMAGE_SIZE * BUFFER_LENGTH) d2;
           d4 = FPGARegisters_setRegisterValue mm r BUFFER_LINUX_POINTER
                  (start + IMAGE_SIZE * (BUFFER_LENGTH + 1)) d3
       in Ret (\<lparr>mt_sensor = s, mt_i2c_bus = bus\<rparr>, FPGARegisters_print_register_values mm r d4)))"

text \<open>\<open>power_on\<close> ignores the result codes; a failed read leaves \<open>data\<close> as it was. The values
  printed are returned.\<close>

definition MT9V034_power_on :: "'d mmio \<Rightarrow> MT9V034 \<Rightarrow> u16 \<Rightarrow> 'd \<Rightarrow> (byte \<times> u16) list \<times> 'd" where
  "MT9V034_power_on mm cam junk d =
     (let bus = mt_i2c_bus cam;
          d1 = snd (I2CBusRaw_writeReg mm bus 0xB2 0x0000 d);
          d2 = snd (I2CBusRaw_writeReg mm bus 0xB6 0x0001 d1);
          d3 = snd (I2CBusRaw_writeReg mm bus 0xB1 0x0000 d2);
          d4 = snd (I2CBusRaw_writeReg mm bus 0x20 0x03C7 d3);
          d5 = snd (I2CBusRaw_writeReg mm bus 0x0C 0x0001 d4)
      in case snd (I2CBusRaw_readReg mm bus 0xB2 junk d5) of (v1, e1) \<Rightarrow>
         case snd (I2CBusRaw_readReg mm bus 0xB6 v1 e1) of (v2, e2) \<Rightarrow>
         case snd (I2CBusRaw_readReg mm bus 0xB1 v2 e2) of (v3, e3) \<Rightarrow>
         case snd (I2CBusRaw_readReg mm bus 0x20 v3 e3) of (v4, e4) \<Rightarrow>
         case snd (I2CBusRaw_readReg mm bus 0x7F v4 e4) of (v5, e5) \<Rightarrow>
           ([(0xB2, v1), (0xB6, v2), (0xB1, v3), (0x20, v4), (0x7F, v5)],
            FPGARegisters_setRegisterValue mm (sn_registers (mt_sensor cam)) CONTROL 0x01 e5))"

definition MT9V034_power_off :: "'d mmio \<Rightarrow> MT9V034 \<Rightarrow> 'd \<Rightarrow> 'd" where
  "MT9V034_power_off mm cam d =
     FPGARegisters_setRegisterValue mm (sn_registers (mt_sensor cam)) CONTROL 0x00 d"

definition MT9V034_delete :: "os \<Rightarrow> 'd mmio \<Rightarrow> MT9V034 \<Rightarrow> 'd \<Rightarrow> (syscall list \<times> 'd) outcome" where
  "MT9V034_delete os mm cam d =
     (let d' = MT9V034_power_off mm cam d in
      bind_outcome (DevMem_delete os (i2c_mem (mt_i2c_bus cam))) (\<lambda>c1.
      bind_outcome (Sensor_delete os (mt_sensor cam)) (\<lambda>c2. Ret (c1 @ c2, d'))))"

definition sensor_wf :: "Sensor \<Rightarrow> bool" where
  "sensor_wf s \<longleftrightarrow> ring_wf (sn_buffer s) \<and> rb_registers (sn_buffer s) = sn_registers s"

text \<open>The image sensor's set-up, as register and value, and the registers read back.\<close>

definition camera_setup :: "(byte \<times> u16) list" where
  "camera_setup = [(0xB2, 0x0000), (0xB6, 0x0001), (0xB1, 0x0000), (0x20, 0x03C7), (0x0C, 0x0001)]"

definition camera_check :: "byte list" where
  "camera_check = [0xB2, 0xB6, 0xB1, 0x20, 0x7F]"

definition demo_camera :: MT9V034 where
  "demo_camera = \<lparr>mt_sensor = \<lparr>sn_registers = demo_regs, sn_buffer = demo_ring\<rparr>, mt_i2c_bus = demo_bus\<rparr>"

subsection \<open>The sensor as a cyclic reader\<close>

lemma Sensor_movePointer_buffer [simp]:
  "sn_buffer (fst (Sensor_movePointer mm s d)) = fst (SharedRingBuffer_movePointer mm (sn_buffer s) d)"
  "sn_registers (fst (Sensor_movePointer mm s d)) = sn_registers s"
  "snd (Sensor_movePointer mm s d) = snd (SharedRingBuffer_movePointer mm (sn_buffer s) d)"
  by (simp_all add: Sensor_movePointer_def case_prod_unfold)

lemma sensor_wf_movePointer: "sensor_wf s \<Longrightarrow> sensor_wf (fst (Sensor_movePointer mm s d))"
  by (simp add: sensor_wf_def movePointer_wf)

lemma sensor_wfD:
  "sensor_wf s \<Longrightarrow> ring_wf (sn_buffer s)"
  "sensor_wf s \<Longrightarrow> unat (rb_position (sn_buffer s)) < unat (rb_length (sn_buffer s))"
  by (simp_all add: sensor_wf_def ring_wf_def)

interpretation sensor: cyclic_reader
  "\<lambda>(s, d). unat (rb_position (sn_buffer s))" "\<lambda>(s, d). unat (rb_length (sn_buffer s))"
  "\<lambda>(s, d). Sensor_movePointer mm s d" "\<lambda>(s, d). sensor_wf s" for mm
  by unfold_locales
    (auto simp: sensor_wfD sensor_wf_movePointer movePointer_position case_prod_unfold)

subsection \<open>The camera's start-up sequence\<close>

text \<open>\<open>power_on\<close> as two passes, over the settings and over the registers read back.\<close>

definition write_all :: "'d mmio \<Rightarrow> I2CBusRaw \<Rightarrow> (byte \<times> u16) list \<Rightarrow> 'd \<Rightarrow> 'd" where
  "write_all mm bus ws d = fold (\<lambda>(r, v) d. snd (I2CBusRaw_writeReg mm bus r v d)) ws d"

fun read_all :: "'d mmio \<Rightarrow> I2CBusRaw \<Rightarrow> byte list \<Rightarrow> u16 \<Rightarrow> 'd \<Rightarrow> (byte \<times> u16) list \<times> 'd" where
  "read_all mm bus [] data d = ([], d)"
| "read_all mm bus (r # rs) data d =
     (case snd (I2CBusRaw_readReg mm bus r data d) of (v, d1) \<Rightarrow>
        case read_all mm bus rs v d1 of (vs, d2) \<Rightarrow> ((r, v) # vs, d2))"

lemma power_on_eq:
  "MT9V034_power_on mm cam junk d =
     (case read_all mm (mt_i2c_bus cam) camera_check junk (write_all mm (mt_i2c_bus cam) camera_setup d) of (vs, e) \<Rightarrow>
        (vs, FPGARegisters_setRegisterValue mm (sn_registers (mt_sensor cam)) CONTROL 1 e))"
  by (simp add: MT9V034_power_on_def write_all_def camera_setup_def camera_check_def Let_def case_prod_unfold)

lemma write_all_attempted:
  "\<exists>d' trs. write_all (traced mm) bus ws (d, l) = (d', l @ concat trs) \<and>
     list_all2 (attempted bus) (map (\<lambda>(r, v). write_frame bus r v) ws) trs"
proof (induction ws arbitrary: d l)
  case Nil
  then show ?case by (simp add: write_all_def)
next
  case (Cons w ws)
  obtain d1 t1 where "snd (I2CBusRaw_writeReg (traced mm) bus (fst w) (snd w) (d, l)) = (d1, l @ t1)"
    "attempted bus (write_frame bus (fst w) (snd w)) t1" by (rule writeReg_attempted)
  moreover obtain d2 trs where "write_all (traced mm) bus ws (d1, l @ t1) = (d2, (l @ t1) @ concat trs)"
    "list_all2 (attempted bus) (map (\<lambda>(r, v). write_frame bus r v) ws) trs" using Cons.IH by blast
  ultimately show ?case by (intro exI [of _ d2] exI [of _ "t1 # trs"]) (simp add: write_all_def case_prod_unfold)
qed

text \<open>The values printed: each read leaves its result, or what the read before it left, in the same variable.\<close>

fun printed_values :: "u32 \<Rightarrow> u16 \<Rightarrow> bus_event list list \<Rightarrow> u16 list \<Rightarrow> bool" where
  "printed_values b old [] [] = True"
| "printed_values b old (tr # trs) (v # vs) = (read_value b old tr v \<and> printed_values b v trs vs)"
| "printed_values b old _ _ = False"

lemma read_all_attempted:
  "\<exists>vs d' trs. read_all (traced mm) bus rs data (d, l) = (vs, d', l @ concat trs) \<and>
     list_all2 (attempted bus) (map (read_frame bus) rs) trs \<and> map fst vs = rs \<and>
     printed_values (mapped_dev_base (i2c_mem bus)) data trs (map snd vs)"
proof (induction rs arbitrary: data d l)
  case Nil
  then show ?case by simp
next
  case (Cons r rs)
  obtain v d1 t1 where "snd (I2CBusRaw_readReg (traced mm) bus r data (d, l)) = (v, d1, l @ t1)"
    "attempted bus (read_frame bus r) t1" "read_value (mapped_dev_base (i2c_mem bus)) data t1 v" by (rule readReg_attempted)
  moreover obtain vs d2 trs where "read_all (traced mm) bus rs v (d1, l @ t1) = (vs, d2, (l @ t1) @ concat trs)"
    "list_all2 (attempted bus) (map (read_frame bus) rs) trs" "map fst vs = rs"
    "printed_values (mapped_dev_base (i2c_mem bus)) v trs (map snd vs)" using Cons.IH by blast
  ultimately show ?case by (intro exI [of _ "(r, v) # vs"] exI [of _ d2] exI [of _ "t1 # trs"]) simp
qed

subsection \<open>Properties of the camera\<close>

text \<open>C10: the start-up of the camera on any controller. \<open>power_on\<close> attempts the five register writes of the image
  sensor's set-up and then the five read-backs, in program order and nothing else. Each attempt polls the status register; with
  a transmit FIFO that is not empty at the last poll it ends without a word sent, otherwise it transmits its whole
  frame. The value printed for a read-back is made of the two words received, or is the value printed before it
  (at first the uninitialised variable) when nothing was sent. Whatever became of the attempts, the FPGA's CONTROL
  register is set to 1 after them, as the last access.\<close>

theorem power_on_programs_camera:
  "\<exists>vs d' writes_trs reads_trs. MT9V034_power_on (traced mm) cam junk (d, l) =
       (vs, d', l @ concat (writes_trs @ reads_trs) @ [Wr32 (fr_mapped_dev_base (sn_registers (mt_sensor cam)) + CONTROL) 1]) \<and>
     list_all2 (\<lambda>(r, v). attempted (mt_i2c_bus cam) (write_frame (mt_i2c_bus cam) r v)) camera_setup writes_trs \<and>
     list_all2 (\<lambda>r. attempted (mt_i2c_bus cam) (read_frame (mt_i2c_bus cam) r)) camera_check reads_trs \<and>
     map fst vs = camera_check \<and>
     printed_values (mapped_dev_base (i2c_mem (mt_i2c_bus cam))) junk reads_trs (map snd vs)"
proof -
  let ?bus = "mt_i2c_bus cam"
  obtain d1 t1 where 1: "write_all (traced mm) ?bus camera_setup (d, l) = (d1, l @ concat t1)"
    "list_all2 (attempted ?bus) (map (\<lambda>(r, v). write_frame ?bus r v) camera_setup) t1"
    using write_all_attempted [of mm ?bus camera_setup d l] by blast
  obtain vs d2 t2 where 2: "read_all (traced mm) ?bus camera_check junk (d1, l @ concat t1) =
      (vs, d2, (l @ concat t1) @ concat t2)"
    "list_all2 (attempted ?bus) (map (read_frame ?bus) camera_check) t2" "map fst vs = camera_check"
    "printed_values (mapped_dev_base (i2c_mem ?bus)) junk t2 (map snd vs)"
    using read_all_attempted [of mm ?bus camera_check junk d1 "l @ concat t1"] by blast
  from 1(2) 2(2) have "list_all2 (\<lambda>(r, v). attempted ?bus (write_frame ?bus r v)) camera_setup t1"
    "list_all2 (\<lambda>r. attempted ?bus (read_frame ?bus r)) camera_check t2"
    by (simp_all add: list_all2_map1 case_prod_unfold)
  with 1(1) 2 show ?thesis
    by (intro exI [of _ vs] exI [of _ "mm_write32 mm (fr_mapped_dev_base (sn_registers (mt_sensor cam)) + CONTROL) 1 d2"]
        exI [of _ t1] exI [of _ t2]) (simp add: power_on_eq FPGARegisters_setRegisterValue_def)
qed

lemma Sensor_new_wf:
  assumes "Sensor_new os j1 j2 addr sz ds len = Ret s" and "0 < unat len" and "unat len < 2 ^ 31 - 1"
  shows "sensor_wf s \<and> rb_data_size (sn_buffer s) = ds \<and> rb_length (sn_buffer s) = len \<and> fr_size (sn_registers s) = sz"
  using assms
  by (auto simp: Sensor_new_def sensor_wf_def ring_wf_def SharedRingBuffer_new_def FPGARegisters_new_def
      Let_def split: if_splits)

lemma print_register_values_state:
  "fr_size r = 32 \<Longrightarrow> snd (FPGARegisters_print_register_values ram r m) = m"
  using print_register_loop_ram [of r 8 0 m] by (simp add: FPGARegisters_print_register_values_def)

text \<open>C28: A camera that was constructed has a well-formed ring of 8 images of 360960 bytes, and
  the FPGA's registers describe it: the buffer address is the driver's physical address, the size
  is that of the 8 images, and the Linux pointer is 9 images behind the start, although the comment
  calls this ``behind the last''.\<close>

theorem MT9V034_registers:
  assumes "MT9V034_new os ram j1 j2 addr m = Ret (cam, printed, m')"
  shows "let s = mt_sensor cam; b = sn_buffer s; reg = (\<lambda>a. fst (FPGARegisters_getRegisterValue ram (sn_registers s) a m'))
    in sensor_wf s \<and> rb_length b = 8 \<and> rb_data_size b = 360960 \<and> rb_position b = 0 \<and>
       reg BUFFER_ADDRESS = rb_buffer_pysical_address b \<and> reg BUFFER_SIZE = 2887680 \<and>
       reg BUFFER_LINUX_POINTER = slot_address b 9"
proof -
  obtain s bus m1 where s: "Sensor_new os j1 j2 addr CAM_REGISTER_BYTES IMAGE_SIZE BUFFER_LENGTH = Ret s"
    and cam: "cam = \<lparr>mt_sensor = s, mt_i2c_bus = bus\<rparr>"
    and pr: "FPGARegisters_print_register_values ram (sn_registers s)
        (FPGARegisters_setRegisterValue ram (sn_registers s) BUFFER_LINUX_POINTER
          (rb_buffer_pysical_address (sn_buffer s) + IMAGE_SIZE * (BUFFER_LENGTH + 1))
        (FPGARegisters_setRegisterValue ram (sn_registers s) BUFFER_SIZE (IMAGE_SIZE * BUFFER_LENGTH)
        (FPGARegisters_setRegisterValue ram (sn_registers s) BUFFER_ADDRESS
          (rb_buffer_pysical_address (sn_buffer s)) m1))) = (printed, m')"
    using assms by (auto simp: MT9V034_new_def Let_def SharedRingBuffer_get_start_address_def)
  have wf: "sensor_wf s" "rb_length (sn_buffer s) = 8" "rb_data_size (sn_buffer s) = 360960"
      "fr_size (sn_registers s) = 32"
    using Sensor_new_wf [OF s] by (simp_all add: BUFFER_LENGTH_def IMAGE_SIZE_def CAM_REGISTER_BYTES_def)
  have "rb_position (sn_buffer s) = 0"
    using s by (auto simp: Sensor_new_def SharedRingBuffer_new_def Let_def split: if_splits)
  moreover have "apart4 BUFFER_LINUX_POINTER BUFFER_ADDRESS" "apart4 BUFFER_LINUX_POINTER BUFFER_SIZE"
      "apart4 BUFFER_SIZE BUFFER_ADDRESS"
    by (simp_all add: apart4_def register_offsets)
  moreover note print_register_values_state [OF wf(4)] pr [THEN arg_cong [where f = snd], symmetric]
  ultimately show ?thesis
    using wf by (simp add: cam Let_def fpga_regs.get_set fpga_regs.get_set_other slot_address_def
        IMAGE_SIZE_def BUFFER_LENGTH_def)
qed

theorem MT9V034_registers_witness:
  "\<exists>cam printed m'. MT9V034_new demo_os ram 0 0x1F000000 0x7e200000 (\<lambda>_. 0) = Ret (cam, printed, m') \<and>
     fst (FPGARegisters_getRegisterValue ram (sn_registers (mt_sensor cam)) BUFFER_SIZE m') = 2887680"
proof -
  have "\<exists>x. MT9V034_new demo_os ram 0 0x1F000000 0x7e200000 (\<lambda>_. 0) = Ret x"
    by (simp add: MT9V034_new_def Sensor_new_def FPGARegisters_new_def SharedRingBuffer_new_def
        I2CBusRaw_new_def DevMem_new_def DevMem_open_dev_def demo_os_def MAP_FAILED_def Let_def
        CAM_REGISTER_BYTES_def word_sless_alt)
  then obtain cam printed m' where
    *: "MT9V034_new demo_os ram 0 0x1F000000 0x7e200000 (\<lambda>_. 0) = Ret (cam, printed, m')" by auto
  show ?thesis using * MT9V034_registers [OF *] by (auto simp: Let_def)
qed

end
