(* ===== verification/CameraChip.thy ===== *)
theory CameraChip
  imports Camera
begin

text \<open>
  What the driver of the control bus is for: on a controller and a chip that behave as documented, \<open>writeReg\<close>
  and \<open>readReg\<close> are the chip's register write and read. The documented behaviour (src/i2c_manual.txt, the
  read of a slave in the dynamic mode) is stated over an abstract state of the words not yet
  executed, the receive FIFO and the chip; a relation links it to the hardware, which may take up to ten
  pauses after each word before its status register says so. Nothing here models code: the definitions are the
  hypotheses on the hardware.
\<close>

subsection \<open>The controller and the chip\<close>

record 'c iic =
  ic_frame :: "u32 list"
  ic_rx :: "u32 list"
  ic_chip :: 'c

text \<open>A complete frame. Bit 8 is a start condition with the address, whose last bit is 1 for a read; the last word
  has the stop bit 9 and, for a read, the number of bytes to receive.\<close>

definition iic_execute ::
  "byte \<Rightarrow> (byte \<Rightarrow> u16 \<Rightarrow> 'c \<Rightarrow> 'c) \<Rightarrow> (byte \<Rightarrow> 'c \<Rightarrow> u16) \<Rightarrow> u32 list \<Rightarrow> 'c iic \<Rightarrow> 'c iic" where
  "iic_execute addr cw cr frame s =
     (let start = push_bit 1 (ucast addr) OR 0x100 in
      case frame of
        [a, r, b, c] \<Rightarrow>
          if a = start \<and> \<not> bit b 8 then
            let hi = ucast b :: byte; lo = ucast c :: byte
            in s\<lparr>ic_chip := cw (ucast r) (ucast (ucast lo OR push_bit 8 (ucast hi :: u32))) (ic_chip s)\<rparr>
          else if a = start \<and> b = start OR 1 \<and> c = 0x202 then
            let v = cr (ucast r) (ic_chip s) in s\<lparr>ic_rx := ic_rx s @ [ucast (HIGHBYTE v), ucast (LOWBYTE v)]\<rparr>
          else s
      | _ \<Rightarrow> s)"

definition iic_transmit ::
  "byte \<Rightarrow> (byte \<Rightarrow> u16 \<Rightarrow> 'c \<Rightarrow> 'c) \<Rightarrow> (byte \<Rightarrow> 'c \<Rightarrow> u16) \<Rightarrow> u32 \<Rightarrow> 'c iic \<Rightarrow> 'c iic" where
  "iic_transmit addr cw cr w s =
     (let frame = ic_frame s @ [w] in
      if bit w 9 then iic_execute addr cw cr frame (s\<lparr>ic_frame := []\<rparr>) else s\<lparr>ic_frame := frame\<rparr>)"

text \<open>
  \<open>R\<close> relates the hardware to the abstract state. \<open>txlag\<close> and \<open>rxlag\<close> are the pauses it takes until the
  transmit FIFO is seen empty and the next received byte is seen.
\<close>

definition documented_iic ::
  "'d mmio \<Rightarrow> u32 \<Rightarrow> byte \<Rightarrow> (byte \<Rightarrow> u16 \<Rightarrow> 'c \<Rightarrow> 'c) \<Rightarrow> (byte \<Rightarrow> 'c \<Rightarrow> u16) \<Rightarrow>
   ('d \<Rightarrow> 'c iic \<Rightarrow> bool) \<Rightarrow> ('d \<Rightarrow> nat) \<Rightarrow> ('d \<Rightarrow> nat) \<Rightarrow> bool" where
  "documented_iic mm base addr cw cr R txlag rxlag \<longleftrightarrow>
     (\<forall>d s. R d s \<longrightarrow> (\<exists>v d'. mm_read32 mm (base + 0x104) d = (v, d') \<and> R d' s \<and>
        (tx_not_empty v \<longleftrightarrow> 0 < txlag d) \<and> (rx_empty v \<longleftrightarrow> 0 < rxlag d \<or> ic_rx s = []) \<and>
        txlag d' = txlag d \<and> rxlag d' = rxlag d)) \<and>
     (\<forall>d s n. R d s \<longrightarrow> R (mm_sleep mm n d) s \<and>
        txlag (mm_sleep mm n d) \<le> txlag d - 1 \<and> rxlag (mm_sleep mm n d) \<le> rxlag d - 1) \<and>
     (\<forall>d s w. R d s \<longrightarrow> R (mm_write32 mm (base + 0x108) w d) (iic_transmit addr cw cr w s) \<and>
        txlag (mm_write32 mm (base + 0x108) w d) \<le> 10 \<and> rxlag (mm_write32 mm (base + 0x108) w d) \<le> 10) \<and>
     (\<forall>d s x xs. R d s \<and> ic_rx s = x # xs \<and> rxlag d = 0 \<longrightarrow>
        (\<exists>d'. mm_read32 mm (base + 0x10C) d = (x, d') \<and> R d' (s\<lparr>ic_rx := xs\<rparr>) \<and> txlag d' \<le> 10 \<and> rxlag d' \<le> 10))"

lemma documented_iicD:
  assumes "documented_iic mm base addr cw cr R txlag rxlag" and "R d s"
  shows iic_status: "\<exists>v d'. mm_read32 mm (base + 0x104) d = (v, d') \<and> R d' s \<and>
        (tx_not_empty v \<longleftrightarrow> 0 < txlag d) \<and> (rx_empty v \<longleftrightarrow> 0 < rxlag d \<or> ic_rx s = []) \<and>
        txlag d' = txlag d \<and> rxlag d' = rxlag d"
    and iic_sleep: "R (mm_sleep mm n d) s \<and> txlag (mm_sleep mm n d) \<le> txlag d - 1 \<and> rxlag (mm_sleep mm n d) \<le> rxlag d - 1"
    and iic_write: "R (mm_write32 mm (base + 0x108) w d) (iic_transmit addr cw cr w s) \<and>
        txlag (mm_write32 mm (base + 0x108) w d) \<le> 10 \<and> rxlag (mm_write32 mm (base + 0x108) w d) \<le> 10"
    and iic_receive: "ic_rx s = x # xs \<Longrightarrow> rxlag d = 0 \<Longrightarrow> \<exists>d'. mm_read32 mm (base + 0x10C) d = (x, d') \<and>
        R d' (s\<lparr>ic_rx := xs\<rparr>) \<and> txlag d' \<le> 10 \<and> rxlag d' \<le> 10"
  using assms unfolding documented_iic_def by blast+

subsection \<open>Frames\<close>

lemma bit_tests [simp]:
  "\<not> bit (256 :: u32) 9" "bit (256 :: u32) 8" "bit (512 :: u32) 9" "\<not> bit (1 :: u32) 8" "\<not> bit (1 :: u32) 9"
  "\<not> bit (ucast (b :: byte) :: u32) 8" "\<not> bit (ucast (b :: byte) :: u32) 9" "bit (514 :: u32) 9"
  by (simp_all add: bit_simps)

lemma bit_address [simp]: "\<not> bit (ucast (b :: byte) * 2 :: u32) 9"
proof -
  have "\<not> bit (push_bit 1 (ucast b :: u32)) 9" by (simp only: bit_push_bit_iff) (simp add: bit_simps)
  then show ?thesis by (simp only: push_bit_eq_mult power_one_right) simp
qed

lemma ucast_low [simp]: "ucast (ucast (b :: byte) OR 512 :: u32) = b"
proof -
  have e: "(512 :: u32) = 2 ^ 9" by simp
  have "\<not> bit (512 :: u32) n" if "n < 8" for n using that by (simp only: e bit_exp_iff) simp
  then show ?thesis by (intro bit_word_eqI) (auto simp: bit_simps)
qed

lemma ucast_ucast_byte [simp]: "ucast (ucast (b :: byte) :: u32) = b"
  by (rule bit_word_eqI) (auto simp: bit_simps)

text \<open>The words of a register write and of a register read, one after the other.\<close>

lemma transmit_write:
  assumes "ic_frame s = []"
  shows "iic_transmit addr cw cr (ucast (LOWBYTE v) OR 512)
      (iic_transmit addr cw cr (ucast (HIGHBYTE v))
        (iic_transmit addr cw cr (ucast reg) (iic_transmit addr cw cr (ucast addr * 2 OR 256) s))) =
    s\<lparr>ic_chip := cw reg v (ic_chip s)\<rparr>"
  using assms bytes_of_u16 [of v]
  by (simp add: iic_transmit_def iic_execute_def Let_def bit_or_iff)

lemma transmit_read:
  assumes "ic_frame s = []"
  shows "iic_transmit addr cw cr 514
      (iic_transmit addr cw cr (ucast addr * 2 OR 257)
        (iic_transmit addr cw cr (ucast reg) (iic_transmit addr cw cr (ucast addr * 2 OR 256) s))) =
    s\<lparr>ic_rx := ic_rx s @ [ucast (HIGHBYTE (cr reg (ic_chip s))), ucast (LOWBYTE (cr reg (ic_chip s)))]\<rparr>"
  using assms
  by (simp add: iic_transmit_def iic_execute_def Let_def bit_or_iff or.assoc)

subsection \<open>The waiting loops\<close>

text \<open>A loop keeps the abstract state and never adds to the lags; ten pauses are enough for the transmit FIFO to be
  seen empty, or for a byte that is there to be seen.\<close>

lemma wait_loop:
  assumes "documented_iic mm (mapped_dev_base m) addr cw cr R txlag rxlag" and "R d s" and "i \<le> 10"
    and "d' = i2c_wait mm m cond ns i d"
  shows "R d' s \<and> txlag d' \<le> txlag d \<and> rxlag d' \<le> rxlag d \<and>
    (cond = tx_not_empty \<and> txlag d \<le> 10 - i \<longrightarrow> txlag d' = 0) \<and>
    (cond = rx_empty \<and> ic_rx s \<noteq> [] \<and> rxlag d \<le> 10 - i \<longrightarrow> rxlag d' = 0)"
  using assms(2-4)
proof (induction "10 - i" arbitrary: i d)
  case 0
  then have i: "\<not> i < 10" by simp
  from iic_status [OF assms(1) 0(2)] show ?case
    using 0(4) i by (subst (asm) i2c_wait.simps) (auto simp: DevMem_read_word_def)
next
  case (Suc k)
  obtain v d1 where rd: "mm_read32 mm (mapped_dev_base m + 0x104) d = (v, d1)" "R d1 s"
    and st: "tx_not_empty v \<longleftrightarrow> 0 < txlag d" "rx_empty v \<longleftrightarrow> 0 < rxlag d \<or> ic_rx s = []"
      "txlag d1 = txlag d" "rxlag d1 = rxlag d"
    using iic_status [OF assms(1) Suc.prems(1)] by (elim exE conjE) (rule that)
  show ?case
  proof (cases "cond v")
    case False
    then have "d' = d1" using Suc.prems(3) rd(1) by (subst (asm) i2c_wait.simps) (simp add: DevMem_read_word_def)
    then show ?thesis using rd(2) st False by auto
  next
    case True
    let ?d = "mm_sleep mm ns d1"
    have k: "k = 10 - Suc i" "i < 10" using Suc.hyps(2) by auto
    have next_d: "d' = i2c_wait mm m cond ns (Suc i) ?d"
      using Suc.prems(3) rd(1) True k(2) by (subst (asm) i2c_wait.simps) (simp add: DevMem_read_word_def)
    note sleep = iic_sleep [OF assms(1) rd(2), of ns]
    from Suc.hyps(1) [OF k(1) _ _ next_d] sleep k(2)
    have "R d' s \<and> txlag d' \<le> txlag ?d \<and> rxlag d' \<le> rxlag ?d \<and>
      (cond = tx_not_empty \<and> txlag ?d \<le> 10 - Suc i \<longrightarrow> txlag d' = 0) \<and>
      (cond = rx_empty \<and> ic_rx s \<noteq> [] \<and> rxlag ?d \<le> 10 - Suc i \<longrightarrow> rxlag d' = 0)" by simp
    then show ?thesis using sleep st(3,4) k(2) by auto
  qed
qed

text \<open>The three uses of the loop in the transfers.\<close>

lemma wait_tx:
  assumes "documented_iic mm (mapped_dev_base m) addr cw cr R txlag rxlag" and "R d s" and "txlag d \<le> 10"
  shows "R (i2c_wait mm m tx_not_empty ns 0 d) s \<and> txlag (i2c_wait mm m tx_not_empty ns 0 d) = 0"
  using wait_loop [OF assms(1,2) _ refl, of 0 tx_not_empty ns] assms(3) by simp

lemma wait_tx_write:
  assumes "documented_iic mm (mapped_dev_base m) addr cw cr R txlag rxlag" and "R d s"
  shows "R (DevMem_write_word mm m 0x108 w (i2c_wait mm m cond ns 0 d)) (iic_transmit addr cw cr w s) \<and>
    txlag (DevMem_write_word mm m 0x108 w (i2c_wait mm m cond ns 0 d)) \<le> 10 \<and>
    rxlag (DevMem_write_word mm m 0x108 w (i2c_wait mm m cond ns 0 d)) \<le> 10"
proof -
  have "R (i2c_wait mm m cond ns 0 d) s" using wait_loop [OF assms _ refl, of 0 cond ns] by simp
  from iic_write [OF assms(1) this, of w] show ?thesis by (simp add: DevMem_write_word_def)
qed

lemma wait_rx_read:
  assumes "documented_iic mm (mapped_dev_base m) addr cw cr R txlag rxlag" and "R d s" and "rxlag d \<le> 10"
    and "ic_rx s = x # xs"
  shows "\<exists>d'. DevMem_read_word mm m 0x10C (i2c_wait mm m rx_empty ns 0 d) = (x, d') \<and>
    R d' (s\<lparr>ic_rx := xs\<rparr>) \<and> txlag d' \<le> 10 \<and> rxlag d' \<le> 10"
proof -
  have "R (i2c_wait mm m rx_empty ns 0 d) s" "rxlag (i2c_wait mm m rx_empty ns 0 d) = 0"
    using wait_loop [OF assms(1,2) _ refl, of 0 rx_empty ns] assms(3,4) by simp_all
  from iic_receive [OF assms(1) this(1) assms(4) this(2)] show ?thesis by (simp add: DevMem_read_word_def)
qed

lemma wait_start:
  assumes "documented_iic mm (mapped_dev_base m) addr cw cr R txlag rxlag" and "R d s" and "txlag d \<le> 10"
  shows "\<exists>v d'. DevMem_read_word mm m 0x104 (i2c_wait mm m bus_busy ns 0 (i2c_wait mm m tx_not_empty ns 0 d)) = (v, d') \<and>
    \<not> tx_not_empty v \<and> R d' s"
proof -
  let ?d1 = "i2c_wait mm m tx_not_empty ns 0 d" and ?d2 = "i2c_wait mm m bus_busy ns 0 (i2c_wait mm m tx_not_empty ns 0 d)"
  have 1: "R ?d1 s" "txlag ?d1 = 0" using wait_tx [OF assms] by simp_all
  then have "R ?d2 s" "txlag ?d2 = 0" using wait_loop [OF assms(1) 1(1) _ refl, of 0 bus_busy ns] by simp_all
  then show ?thesis using iic_status [OF assms(1), of ?d2 s] by (auto simp: DevMem_read_word_def)
qed

subsection \<open>The transfers\<close>

lemma writeReg_refines:
  assumes "documented_iic mm (mapped_dev_base (i2c_mem bus)) (deviceAddress bus) cw cr R txlag rxlag"
    and "R d s" and "txlag d \<le> 10" and "ic_frame s = []"
  shows "\<exists>d'. I2CBusRaw_writeReg mm bus reg v d = (0, d') \<and> txlag d' \<le> 10 \<and>
    R d' (s\<lparr>ic_chip := cw reg v (ic_chip s)\<rparr>)"
proof -
  let ?b = "mapped_dev_base (i2c_mem bus) + 0x108"
  obtain st d0 where ready: "DevMem_read_word mm (i2c_mem bus) 0x104 (i2c_wait mm (i2c_mem bus) bus_busy 10000 0
      (i2c_wait mm (i2c_mem bus) tx_not_empty 10000 0 d)) = (st, d0)" "\<not> tx_not_empty st" and 0: "R d0 s"
    using wait_start [OF assms(1-3), of 10000] by blast
  note 1 = iic_write [OF assms(1) 0, of "ucast (deviceAddress bus) * 2 OR 256", THEN conjunct1]
  note 2 = iic_write [OF assms(1) 1, of "ucast reg", THEN conjunct1]
  note 3 = iic_write [OF assms(1) 2, of "ucast (HIGHBYTE v)", THEN conjunct1]
  note 4 = iic_write [OF assms(1) 3, of "ucast (LOWBYTE v) OR 512"]
  show ?thesis
    using 4 ready unfolding transmit_write [OF assms(4)]
    by (simp add: I2CBusRaw_writeReg_def Let_def DevMem_write_word_def)
qed

lemma readReg_refines:
  assumes "documented_iic mm (mapped_dev_base (i2c_mem bus)) (deviceAddress bus) cw cr R txlag rxlag"
    and "R d s" and "txlag d \<le> 10" and "ic_frame s = []" and "ic_rx s = []"
  shows "\<exists>d'. I2CBusRaw_readReg mm bus reg data d = (0, cr reg (ic_chip s), d') \<and> txlag d' \<le> 10 \<and> R d' s"
proof -
  let ?m = "i2c_mem bus" and ?v = "cr reg (ic_chip s)" and ?a = "ucast (deviceAddress bus) * 2 :: u32"
  obtain st d0 where ready: "DevMem_read_word mm ?m 0x104 (i2c_wait mm ?m bus_busy 1000 0
      (i2c_wait mm ?m tx_not_empty 1000 0 d)) = (st, d0)" "\<not> tx_not_empty st" and 0: "R d0 s"
    using wait_start [OF assms(1-3), of 1000] by blast
  define d2 where "d2 = DevMem_write_word mm ?m 0x108 (ucast reg) (DevMem_write_word mm ?m 0x108 (?a OR 256) d0)"
  note 1 = iic_write [OF assms(1) 0, of "?a OR 256", THEN conjunct1]
  from iic_write [OF assms(1) 1, of "ucast reg"]
  have 2: "R d2 (iic_transmit (deviceAddress bus) cw cr (ucast reg) (iic_transmit (deviceAddress bus) cw cr (?a OR 256) s))"
    by (simp add: d2_def DevMem_write_word_def)
  define d3 where "d3 = DevMem_write_word mm ?m 0x108 (?a OR 257) (i2c_wait mm ?m tx_not_empty 1000 0 d2)"
  note 3 = wait_tx_write [OF assms(1) 2, of "?a OR 257" tx_not_empty 1000, folded d3_def, THEN conjunct1]
  define d4 where "d4 = DevMem_write_word mm ?m 0x108 514 (i2c_wait mm ?m tx_not_empty 1000 0 d3)"
  from wait_tx_write [OF assms(1) 3, of 514 tx_not_empty 1000]
  have 4: "R d4 (s\<lparr>ic_rx := [ucast (HIGHBYTE ?v), ucast (LOWBYTE ?v)]\<rparr>)" "rxlag d4 \<le> 10"
    unfolding transmit_read [OF assms(4)] by (simp_all add: d4_def assms(5))
  from wait_rx_read [OF assms(1) 4(1,2), of _ _ 1000] obtain d5 where
    5: "DevMem_read_word mm ?m 0x10C (i2c_wait mm ?m rx_empty 1000 0 d4) = (ucast (HIGHBYTE ?v), d5)"
      "R d5 (s\<lparr>ic_rx := [ucast (LOWBYTE ?v)]\<rparr>)" "rxlag d5 \<le> 10" by auto
  from wait_rx_read [OF assms(1) 5(2,3), of _ _ 1000] obtain d6 where
    6: "DevMem_read_word mm ?m 0x10C (i2c_wait mm ?m rx_empty 1000 0 d5) = (ucast (LOWBYTE ?v), d6)"
      "R d6 (s\<lparr>ic_rx := []\<rparr>)" "txlag d6 \<le> 10" by auto
  have "s\<lparr>ic_rx := []\<rparr> = s" using assms(5) by simp
  then show ?thesis
    using ready 5(1) 6 bytes_of_u16 [of ?v]
    by (simp add: I2CBusRaw_readReg_def Let_def d2_def d3_def d4_def or.assoc)
qed

lemma write_all_refines:
  assumes "documented_iic mm (mapped_dev_base (i2c_mem bus)) (deviceAddress bus) cw cr R txlag rxlag"
    and "R d s" and "txlag d \<le> 10" and "ic_frame s = []"
  shows "\<exists>d'. write_all mm bus ws d = d' \<and> txlag d' \<le> 10 \<and>
    R d' (s\<lparr>ic_chip := fold (\<lambda>(r, v). cw r v) ws (ic_chip s)\<rparr>)"
  using assms(2-4)
proof (induction ws arbitrary: d s)
  case Nil
  then show ?case by (simp add: write_all_def)
next
  case (Cons w ws)
  obtain d1 where 1: "I2CBusRaw_writeReg mm bus (fst w) (snd w) d = (0, d1)" "txlag d1 \<le> 10"
      "R d1 (s\<lparr>ic_chip := cw (fst w) (snd w) (ic_chip s)\<rparr>)"
    using writeReg_refines [OF assms(1) Cons.prems, of "fst w" "snd w"] by blast
  with Cons.IH [OF 1(3,2)] Cons.prems(3) show ?case by (simp add: write_all_def case_prod_unfold)
qed

lemma read_all_refines:
  assumes "documented_iic mm (mapped_dev_base (i2c_mem bus)) (deviceAddress bus) cw cr R txlag rxlag"
    and "R d s" and "txlag d \<le> 10" and "ic_frame s = []" and "ic_rx s = []"
  shows "\<exists>d'. read_all mm bus rs data d = (map (\<lambda>r. (r, cr r (ic_chip s))) rs, d') \<and> txlag d' \<le> 10 \<and> R d' s"
  using assms(2,3)
proof (induction rs arbitrary: data d)
  case (Cons r rs)
  obtain d1 where 1: "I2CBusRaw_readReg mm bus r data d = (0, cr r (ic_chip s), d1)" "txlag d1 \<le> 10" "R d1 s"
    using readReg_refines [OF assms(1) Cons.prems assms(4,5), of r data] by blast
  with Cons.IH [OF 1(3,2), of "cr r (ic_chip s)"] show ?case by auto
qed simp

subsection \<open>An instance\<close>

text \<open>A controller that needs three pauses after every word, with a chip that is a table of registers.\<close>

definition demo_controller :: "u32 \<Rightarrow> byte \<Rightarrow> ((byte \<Rightarrow> u16) iic \<times> nat) mmio" where
  "demo_controller base addr =
     \<lparr>mm_read8 = (\<lambda>_ d. (0, d)), mm_write8 = (\<lambda>_ _ d. d),
      mm_read32 = (\<lambda>a (s, lag).
        if a = base + 0x10C then (case ic_rx s of [] \<Rightarrow> (0, s, lag) | x # xs \<Rightarrow> (x, s\<lparr>ic_rx := xs\<rparr>, lag))
        else if a = base + 0x104
          then ((if lag = 0 then 0x80 else 0) OR (if lag > 0 \<or> ic_rx s = [] then 0x40 else 0), s, lag)
        else (0, s, lag)),
      mm_write32 = (\<lambda>a w (s, lag).
        if a = base + 0x108 then (iic_transmit addr (\<lambda>r v c. c(r := v)) (\<lambda>r c. c r) w s, 3) else (s, lag)),
      mm_sleep = (\<lambda>_ (s, lag). (s, lag - 1))\<rparr>"

lemma demo_controller_documented:
  "documented_iic (demo_controller base addr) base addr (\<lambda>r v c. c(r := v)) (\<lambda>r c. c r) (\<lambda>d s. fst d = s) snd snd"
  by (auto simp: documented_iic_def demo_controller_def tx_not_empty_def rx_empty_def)

definition demo_chip_state :: "(byte \<Rightarrow> u16) iic \<times> nat" where
  "demo_chip_state = (\<lparr>ic_frame = [], ic_rx = [], ic_chip = (\<lambda>_. 0x1313)\<rparr>, 7)"

subsection \<open>Properties\<close>

text \<open>C11: on a controller that behaves as documented, whatever delay of up to ten pauses it has, \<open>writeReg\<close> is the
  register write of the chip and \<open>readReg\<close> its register read: both report success, the value read is that of the
  chip after the write, and the FIFOs are left empty for the next transfer.\<close>

theorem I2CBusRaw_refines_registers:
  assumes "documented_iic mm (mapped_dev_base (i2c_mem bus)) (deviceAddress bus) cw cr R txlag rxlag"
    and "R d s" and "txlag d \<le> 10" and "ic_frame s = []" and "ic_rx s = []"
  shows "\<exists>d1 d2. I2CBusRaw_writeReg mm bus reg v d = (0, d1) \<and>
    I2CBusRaw_readReg mm bus reg' data d1 = (0, cr reg' (cw reg v (ic_chip s)), d2) \<and>
    R d2 (s\<lparr>ic_chip := cw reg v (ic_chip s)\<rparr>)"
proof -
  obtain d1 where 1: "I2CBusRaw_writeReg mm bus reg v d = (0, d1)" "txlag d1 \<le> 10"
      "R d1 (s\<lparr>ic_chip := cw reg v (ic_chip s)\<rparr>)"
    using writeReg_refines [OF assms(1-4), of reg v] by blast
  with readReg_refines [OF assms(1) 1(3,2), of reg' data] assms(4,5) show ?thesis by auto
qed

theorem I2CBusRaw_refines_registers_witness:
  "\<exists>d1. I2CBusRaw_writeReg (demo_controller 0x40000000 0x48) demo_bus 0x20 0x03C7 demo_chip_state = (0, d1) \<and>
     fst (snd (I2CBusRaw_readReg (demo_controller 0x40000000 0x48) demo_bus 0x20 0 d1)) = 0x03C7"
proof -
  have doc: "documented_iic (demo_controller 0x40000000 0x48) (mapped_dev_base (i2c_mem demo_bus)) (deviceAddress demo_bus)
      (\<lambda>r v c. c(r := v)) (\<lambda>r c. c r) (\<lambda>d s. fst d = s) snd snd"
    using demo_controller_documented [of "0x40000000" "0x48"] by (simp add: demo_bus_def)
  have "snd demo_chip_state \<le> 10" "ic_frame (fst demo_chip_state) = []" "ic_rx (fst demo_chip_state) = []"
    by (simp_all add: demo_chip_state_def)
  from I2CBusRaw_refines_registers [OF doc refl this, of "0x20" "0x03C7" "0x20" 0] show ?thesis by auto
qed

text \<open>C12: on such a controller \<open>power_on\<close> leaves the image sensor with exactly the five settings of the set-up made, in
  their order, prints the values the chip then has in the checked registers, and starts the FPGA last.\<close>

theorem power_on_configures_chip:
  assumes "documented_iic mm (mapped_dev_base (i2c_mem (mt_i2c_bus cam))) (deviceAddress (mt_i2c_bus cam)) cw cr R txlag rxlag"
    and "R d s" and "txlag d \<le> 10" and "ic_frame s = []" and "ic_rx s = []"
    and "chip = fold (\<lambda>(r, v). cw r v) camera_setup (ic_chip s)"
  shows "\<exists>d'. MT9V034_power_on mm cam junk d =
      (map (\<lambda>r. (r, cr r chip)) camera_check,
       FPGARegisters_setRegisterValue mm (sn_registers (mt_sensor cam)) CONTROL 1 d') \<and>
    R d' (s\<lparr>ic_chip := chip\<rparr>)"
proof -
  let ?bus = "mt_i2c_bus cam"
  obtain d1 where 1: "write_all mm ?bus camera_setup d = d1" "txlag d1 \<le> 10" "R d1 (s\<lparr>ic_chip := chip\<rparr>)"
    using write_all_refines [OF assms(1-4), of camera_setup] assms(6) by blast
  with read_all_refines [OF assms(1) 1(3,2), of camera_check junk] assms(4,5) show ?thesis
    by (auto simp: power_on_eq)
qed

theorem power_on_configures_chip_witness:
  "fst (MT9V034_power_on (demo_controller 0x40000000 0x48) demo_camera 0 demo_chip_state) =
     [(0xB2, 0), (0xB6, 1), (0xB1, 0), (0x20, 0x03C7), (0x7F, 0x1313)]"
proof -
  have doc: "documented_iic (demo_controller 0x40000000 0x48) (mapped_dev_base (i2c_mem (mt_i2c_bus demo_camera)))
      (deviceAddress (mt_i2c_bus demo_camera)) (\<lambda>r v c. c(r := v)) (\<lambda>r c. c r) (\<lambda>d s. fst d = s) snd snd"
    using demo_controller_documented [of "0x40000000" "0x48"] by (simp add: demo_camera_def demo_bus_def)
  have "snd demo_chip_state \<le> 10" "ic_frame (fst demo_chip_state) = []" "ic_rx (fst demo_chip_state) = []"
    by (simp_all add: demo_chip_state_def)
  from power_on_configures_chip [OF doc refl this refl, of 0] show ?thesis
    by (auto simp: camera_setup_def camera_check_def demo_chip_state_def)
qed

end
