(* ===== verification/TcpStream.thy ===== *)
theory TcpStream
  imports Prelude
begin

text \<open>
  The TCP link. \<open>TcpServer\<close> of the visensor server (xilinx/visensor-srv/src/tcp_server.hpp,
  tcp_server.cpp), its older version in slam_sensor_server/src/tcp_server.cpp, and the receiving
  client TCPtest/client.cpp. What the operating system and Boost.Asio answer (how many bytes a
  send accepted, whether an accept failed, the peer's address) are arguments. The bytes the kernel
  took on the current connection are \<open>ts_wire\<close>.
\<close>

subsection \<open>Headers and frames\<close>

record DataHeader =
  timestamp :: u32
  data_size :: u32
  data_id :: u32

text \<open>
  \<open>boost::asio::buffer(header_payload, sizeof(header_payload))\<close>: the vector's 12 bytes, cut to
  the size of the vector object (12 on the 32-bit server, 24 on a 64-bit client).
\<close>

definition header_payload :: "DataHeader \<Rightarrow> u32 list" where
  "header_payload h = [htonl (timestamp h), htonl (data_size h), htonl (data_id h)]"

definition vector_buffer :: "nat \<Rightarrow> u32 list \<Rightarrow> byte list" where
  "vector_buffer sizeof_vector v = take sizeof_vector (concat (map le32 v))"

definition send_buffers :: "DataHeader \<Rightarrow> byte list \<Rightarrow> byte list" where
  "send_buffers h data = vector_buffer 12 (header_payload h) @ take (unat (data_size h)) data"

subsection \<open>The server object\<close>

datatype send_result = Sent nat | SendError

record TcpServer =
  ts_has_connection :: bool
  ts_socket_open :: bool
  ts_accept_pending :: bool
  ts_read_pending :: bool
  ts_wire :: "byte list"
  ts_console :: "byte list"

definition TcpServer_accept_connection :: "TcpServer \<Rightarrow> TcpServer" where
  "TcpServer_accept_connection t =
     t\<lparr>ts_has_connection := False, ts_socket_open := False, ts_read_pending := False,
       ts_accept_pending := True\<rparr>"

definition TcpServer_new :: TcpServer where
  "TcpServer_new =
     TcpServer_accept_connection
       \<lparr>ts_has_connection = False, ts_socket_open = False, ts_accept_pending = False,
        ts_read_pending = False, ts_wire = [], ts_console = []\<rparr>"

text \<open>
  The completion of \<open>async_accept\<close>: Asio opens the socket and calls the handler, which throws
  when the peer is gone before \<open>remote_endpoint\<close> is asked (\<open>remote = None\<close>).
\<close>

definition TcpServer_handle_accept :: "bool \<Rightarrow> string option \<Rightarrow> TcpServer \<Rightarrow> TcpServer outcome" where
  "TcpServer_handle_accept error remote t =
     (let t1 = t\<lparr>ts_accept_pending := False\<rparr> in
      if error then Ret t1
      else let t2 = t1\<lparr>ts_socket_open := True, ts_wire := []\<rparr> in
        case remote of None \<Rightarrow> Throw ''remote_endpoint''
        | Some addr \<Rightarrow> Ret (t2\<lparr>ts_has_connection := True\<rparr>))"

definition TcpServer_read :: "TcpServer \<Rightarrow> TcpServer" where
  "TcpServer_read t = t\<lparr>ts_read_pending := True\<rparr>"

definition TcpServer_handle_read :: "bool \<Rightarrow> byte list \<Rightarrow> TcpServer \<Rightarrow> TcpServer" where
  "TcpServer_handle_read error received t =
     (let t1 = t\<lparr>ts_read_pending := False\<rparr> in
      if error then TcpServer_accept_connection t1
      else TcpServer_read (t1\<lparr>ts_console := ts_console t1 @ received\<rparr>))"

text \<open>\<open>socket_.send\<close> may take only a part of the buffers; the byte count it returns is not
  used.\<close>

definition TcpServer_send_data :: "byte list \<Rightarrow> DataHeader \<Rightarrow> send_result \<Rightarrow> TcpServer \<Rightarrow> TcpServer" where
  "TcpServer_send_data data header result t =
     (case result of
        Sent n \<Rightarrow> t\<lparr>ts_wire := ts_wire t @ take n (send_buffers header data)\<rparr>
      | SendError \<Rightarrow> TcpServer_accept_connection t)"

text \<open>The slam server sends only the data, with \<open>write\<close> until all of it is transferred. When that fails, as it does on a closed
  socket, the connection is given up, with whatever part of the data was taken.\<close>

definition slam_TcpServer_new :: TcpServer where
  "slam_TcpServer_new =
     TcpServer_accept_connection
       \<lparr>ts_has_connection = False, ts_socket_open = False, ts_accept_pending = False,
        ts_read_pending = False, ts_wire = [], ts_console = []\<rparr>"

definition slam_TcpServer_handle_accept :: "bool \<Rightarrow> string option \<Rightarrow> TcpServer \<Rightarrow> TcpServer outcome" where
  "slam_TcpServer_handle_accept error remote t =
     (let t1 = t\<lparr>ts_accept_pending := False\<rparr> in
      if error then Ret t1
      else let t2 = t1\<lparr>ts_socket_open := True, ts_wire := []\<rparr> in
        case remote of None \<Rightarrow> Throw ''remote_endpoint''
        | Some addr \<Rightarrow> Ret (t2\<lparr>ts_has_connection := True\<rparr>))"

definition slam_TcpServer_send_data :: "byte list \<Rightarrow> bool \<Rightarrow> TcpServer \<Rightarrow> TcpServer" where
  "slam_TcpServer_send_data data ok t =
     (if ok \<and> ts_socket_open t then t\<lparr>ts_wire := ts_wire t @ data\<rparr> else TcpServer_accept_connection t)"

text \<open>\<open>getEndpoint\<close> asks the socket for its peer, which throws when there is none any more.\<close>

definition slam_getEndpoint :: "string option \<Rightarrow> TcpServer \<Rightarrow> string outcome" where
  "slam_getEndpoint remote t =
     (if ts_socket_open t then case remote of Some addr \<Rightarrow> Ret addr | None \<Rightarrow> Throw ''remote_endpoint''
      else Throw ''remote_endpoint'')"

subsection \<open>The client\<close>

definition CLIENT_IMAGE_SIZE :: nat where "CLIENT_IMAGE_SIZE = 360960"

definition read_header :: "byte list \<Rightarrow> DataHeader" where
  "read_header bs =
     \<lparr>timestamp = ntohl (cat32 (bs ! 0) (bs ! 1) (bs ! 2) (bs ! 3)),
      data_size = ntohl (cat32 (bs ! 4) (bs ! 5) (bs ! 6) (bs ! 7)),
      data_id = ntohl (cat32 (bs ! 8) (bs ! 9) (bs ! 10) (bs ! 11))\<rparr>"

definition known_id :: "u32 \<Rightarrow> bool" where
  "known_id i \<longleftrightarrow> i = 100 \<or> i = 101 \<or> i = 102 \<or> i = 103 \<or> i = 10"

text \<open>
  One pass of the client's loop gives an event: an image shown (the whole buffer, of which the
  payload filled the front), a payload that was read and dropped, an unknown identifier, or the
  end of the connection.
\<close>

datatype client_event = Shown DataHeader "byte list" | Dropped DataHeader "byte list" | Unknown DataHeader | Closed

definition client_dispatch :: "byte list \<Rightarrow> DataHeader \<Rightarrow> byte list \<Rightarrow> client_event" where
  "client_dispatch buf h payload =
     (if data_id h = 100 then Shown h (payload @ drop (length payload) buf)
      else if known_id (data_id h) then Dropped h payload
      else Unknown h)"

text \<open>
  The receive loop over all the bytes the connection will deliver. \<open>boost::asio::read\<close> fills
  the buffer or stops at the end of the stream; \<open>buffer(buf, data_size)\<close> of an array never
  exceeds the array. The error code of a payload read is not tested. The array is a local variable of the pass without
  an initial value: \<open>buf k\<close> is what it holds at the beginning of pass \<open>k\<close>.
\<close>

function client_loop :: "(nat \<Rightarrow> byte list) \<Rightarrow> byte list \<Rightarrow> client_event list" where
  "client_loop buf s =
     (if length s < 12 then [Closed]
      else
        let h = read_header (take 12 s);
            n = (if known_id (data_id h) then min (unat (data_size h)) CLIENT_IMAGE_SIZE else 0);
            payload = take n (drop 12 s)
        in client_dispatch (buf 0) h payload # client_loop (\<lambda>k. buf (Suc k)) (drop n (drop 12 s)))"
  by pat_completeness auto
termination
  by (relation "measure (\<lambda>(buf, s). length s)") auto

declare client_loop.simps [simp del]

text \<open>The frames a server sends and what the client should make of each.\<close>

definition frame_ok :: "DataHeader \<times> byte list \<Rightarrow> bool" where
  "frame_ok f \<longleftrightarrow> length (snd f) = unat (data_size (fst f)) \<and> length (snd f) \<le> CLIENT_IMAGE_SIZE \<and>
     known_id (data_id (fst f))"

subsection \<open>Lemmas on frames\<close>

lemma header_bytes: "vector_buffer 12 (header_payload h) = be32 (timestamp h) @ be32 (data_size h) @ be32 (data_id h)"
  by (simp add: vector_buffer_def header_payload_def le32_htonl)

lemma length_header [simp]: "length (vector_buffer 12 (header_payload h)) = 12"
  by (simp add: header_bytes)

lemma read_header_bytes [simp]: "read_header (vector_buffer 12 (header_payload h)) = h"
  by (simp add: read_header_def vector_buffer_def header_payload_def le32_def)

text \<open>One pass of the client at a frame boundary, whatever follows the header.\<close>

lemma client_loop_header:
  "client_loop buf (vector_buffer 12 (header_payload h) @ s) =
     (let n = (if known_id (data_id h) then min (unat (data_size h)) CLIENT_IMAGE_SIZE else 0)
      in client_dispatch (buf 0) h (take n s) # client_loop (\<lambda>k. buf (Suc k)) (drop n s))"
  by (subst client_loop.simps) (simp add: Let_def)

lemma client_loop_frame:
  assumes "frame_ok (h, data)"
  shows "client_loop buf (send_buffers h data @ s) = client_dispatch (buf 0) h data # client_loop (\<lambda>k. buf (Suc k)) s"
  using assms by (simp add: send_buffers_def client_loop_header frame_ok_def)

lemma client_loop_end [simp]: "client_loop buf [] = [Closed]"
  by (subst client_loop.simps) simp

lemma client_loop_frames:
  "list_all frame_ok fs \<Longrightarrow>
   client_loop buf (concat (map (\<lambda>(h, data). send_buffers h data) fs) @ s) =
     map (\<lambda>k. client_dispatch (buf k) (fst (fs ! k)) (snd (fs ! k))) [0..<length fs] @
     client_loop (\<lambda>k. buf (length fs + k)) s"
proof (induction fs arbitrary: buf)
  case (Cons f fs)
  have "[0..<length (f # fs)] = 0 # map Suc [0..<length fs]"
    by (metis length_Cons map_Suc_upt upt_conv_Cons zero_less_Suc)
  with Cons show ?case by (cases f) (simp add: client_loop_frame comp_def del: upt_Suc)
qed simp

lemma client_dispatch_ok: "frame_ok (h, data) \<Longrightarrow> client_dispatch buf h data \<noteq> Closed"
  by (simp add: client_dispatch_def)

text \<open>A sequence of sends that all took the whole frame.\<close>

fun send_frames :: "(DataHeader \<times> byte list) list \<Rightarrow> TcpServer \<Rightarrow> TcpServer" where
  "send_frames [] t = t"
| "send_frames ((h, data) # fs) t =
     send_frames fs (TcpServer_send_data data h (Sent (length (send_buffers h data))) t)"

lemma ts_wire_send_frames:
  "ts_wire (send_frames fs t) = ts_wire t @ concat (map (\<lambda>(h, data). send_buffers h data) fs)"
  by (induction fs t rule: send_frames.induct) (auto simp: TcpServer_send_data_def)

text \<open>Construction and accepting are the same in both servers.\<close>

lemma slam_server_same:
  "slam_TcpServer_new = TcpServer_new" "slam_TcpServer_handle_accept = TcpServer_handle_accept"
  by (simp add: slam_TcpServer_new_def TcpServer_new_def)
    (simp add: fun_eq_iff slam_TcpServer_handle_accept_def TcpServer_handle_accept_def)

subsection \<open>Properties of the link\<close>

text \<open>C4: End to end, when every send takes its whole frame, the client reports exactly the
  frames that were sent, in order and with their payloads, and then the end of the connection:
  header encoding in network order and decoding, and the framing by size, invert each other.\<close>

theorem client_receives_frames:
  assumes "list_all frame_ok fs" and "ts_wire t = []"
  shows "client_loop buf (ts_wire (send_frames fs t)) =
    map (\<lambda>k. client_dispatch (buf k) (fst (fs ! k)) (snd (fs ! k))) [0..<length fs] @ [Closed]"
  using client_loop_frames [OF assms(1), of buf "[]"] assms(2) by (simp add: ts_wire_send_frames)

theorem client_receives_frames_witness:
  "client_loop (\<lambda>k. [of_nat k, 0, of_nat k]) (ts_wire (send_frames
     [(\<lparr>timestamp = 0, data_size = 2, data_id = 100\<rparr>, [7, 8]), (\<lparr>timestamp = 5, data_size = 1, data_id = 101\<rparr>, [9])]
     TcpServer_new)) =
   [Shown \<lparr>timestamp = 0, data_size = 2, data_id = 100\<rparr> [7, 8, 0],
    Dropped \<lparr>timestamp = 5, data_size = 1, data_id = 101\<rparr> [9], Closed]"
proof -
  have "list_all frame_ok [(\<lparr>timestamp = 0, data_size = 2, data_id = 100\<rparr>, [7, 8]),
      (\<lparr>timestamp = 5, data_size = 1, data_id = 101\<rparr>, [9])]" "ts_wire TcpServer_new = []"
    by (simp_all add: frame_ok_def CLIENT_IMAGE_SIZE_def known_id_def TcpServer_new_def
        TcpServer_accept_connection_def)
  from client_receives_frames [OF this, of "\<lambda>k. [of_nat k, 0, of_nat k]"] show ?thesis
    by (simp add: client_dispatch_def known_id_def)
qed

text \<open>A partial send breaks the framing: when the kernel takes only the first \<open>n\<close> bytes of a
  frame (the returned count is ignored) and later bytes follow, the client completes the payload
  with the first bytes of what follows and goes on in the middle of the next frame.\<close>

theorem partial_send_desync:
  assumes "frame_ok (h, data)" and "12 \<le> n" and "n < 12 + length data"
    and "12 + length data - n \<le> length s"
  shows "client_loop buf (take n (send_buffers h data) @ s) =
    client_dispatch (buf 0) h (take (n - 12) data @ take (12 + length data - n) s) #
      client_loop (\<lambda>k. buf (Suc k)) (drop (12 + length data - n) s)"
proof -
  have "take n (send_buffers h data) = vector_buffer 12 (header_payload h) @ take (n - 12) data"
    using assms(1,2) by (simp add: send_buffers_def frame_ok_def)
  then show ?thesis
    using assms by (simp add: client_loop_header frame_ok_def Let_def add.commute)
qed

theorem partial_send_desync_witness:
  "client_loop (\<lambda>_. []) (take 13 (send_buffers \<lparr>timestamp = 0, data_size = 2, data_id = 101\<rparr> [7, 8]) @ [1, 2]) =
     [Dropped \<lparr>timestamp = 0, data_size = 2, data_id = 101\<rparr> [7, 1], Closed]"
proof -
  have "frame_ok (\<lparr>timestamp = 0, data_size = 2, data_id = 101\<rparr>, [7, 8 :: byte])"
    by (simp add: frame_ok_def CLIENT_IMAGE_SIZE_def known_id_def)
  from partial_send_desync [OF this, where n = 13 and s = "[1, 2]" and buf = "\<lambda>_. []"] show ?thesis
    by (simp add: client_dispatch_def known_id_def client_loop.simps)
qed

text \<open>The client does not skip the payload of an identifier it does not know: it reports the
  identifier and parses the payload bytes as the next header.\<close>

theorem client_unknown_id_not_skipped:
  assumes "\<not> known_id (data_id h)"
  shows "client_loop buf (send_buffers h data @ s) =
    Unknown h # client_loop (\<lambda>k. buf (Suc k)) (take (unat (data_size h)) data @ s)"
proof -
  have "data_id h \<noteq> 100" using assms by (simp add: known_id_def)
  then show ?thesis
    using assms by (simp add: send_buffers_def client_loop_header client_dispatch_def)
qed

theorem client_unknown_id_not_skipped_witness:
  "client_loop (\<lambda>_. []) (send_buffers \<lparr>timestamp = 0, data_size = 1, data_id = 7\<rparr> [9]) =
     [Unknown \<lparr>timestamp = 0, data_size = 1, data_id = 7\<rparr>, Closed]"
proof -
  have "\<not> known_id (data_id \<lparr>timestamp = 0, data_size = 1, data_id = 7\<rparr>)" by (simp add: known_id_def)
  from client_unknown_id_not_skipped [OF this, of "\<lambda>_. []" "[9]" "[]"] show ?thesis
    by (simp add: client_loop.simps)
qed

text \<open>C26: The client's buffer is never overrun: whatever bytes arrive, every payload it stores is
  at most 360960 bytes, also when a header announces more.\<close>

theorem client_payload_bounded:
  assumes "\<And>k. length (buf k) = CLIENT_IMAGE_SIZE" and "e \<in> set (client_loop buf s)"
  shows "case e of Shown h pixels \<Rightarrow> length pixels = CLIENT_IMAGE_SIZE
    | Dropped h payload \<Rightarrow> length payload \<le> CLIENT_IMAGE_SIZE | _ \<Rightarrow> True"
  using assms
proof (induction buf s rule: client_loop.induct)
  case (1 buf s)
  show ?case
  proof (cases "length s < 12")
    case True
    then have "client_loop buf s = [Closed]" by (subst client_loop.simps) simp
    with "1.prems" show ?thesis by simp
  next
    case False
    define h where "h = read_header (take 12 s)"
    define n where "n = (if known_id (data_id h) then min (unat (data_size h)) CLIENT_IMAGE_SIZE else 0)"
    have eq: "client_loop buf s = client_dispatch (buf 0) h (take n (drop 12 s)) #
        client_loop (\<lambda>k. buf (Suc k)) (drop n (drop 12 s))"
      using False by (subst client_loop.simps) (simp add: Let_def h_def n_def)
    have n: "n \<le> CLIENT_IMAGE_SIZE" by (simp add: n_def)
    show ?thesis
    proof (cases "e \<in> set (client_loop (\<lambda>k. buf (Suc k)) (drop n (drop 12 s)))")
      case True
      then show ?thesis
        using "1.IH" [OF False h_def n_def refl] "1.prems"(1) by simp
    next
      case False
      with "1.prems" eq have "e = client_dispatch (buf 0) h (take n (drop 12 s))" by simp
      with n "1.prems"(1) show ?thesis by (auto simp: client_dispatch_def)
    qed
  qed
qed

theorem client_payload_bounded_witness:
  "\<exists>pixels. client_loop (\<lambda>_. replicate CLIENT_IMAGE_SIZE 0) (send_buffers \<lparr>timestamp = 0, data_size = 1, data_id = 100\<rparr> [9]) =
       [Shown \<lparr>timestamp = 0, data_size = 1, data_id = 100\<rparr> pixels, Closed] \<and> length pixels = CLIENT_IMAGE_SIZE"
proof -
  let ?buf = "\<lambda>_ :: nat. replicate CLIENT_IMAGE_SIZE 0 :: byte list" and ?h = "\<lparr>timestamp = 0, data_size = 1, data_id = 100\<rparr>"
  have "frame_ok (?h, [9 :: byte])" by (simp add: frame_ok_def CLIENT_IMAGE_SIZE_def known_id_def)
  from client_loop_frame [OF this, of ?buf "[]"]
  have run: "client_loop ?buf (send_buffers ?h [9]) = [Shown ?h ([9] @ drop 1 (?buf 0)), Closed]"
    by (simp add: client_dispatch_def)
  have "\<And>k. length (?buf k) = CLIENT_IMAGE_SIZE" by simp
  from client_payload_bounded [OF this, of "Shown ?h ([9] @ drop 1 (?buf 0))" "send_buffers ?h [9]"] run
  show ?thesis by auto
qed

end
