(* ===== verification/TcpThreads.thy ===== *)
theory TcpThreads
  imports TcpStream Transitions
begin

text \<open>
  The TCP server with its two threads. The main thread polls \<open>has_connection_\<close> and sends; when a
  send fails it runs the statements of \<open>accept_connection\<close>. The I/O thread completes the pending
  accept and runs \<open>handle_accept\<close>. Both touch \<open>has_connection_\<close> and the socket without a lock,
  so the statements of \<open>accept_connection\<close> are separate steps here. The two versions of the
  function differ in the place of the statement that clears the flag:
  xilinx/visensor-srv/src/tcp_server.cpp clears it first, slam_sensor_server/src/tcp_server.cpp
  last.
\<close>

subsection \<open>Definitions\<close>

datatype stmt = ClearFlag | CloseSocket | AsyncAccept

definition accept_connection_stmts :: "stmt list" where
  "accept_connection_stmts = [ClearFlag, CloseSocket, AsyncAccept]"

definition slam_accept_connection_stmts :: "stmt list" where
  "slam_accept_connection_stmts = [CloseSocket, AsyncAccept, ClearFlag]"

text \<open>The I/O thread: no accept outstanding, one outstanding, or one completed whose handler has
  not run yet.\<close>

datatype io_state = NoAccept | Accepting | Accepted

record threads =
  th_flag :: bool
  th_socket :: bool
  th_io :: io_state
  th_todo :: "stmt list"

fun exec_stmt :: "stmt \<Rightarrow> threads \<Rightarrow> threads" where
  "exec_stmt ClearFlag c = c\<lparr>th_flag := False\<rparr>"
| "exec_stmt CloseSocket c = c\<lparr>th_socket := False\<rparr>"
| "exec_stmt AsyncAccept c = c\<lparr>th_io := Accepting\<rparr>"

inductive thread_step :: "stmt list \<Rightarrow> threads \<Rightarrow> threads \<Rightarrow> bool" for prog where
  main_stmt: "th_todo c = s # rest \<Longrightarrow> thread_step prog c (exec_stmt s (c\<lparr>th_todo := rest\<rparr>))"
| main_send_fails: "th_todo c = [] \<Longrightarrow> th_flag c \<Longrightarrow> thread_step prog c (c\<lparr>th_todo := prog\<rparr>)"
| io_accepts: "th_io c = Accepting \<Longrightarrow> thread_step prog c (c\<lparr>th_io := Accepted, th_socket := True\<rparr>)"
| io_accept_fails: "th_io c = Accepting \<Longrightarrow> thread_step prog c (c\<lparr>th_io := NoAccept\<rparr>)"
| io_handler: "th_io c = Accepted \<Longrightarrow> thread_step prog c (c\<lparr>th_io := NoAccept, th_flag := True\<rparr>)"

text \<open>After the constructor, before the I/O thread is started: the first accept is outstanding.\<close>

definition threads_init :: threads where
  "threads_init = \<lparr>th_flag = False, th_socket = False, th_io = Accepting, th_todo = []\<rparr>"

abbreviation thread_reach :: "stmt list \<Rightarrow> threads \<Rightarrow> bool" where
  "thread_reach prog \<equiv> reachable (\<lambda>c. c = threads_init) (thread_step prog)"

text \<open>A connected client that the server will never serve: the socket is open, no handler will
  run any more, the main thread is back in its loop, and the flag is down.\<close>

definition lost_connection :: "threads \<Rightarrow> bool" where
  "lost_connection c \<longleftrightarrow> th_socket c \<and> \<not> th_flag c \<and> th_io c = NoAccept \<and> th_todo c = []"

text \<open>The same pieces on the whole state of a server, for the models of the two programs: a statement of \<open>accept_connection\<close>,
  the completion of the accept by the kernel, and the handler that is called for it. A failed accept may leave the socket
  open or not.\<close>

fun tcp_stmt :: "stmt \<Rightarrow> TcpServer \<Rightarrow> TcpServer" where
  "tcp_stmt ClearFlag t = t\<lparr>ts_has_connection := False\<rparr>"
| "tcp_stmt CloseSocket t = t\<lparr>ts_socket_open := False, ts_read_pending := False\<rparr>"
| "tcp_stmt AsyncAccept t = t\<lparr>ts_accept_pending := True\<rparr>"

definition accept_completes :: "bool \<Rightarrow> bool \<Rightarrow> TcpServer \<Rightarrow> TcpServer" where
  "accept_completes error opened t =
     t\<lparr>ts_accept_pending := False, ts_socket_open := (\<not> error \<or> opened),
       ts_wire := (if error then ts_wire t else [])\<rparr>"

definition handle_accept_body :: "bool \<Rightarrow> string option \<Rightarrow> TcpServer \<Rightarrow> TcpServer outcome" where
  "handle_accept_body error remote t =
     (if error then Ret t
      else case remote of None \<Rightarrow> Throw ''remote_endpoint'' | Some addr \<Rightarrow> Ret (t\<lparr>ts_has_connection := True\<rparr>))"

inductive_cases thread_stepE: "thread_step prog c c'"

subsection \<open>The invariant of the visensor server\<close>

definition threads_inv :: "threads \<Rightarrow> bool" where
  "threads_inv c \<longleftrightarrow>
     (th_todo c = [] \<and> (th_flag c \<longrightarrow> th_socket c \<and> th_io c = NoAccept) \<and>
        (th_socket c \<and> th_io c = NoAccept \<longrightarrow> th_flag c) \<and> (th_io c = Accepted \<longrightarrow> th_socket c)
        \<and> (th_io c = Accepting \<longrightarrow> \<not> th_socket c)) \<or>
     (th_io c = NoAccept \<and>
        (th_todo c = [ClearFlag, CloseSocket, AsyncAccept] \<or>
         th_todo c = [CloseSocket, AsyncAccept] \<and> \<not> th_flag c \<or>
         th_todo c = [AsyncAccept] \<and> \<not> th_flag c \<and> \<not> th_socket c))"

lemma threads_inv_init: "threads_inv threads_init"
  by (simp add: threads_inv_def threads_init_def)

lemma threads_inv_step:
  assumes "thread_step accept_connection_stmts c c'" and "threads_inv c"
  shows "threads_inv c'"
  using assms
  by (cases rule: thread_step.cases) (auto simp: threads_inv_def accept_connection_stmts_def)

interpretation visensor_threads: invariant_system "\<lambda>c. c = threads_init" "thread_step accept_connection_stmts" threads_inv
  by unfold_locales (auto intro: threads_inv_init threads_inv_step)

subsection \<open>Properties of the threads\<close>

text \<open>Run without interleaving, the pieces make up the sequential functions of \<open>TcpStream\<close>.\<close>

lemma fold_tcp_stmt:
  "fold tcp_stmt accept_connection_stmts t = TcpServer_accept_connection t"
  "fold tcp_stmt slam_accept_connection_stmts t = TcpServer_accept_connection t"
  by (simp_all add: accept_connection_stmts_def slam_accept_connection_stmts_def TcpServer_accept_connection_def)

text \<open>C5: In the visensor server no interleaving of the two threads loses a connection, and the
  main thread only ever sees the flag up with the socket open and no accept outstanding.\<close>

theorem visensor_no_lost_connection:
  assumes "thread_reach accept_connection_stmts c"
  shows "\<not> lost_connection c \<and> (th_todo c = [] \<and> th_flag c \<longrightarrow> th_socket c \<and> th_io c = NoAccept)"
  using visensor_threads.reach_inv [OF assms] by (auto simp: threads_inv_def lost_connection_def)

theorem visensor_no_lost_connection_witness:
  "\<not> lost_connection \<lparr>th_flag = True, th_socket = True, th_io = NoAccept, th_todo = []\<rparr>"
proof -
  let ?p = accept_connection_stmts
  have "thread_reach ?p threads_init" by (rule reach_init) simp
  from reach_step [OF this thread_step.io_accepts]
  have "thread_reach ?p \<lparr>th_flag = False, th_socket = True, th_io = Accepted, th_todo = []\<rparr>"
    by (simp add: threads_init_def)
  from reach_step [OF this thread_step.io_handler]
  have "thread_reach ?p \<lparr>th_flag = True, th_socket = True, th_io = NoAccept, th_todo = []\<rparr>" by simp
  from visensor_no_lost_connection [OF this] show ?thesis by simp
qed

text \<open>C21: In the slam server the order of the statements has a race: when a client reconnects
  between \<open>async_accept\<close> and the clearing of the flag, the server ends in a state with an open
  connection and the flag down, from which neither thread can take a step.\<close>

theorem slam_loses_connection:
  "\<exists>c. thread_reach slam_accept_connection_stmts c \<and> lost_connection c \<and>
       (\<forall>c'. \<not> thread_step slam_accept_connection_stmts c c')"
proof -
  let ?p = slam_accept_connection_stmts
  let ?st = "\<lambda>f s i t. \<lparr>th_flag = f, th_socket = s, th_io = i, th_todo = t\<rparr>"
  note step = reach_step
  have "thread_reach ?p (?st False False Accepting [])"
    using reach_init [of "\<lambda>c. c = threads_init" threads_init "thread_step ?p"] by (simp add: threads_init_def)
  from step [OF this thread_step.io_accepts] have "thread_reach ?p (?st False True Accepted [])" by simp
  from step [OF this thread_step.io_handler] have "thread_reach ?p (?st True True NoAccept [])" by simp
  from step [OF this thread_step.main_send_fails]
  have "thread_reach ?p (?st True True NoAccept [CloseSocket, AsyncAccept, ClearFlag])"
    by (simp add: slam_accept_connection_stmts_def)
  from step [OF this thread_step.main_stmt] have "thread_reach ?p (?st True False NoAccept [AsyncAccept, ClearFlag])"
    by simp
  from step [OF this thread_step.main_stmt] have "thread_reach ?p (?st True False Accepting [ClearFlag])" by simp
  from step [OF this thread_step.io_accepts] have "thread_reach ?p (?st True True Accepted [ClearFlag])" by simp
  from step [OF this thread_step.io_handler] have "thread_reach ?p (?st True True NoAccept [ClearFlag])" by simp
  from step [OF this thread_step.main_stmt] have "thread_reach ?p (?st False True NoAccept [])" by simp
  moreover have "lost_connection (?st False True NoAccept [])" by (simp add: lost_connection_def)
  moreover have "\<not> thread_step ?p (?st False True NoAccept []) c'" for c'
    by (auto elim: thread_stepE)
  ultimately show ?thesis by blast
qed

text \<open>A failed accept stops either server for good: the handler returns without starting a new
  accept, and the state reached has no further step.\<close>

theorem accept_error_stops_server:
  "\<exists>c. thread_step prog threads_init c \<and> \<not> th_socket c \<and> \<not> th_flag c \<and> (\<forall>c'. \<not> thread_step prog c c')"
proof -
  let ?c = "threads_init\<lparr>th_io := NoAccept\<rparr>"
  have "thread_step prog threads_init ?c"
    by (rule thread_step.io_accept_fails) (simp add: threads_init_def)
  moreover have "\<not> thread_step prog ?c c'" for c'
    by (auto elim!: thread_stepE simp: threads_init_def)
  ultimately show ?thesis by (intro exI [of _ ?c]) (simp add: threads_init_def)
qed

end
