(* ===== verification/UdpStream.thy ===== *)
theory UdpStream
  imports Prelude
begin

text \<open>
  Images over UDP: \<open>UdpServer::send_data\<close> cuts an image into numbered datagrams
  (slam_sensor_server/src/udp_server.cpp, and xilinx/visensor-srv/src/udp_server.cpp with its own
  \<open>IMAGE_SIZE\<close> of 1500), test_client/client.cpp receives them. What \<open>send_to\<close> returns is the
  parameter \<open>net\<close> (\<open>None\<close>: it throws). The send loop ends only if the network makes progress, so it
  is a \<open>partial_function\<close> and its termination is proved for a network that sends whole
  datagrams.
\<close>

subsection \<open>The sender\<close>

definition MAX_PAKET_SIZE :: u32 where "MAX_PAKET_SIZE = 1500"

text \<open>\<open>std::min\<close> on \<open>int\<close>.\<close>

definition min_int :: "u32 \<Rightarrow> u32 \<Rightarrow> u32" where
  "min_int a b = (if b <s a then b else a)"

text \<open>The result: whether \<open>send_data\<close> returned normally (not by an exception), and the datagrams
  handed to \<open>send_to\<close>.\<close>

partial_function (option) udp_send_loop ::
  "(nat \<Rightarrow> byte list \<Rightarrow> u32 option) \<Rightarrow> u32 \<Rightarrow> mem \<Rightarrow> u32 \<Rightarrow> u32 \<Rightarrow> u32 \<Rightarrow> u32 \<Rightarrow> byte list list
     \<Rightarrow> (bool \<times> byte list list) option" where
  "udp_send_loop net cam m number curpos sendlen remlen out =
     (if remlen > 0 then
        (let packet = le32 cam @ le32 number @ load_bytes m curpos (unat sendlen) in
         case net (length out) packet of
           None \<Rightarrow> Some (False, out @ [packet])
         | Some len \<Rightarrow>
             if len = - 1 then Some (True, out @ [packet])
             else udp_send_loop net cam m (number + 1) (curpos + (len - 8))
                    (min_int (remlen - (len - 8)) MAX_PAKET_SIZE) (remlen - (len - 8)) (out @ [packet]))
      else Some (True, out))"

definition UdpServer_send_data ::
  "(nat \<Rightarrow> byte list \<Rightarrow> u32 option) \<Rightarrow> u32 \<Rightarrow> u32 \<Rightarrow> u32 \<Rightarrow> mem \<Rightarrow> (bool \<times> byte list list) option" where
  "UdpServer_send_data net cam data sz m =
     udp_send_loop net cam m 0 data (min_int sz MAX_PAKET_SIZE) sz []"

definition visensor_UdpServer_send_data ::
  "(nat \<Rightarrow> byte list \<Rightarrow> u32 option) \<Rightarrow> u32 \<Rightarrow> u32 \<Rightarrow> mem \<Rightarrow> (bool \<times> byte list list) option" where
  "visensor_UdpServer_send_data net cam data m =
     udp_send_loop net cam m 0 data (min_int 1500 MAX_PAKET_SIZE) 1500 []"

subsection \<open>The receiver\<close>

record udp_client =
  uc_image :: "byte list list"
  uc_counter :: "u32 list"

datatype udp_message = CompleteImage u32 u32 | PackagesLost u32 u32

definition udp_client_init :: "byte list list \<Rightarrow> udp_client" where
  "udp_client_init images = \<lparr>uc_image = images, uc_counter = [0, 0]\<rparr>"

text \<open>
  One pass of the receive loop for a datagram (cut to the 1600-byte buffer). A datagram shorter
  than its header, or with a camera number other than 0 and 1, makes the source write outside its
  arrays: \<open>None\<close>.
\<close>

definition udp_client_receive :: "byte list \<Rightarrow> udp_client \<Rightarrow> (udp_client \<times> udp_message list) option" where
  "udp_client_receive datagram c =
     (let buf = take 1600 datagram;
          cam_number = cat32 (buf ! 0) (buf ! 1) (buf ! 2) (buf ! 3);
          package_number = cat32 (buf ! 4) (buf ! 5) (buf ! 6) (buf ! 7);
          cam = unat cam_number;
          payload = drop 8 buf
      in if length buf < 8 \<or> 2 \<le> cam then None
         else
           let c1 = c\<lparr>uc_image := (uc_image c)[cam := payload @ drop (length payload) (uc_image c ! cam)]\<rparr>
           in if 240 <=s package_number
              then Some (c1\<lparr>uc_counter := (uc_counter c1)[cam := 0]\<rparr>,
                         CompleteImage cam_number package_number #
                         (if uc_counter c1 ! cam \<noteq> package_number
                          then [PackagesLost (uc_counter c1 ! cam) package_number] else []))
              else Some (c1\<lparr>uc_counter := (uc_counter c1)[cam := uc_counter c1 ! cam + 1]\<rparr>, []))"

fun udp_client_run :: "byte list list \<Rightarrow> udp_client \<Rightarrow> (udp_client \<times> udp_message list) option" where
  "udp_client_run [] c = Some (c, [])"
| "udp_client_run (p # ps) c =
     (case udp_client_receive p c of None \<Rightarrow> None
      | Some (c1, e1) \<Rightarrow> (case udp_client_run ps c1 of None \<Rightarrow> None
                          | Some (c2, e2) \<Rightarrow> Some (c2, e1 @ e2)))"

subsection \<open>The packet sequence as a specification\<close>

function chunks :: "nat \<Rightarrow> 'a list \<Rightarrow> 'a list list" where
  "chunks n xs = (if xs = [] \<or> n = 0 then [] else take n xs # chunks n (drop n xs))"
  by pat_completeness auto
termination
  by (relation "measure (\<lambda>(n, xs). length xs)") auto

declare chunks.simps [simp del]

fun packets :: "u32 \<Rightarrow> nat \<Rightarrow> byte list list \<Rightarrow> byte list list" where
  "packets cam k [] = []"
| "packets cam k (c # cs) = (le32 cam @ le32 (of_nat k) @ c) # packets cam (Suc k) cs"

text \<open>A network that sends every datagram whole, as UDP sockets do.\<close>

definition whole_datagrams :: "(nat \<Rightarrow> byte list \<Rightarrow> u32 option) \<Rightarrow> bool" where
  "whole_datagrams net \<longleftrightarrow> (\<forall>k p. net k p = Some (of_nat (length p)))"

text \<open>What one \<open>memcpy\<close> to the start of the image leaves there.\<close>

definition overlay :: "byte list \<Rightarrow> byte list \<Rightarrow> byte list" where
  "overlay payload img = payload @ drop (length payload) img"

definition demo_udp_client :: udp_client where
  "demo_udp_client = udp_client_init [replicate 360960 0, replicate 360960 0]"

definition demo_net :: "nat \<Rightarrow> byte list \<Rightarrow> u32 option" where
  "demo_net k p = Some (of_nat (length p))"

subsection \<open>Lemmas on chunks\<close>

lemma chunks_Nil [simp]: "chunks n [] = []"
  by (subst chunks.simps) simp

lemma chunks_step: "xs \<noteq> [] \<Longrightarrow> 0 < n \<Longrightarrow> chunks n xs = take n xs # chunks n (drop n xs)"
  by (subst chunks.simps) simp

lemma concat_chunks: "0 < n \<Longrightarrow> concat (chunks n xs) = xs"
proof (induction n xs rule: chunks.induct)
  case (1 n xs)
  then show ?case by (cases "xs = []") (simp_all add: chunks_step)
qed

lemma length_chunks: "0 < n \<Longrightarrow> length (chunks n xs) = (length xs + n - 1) div n"
proof (induction n xs rule: chunks.induct)
  case (1 n xs)
  show ?case
  proof (cases "xs = []")
    case False
    with "1" have IH: "length (chunks n (drop n xs)) = (length xs - n + n - 1) div n" by simp
    from False obtain k where k: "length xs = Suc k" by (cases xs) auto
    have "(length xs + n - 1) div n = Suc ((length xs - 1) div n)"
      using "1.prems" by (simp add: k div_add_self2)
    with False "1.prems" IH show ?thesis
      by (cases "n \<le> length xs") (simp_all add: chunks_step)
  qed (use "1.prems" in simp)
qed

lemma nth_chunks: "0 < n \<Longrightarrow> i < length (chunks n xs) \<Longrightarrow> chunks n xs ! i = take n (drop (i * n) xs)"
proof (induction n xs arbitrary: i rule: chunks.induct)
  case (1 n xs)
  then have "xs \<noteq> []" by auto
  with "1" show ?case by (cases i) (simp_all add: chunks_step add.commute)
qed

lemma length_packets [simp]: "length (packets cam k cs) = length cs"
  by (induction cs arbitrary: k) auto

lemma nth_packets: "i < length cs \<Longrightarrow> packets cam k cs ! i = le32 cam @ le32 (of_nat (k + i)) @ cs ! i"
  by (induction cs arbitrary: k i) (auto simp: nth_Cons')

subsection \<open>The sender on a network that sends whole datagrams\<close>

lemma unat_min_int:
  "unat x < 2 ^ 31 \<Longrightarrow> unat (min_int x MAX_PAKET_SIZE) = min (unat x) 1500"
  by (simp add: min_int_def MAX_PAKET_SIZE_def sless_small)

lemma udp_send_loop_whole:
  assumes "whole_datagrams net" and "unat remlen < 2 ^ 31"
  shows "udp_send_loop net cam m (of_nat k) curpos (min_int remlen MAX_PAKET_SIZE) remlen out =
         Some (True, out @ packets cam k (chunks 1500 (load_bytes m curpos (unat remlen))))"
  using assms(2)
proof (induction "unat remlen" arbitrary: remlen k curpos out rule: less_induct)
  case less
  show ?case
  proof (cases "remlen = 0")
    case True
    then show ?thesis by (simp add: udp_send_loop.simps)
  next
    case False
    define n where "n = min (unat remlen) 1500"
    have n: "0 < n" "n \<le> 1500" "n \<le> unat remlen"
      using False by (auto simp: n_def unat_gt_0)
    define rest where "rest = remlen - of_nat n"
    have un: "unat (of_nat n :: u32) = n" using n by (simp add: unat_of_nat)
    then have le: "of_nat n \<le> remlen" using n by (simp add: word_le_nat_alt)
    have rest: "unat rest = unat remlen - n"
      unfolding rest_def by (simp add: unat_sub [OF le] un)
    have not_m1: "(of_nat (8 + n) :: u32) \<noteq> - 1"
    proof
      assume "(of_nat (8 + n) :: u32) = - 1"
      then have "unat (of_nat (8 + n) :: u32) = unat (- 1 :: u32)" by (simp only:)
      moreover have "unat (of_nat (8 + n) :: u32) = 8 + n"
        using n by (simp add: unat_of_nat del: of_nat_add)
      moreover have "unat (- 1 :: u32) = 2 ^ 32 - 1" by (simp add: unsigned_minus_1_eq_mask mask_eq_exp_minus_1)
      ultimately show False using n by simp
    qed
    let ?p = "le32 cam @ le32 (of_nat k) @ load_bytes m curpos n"
    have net: "net j ?p = Some (of_nat (8 + n))" for j
      using assms(1) by (simp add: whole_datagrams_def)
    have IH: "udp_send_loop net cam m (of_nat (Suc k)) (curpos + of_nat n) (min_int rest MAX_PAKET_SIZE) rest
                (out @ [?p]) =
              Some (True, (out @ [?p]) @ packets cam (Suc k)
                            (chunks 1500 (load_bytes m (curpos + of_nat n) (unat rest))))"
      using less n by (intro less.hyps) (auto simp: rest)
    have ch: "chunks 1500 (load_bytes m curpos (unat remlen)) =
              load_bytes m curpos n # chunks 1500 (load_bytes m (curpos + of_nat n) (unat rest))"
    proof -
      have "load_bytes m curpos (unat remlen) \<noteq> []"
        using n by (metis length_load_bytes list.size(3) not_gr0 le_zero_eq)
      then show ?thesis
        by (cases "unat remlen \<le> 1500") (simp_all add: chunks_step rest n_def)
    qed
    have ulen: "unat (min_int remlen MAX_PAKET_SIZE) = n" using less.prems by (simp add: unat_min_int n_def)
    have step: "udp_send_loop net cam m (of_nat k) curpos (min_int remlen MAX_PAKET_SIZE) remlen out =
          udp_send_loop net cam m (of_nat (Suc k)) (curpos + of_nat n) (min_int rest MAX_PAKET_SIZE) rest (out @ [?p])"
      using False not_m1
      by (subst udp_send_loop.simps)
         (simp add: ulen net Let_def rest_def word_neq_0_conv [symmetric] algebra_simps)
    show ?thesis unfolding step IH by (simp add: ch)
  qed
qed

lemma UdpServer_send_data_whole:
  assumes "whole_datagrams net" and "unat sz < 2 ^ 31"
  shows "UdpServer_send_data net cam data sz m =
         Some (True, packets cam 0 (chunks 1500 (load_bytes m data (unat sz))))"
  using udp_send_loop_whole [OF assms, of cam m 0 data "[]"] by (simp add: UdpServer_send_data_def)

lemma demo_net_whole [simp]: "whole_datagrams demo_net"
  by (simp add: whole_datagrams_def demo_net_def)

subsection \<open>The receiver on well-formed packets\<close>

definition udp_client_wf :: "udp_client \<Rightarrow> bool" where
  "udp_client_wf c \<longleftrightarrow> length (uc_image c) = 2 \<and> length (uc_counter c) = 2"

lemma demo_udp_client_wf [simp]: "udp_client_wf demo_udp_client"
  by (simp add: udp_client_wf_def demo_udp_client_def udp_client_init_def)

lemma udp_client_receive_packet:
  assumes "unat cam < 2" and "length p \<le> 1592"
  shows "udp_client_receive (le32 cam @ le32 number @ p) c =
    (let c1 = c\<lparr>uc_image := (uc_image c)[unat cam := overlay p (uc_image c ! unat cam)]\<rparr>
     in if 240 <=s number
        then Some (c1\<lparr>uc_counter := (uc_counter c)[unat cam := 0]\<rparr>,
                   CompleteImage cam number #
                   (if uc_counter c ! unat cam \<noteq> number
                    then [PackagesLost (uc_counter c ! unat cam) number] else []))
        else Some (c1\<lparr>uc_counter := (uc_counter c)[unat cam := uc_counter c ! unat cam + 1]\<rparr>, []))"
  using assms by (simp add: udp_client_receive_def le32_def overlay_def Let_def)

lemma udp_client_run_append:
  "udp_client_run (ps @ qs) c =
     (case udp_client_run ps c of None \<Rightarrow> None
      | Some (c1, e1) \<Rightarrow> (case udp_client_run qs c1 of None \<Rightarrow> None
                          | Some (c2, e2) \<Rightarrow> Some (c2, e1 @ e2)))"
  by (induction ps arbitrary: c) (auto split: option.splits)

text \<open>Packets below number 240 of one camera: the counter counts them, every payload lands at the
  start of the image, nothing is reported.\<close>

lemma udp_client_run_partial:
  assumes "unat cam < 2" and "udp_client_wf c"
    and "\<forall>(number, p) \<in> set nps. \<not> 240 <=s number \<and> length p \<le> 1592"
  shows "udp_client_run (map (\<lambda>(number, p). le32 cam @ le32 number @ p) nps) c =
    Some (c\<lparr>uc_image := (uc_image c)[unat cam := fold overlay (map snd nps) (uc_image c ! unat cam)],
           uc_counter := (uc_counter c)[unat cam := uc_counter c ! unat cam + of_nat (length nps)]\<rparr>, [])"
  using assms(2,3)
proof (induction nps arbitrary: c)
  case Nil
  then show ?case by simp
next
  case (Cons np nps)
  obtain number p where np: "np = (number, p)" by (cases np)
  let ?c1 = "c\<lparr>uc_image := (uc_image c)[unat cam := overlay p (uc_image c ! unat cam)],
              uc_counter := (uc_counter c)[unat cam := uc_counter c ! unat cam + 1]\<rparr>"
  have rec: "udp_client_receive (le32 cam @ le32 number @ p) c = Some (?c1, [])"
    using Cons.prems assms(1) by (simp add: udp_client_receive_packet np Let_def)
  have "udp_client_wf ?c1" using Cons.prems by (simp add: udp_client_wf_def)
  from Cons.IH [OF this] Cons.prems rec show ?case
    using assms(1) by (simp add: np udp_client_wf_def algebra_simps)
qed

lemma packets_eq_map:
  "packets cam k cs = map (\<lambda>(number, p). le32 cam @ le32 number @ p) (zip (map of_nat [k..<k + length cs]) cs)"
  by (rule nth_equalityI) (simp_all add: nth_packets)

lemma packets_append: "packets cam k (cs @ ds) = packets cam k cs @ packets cam (k + length cs) ds"
  by (induction cs arbitrary: k) auto

lemma not_240_le: "k < 240 \<Longrightarrow> \<not> 240 <=s (of_nat k :: u32)"
  by (simp add: sle_small unat_of_nat)

lemma fold_overlay:
  "cs \<noteq> [] \<Longrightarrow> (\<forall>c \<in> set cs. length c = n) \<Longrightarrow> fold overlay cs old = overlay (last cs) old"
proof (induction cs arbitrary: old)
  case (Cons c cs)
  then show ?case by (cases "cs = []") (auto simp: overlay_def)
qed simp

text \<open>An image of 360960 bytes is 240 full chunks and one of 960 bytes.\<close>

lemma image_chunks:
  assumes "length xs = 360960"
  shows "chunks 1500 xs = map (\<lambda>i. take 1500 (drop (i * 1500) xs)) [0..<240] @ [drop 360000 xs]"
proof (rule nth_equalityI)
  have len: "length (chunks 1500 xs) = 241" using assms by (simp add: length_chunks)
  then show "length (chunks 1500 xs) =
      length (map (\<lambda>i. take 1500 (drop (i * 1500) xs)) [0..<240] @ [drop 360000 xs])" by simp
  fix i assume "i < length (chunks 1500 xs)"
  with len consider "i < 240" | "i = 240" by fastforce
  then show "chunks 1500 xs ! i =
      (map (\<lambda>i. take 1500 (drop (i * 1500) xs)) [0..<240] @ [drop 360000 xs]) ! i"
    using len assms by cases (simp_all add: nth_chunks nth_append)
qed

lemma image_packets:
  assumes "length xs = 360960"
  shows "packets cam 0 (chunks 1500 xs) =
    map (\<lambda>(number, p). le32 cam @ le32 number @ p)
      (map (\<lambda>i. (of_nat i, take 1500 (drop (i * 1500) xs))) [0..<240]) @
    [le32 cam @ le32 240 @ drop 360000 xs]"
proof -
  have "zip (map of_nat [0..<240]) (map (\<lambda>i. take 1500 (drop (i * 1500) xs)) [0..<240]) =
        map (\<lambda>i. (of_nat i :: u32, take 1500 (drop (i * 1500) xs))) [0..<240]"
    by (simp only: zip_map_map zip_same_conv_map map_map comp_def case_prod_conv)
  then show ?thesis
    by (simp add: image_chunks [OF assms] packets_append packets_eq_map [of cam 0] del: upt_rec_numeral)
qed

text \<open>The client after the packets of one whole image.\<close>

lemma udp_client_image:
  assumes "length xs = 360960" and "unat cam < 2" and "udp_client_wf c" and "uc_counter c ! unat cam = 0"
  shows "udp_client_run (packets cam 0 (chunks 1500 xs)) c =
    Some (c\<lparr>uc_image := (uc_image c)[unat cam := overlay (drop 360000 xs)
                (overlay (take 1500 (drop 358500 xs)) (uc_image c ! unat cam))],
           uc_counter := (uc_counter c)[unat cam := 0]\<rparr>, [CompleteImage cam 240])"
proof -
  let ?nps = "map (\<lambda>i. (of_nat i :: u32, take 1500 (drop (i * 1500) xs))) [0..<240]"
  have ok: "\<forall>(number, p) \<in> set ?nps. \<not> 240 <=s number \<and> length p \<le> 1592"
    by (auto simp: not_240_le)
  have len: "\<forall>p \<in> set (map snd ?nps). length p = 1500"
    using assms(1) by auto
  have fold: "fold overlay (map snd ?nps) img = overlay (take 1500 (drop 358500 xs)) img" for img
    using fold_overlay [OF _ len, of img] by (simp add: last_map del: upt_rec_numeral)
  have run: "udp_client_run (map (\<lambda>(number, p). le32 cam @ le32 number @ p) ?nps) c =
    Some (c\<lparr>uc_image := (uc_image c)[unat cam := overlay (take 1500 (drop 358500 xs)) (uc_image c ! unat cam)],
           uc_counter := (uc_counter c)[unat cam := 240]\<rparr>, [])"
    using udp_client_run_partial [OF assms(2,3) ok] assms(4) by (simp only: fold) simp
  have "length (drop 360000 xs) \<le> 1592" using assms(1) by simp
  with assms(2,3) show ?thesis
    unfolding image_packets [OF assms(1)] udp_client_run_append run
    by (simp add: udp_client_receive_packet Let_def udp_client_wf_def sle_small)
qed

subsection \<open>Properties\<close>

text \<open>C9: over a network that sends whole datagrams in order, \<open>UdpServer::send_data\<close> of an image
  returns after 241 datagrams whose payloads are the image in order and which fit the client's 1600-byte
  buffer; the client then reports exactly one complete image of that camera, reports no loss and has
  reset its packet counter.\<close>

theorem udp_image_transfer:
  assumes "whole_datagrams net" and "unat cam < 2" and "udp_client_wf c" and "uc_counter c ! unat cam = 0"
  shows "\<exists>ps c1. UdpServer_send_data net cam data 360960 m = Some (True, ps) \<and>
    length ps = 241 \<and> concat (map (drop 8) ps) = load_bytes m data 360960 \<and>
    (\<forall>p \<in> set ps. length p \<le> 1600) \<and>
    udp_client_run ps c = Some (c1, [CompleteImage cam 240]) \<and>
    uc_counter c1 = uc_counter c \<and> udp_client_wf c1"
proof -
  let ?img = "load_bytes m data 360960"
  let ?ps = "packets cam 0 (chunks 1500 ?img)"
  have send: "UdpServer_send_data net cam data 360960 m = Some (True, ?ps)"
    using UdpServer_send_data_whole [OF assms(1), of 360960] by simp
  have strip: "map (drop 8) (packets cam k cs) = cs" for k cs
    by (induction cs arbitrary: k) auto
  have "length p \<le> 1600" if "p \<in> set ?ps" for p
    using that by (subst (asm) image_packets) auto
  moreover have "length ?ps = 241" by (simp add: length_chunks)
  moreover have "concat (map (drop 8) ?ps) = ?img" by (simp add: strip concat_chunks)
  moreover have "(uc_counter c)[unat cam := 0] = uc_counter c"
    using assms(4) by (metis list_update_id)
  ultimately show ?thesis
    using send udp_client_image [OF length_load_bytes assms(2,3,4), of m data] assms(3)
    by (simp add: udp_client_wf_def)
qed

theorem udp_image_transfer_witness:
  "\<exists>ps c1. UdpServer_send_data demo_net 1 0 360960 (\<lambda>a. ucast a) = Some (True, ps) \<and>
    length ps = 241 \<and> concat (map (drop 8) ps) = load_bytes (\<lambda>a. ucast a) 0 360960 \<and>
    (\<forall>p \<in> set ps. length p \<le> 1600) \<and>
    udp_client_run ps demo_udp_client = Some (c1, [CompleteImage 1 240]) \<and>
    uc_counter c1 = uc_counter demo_udp_client \<and> udp_client_wf c1"
  by (rule udp_image_transfer) (simp_all add: demo_udp_client_def udp_client_init_def udp_client_wf_def)

text \<open>the loss check counts packets only. After any packets numbered below 240, in whatever order and
  with repetitions, a packet numbered 240 is reported as an image with lost packets exactly when their
  count is not 240: a missing packet is found, packets out of order or a duplicate in place of a
  missing packet are not.\<close>

theorem udp_loss_check_counts:
  assumes "unat cam < 2" and "udp_client_wf c" and "uc_counter c ! unat cam = 0"
    and "\<forall>(number, p) \<in> set nps. \<not> 240 <=s number \<and> length p \<le> 1592"
    and "length nps < 2 ^ 32" and "length q \<le> 1592"
  shows "map_option snd (udp_client_run
           (map (\<lambda>(number, p). le32 cam @ le32 number @ p) nps @ [le32 cam @ le32 240 @ q]) c) =
         Some (CompleteImage cam 240 #
               (if length nps = 240 then [] else [PackagesLost (of_nat (length nps)) 240]))"
proof -
  have "(of_nat (length nps) = (240 :: u32)) \<longleftrightarrow> length nps = 240"
    using assms(5) by (simp add: word_unat_eq_iff unat_of_nat)
  with assms show ?thesis
    by (simp add: udp_client_run_append udp_client_run_partial udp_client_receive_packet Let_def
        udp_client_wf_def)
qed

theorem udp_loss_check_counts_witness:
  "map_option snd (udp_client_run
     (map (\<lambda>(number, p). le32 1 @ le32 number @ p) [(7, [1]), (3, [2, 3])] @ [le32 1 @ le32 240 @ []])
     demo_udp_client) = Some [CompleteImage 1 240, PackagesLost 2 240]"
  using udp_loss_check_counts [of 1 demo_udp_client "[(7, [1]), (3, [2, 3])]" "[]"]
  by (simp add: demo_udp_client_def udp_client_init_def udp_client_wf_def sle_small)

text \<open>the client does not assemble the image. Every payload is copied to the start of the buffer, so
  after all 241 packets have arrived in order the buffer holds the last packet's 960 bytes, the end of the
  packet before it, and from byte 1500 on whatever was there before.\<close>

theorem udp_client_keeps_only_last_packet:
  assumes "unat cam < 2" and "udp_client_wf c" and "uc_counter c ! unat cam = 0"
    and "whole_datagrams net"
  shows "\<exists>ps c1 ev. UdpServer_send_data net cam data 360960 m = Some (True, ps) \<and>
    udp_client_run ps c = Some (c1, ev) \<and>
    uc_image c1 ! unat cam =
      load_bytes m (data + 360000) 960 @ load_bytes m (data + 359460) 540 @ drop 1500 (uc_image c ! unat cam)"
  using UdpServer_send_data_whole [OF assms(4), of 360960]
    udp_client_image [OF length_load_bytes assms(1,2,3), of m data] assms(1,2)
  by (simp add: udp_client_wf_def overlay_def add.commute [of data])

theorem udp_client_keeps_only_last_packet_witness:
  "\<exists>ps c1 ev. UdpServer_send_data demo_net 0 64 360960 (\<lambda>a. ucast a) = Some (True, ps) \<and>
    udp_client_run ps demo_udp_client = Some (c1, ev) \<and>
    uc_image c1 ! 0 =
      load_bytes (\<lambda>a. ucast a) 360064 960 @ load_bytes (\<lambda>a. ucast a) 359524 540 @
      drop 1500 (uc_image demo_udp_client ! 0)"
  using udp_client_keeps_only_last_packet [of 0 demo_udp_client demo_net 64 "\<lambda>a. ucast a"]
  by (simp add: demo_udp_client_def udp_client_init_def udp_client_wf_def)

text \<open>the camera server's own \<open>UdpServer\<close> has \<open>IMAGE_SIZE\<close> 1500: it sends the first 1500 bytes
  of an image as one packet numbered 0, and the client counts that packet without ever reporting an
  image.\<close>

theorem visensor_udp_never_completes:
  assumes "whole_datagrams net" and "unat cam < 2" and "udp_client_wf c"
  shows "\<exists>p c1. visensor_UdpServer_send_data net cam data m = Some (True, [p]) \<and>
    p = le32 cam @ le32 0 @ load_bytes m data 1500 \<and>
    udp_client_run [p] c = Some (c1, []) \<and>
    uc_counter c1 = (uc_counter c)[unat cam := uc_counter c ! unat cam + 1]"
proof -
  have "visensor_UdpServer_send_data net cam data m = Some (True, [le32 cam @ le32 0 @ load_bytes m data 1500])"
    using udp_send_loop_whole [OF assms(1), of 1500 cam m 0 data "[]"]
    by (simp add: visensor_UdpServer_send_data_def chunks_step flip: length_0_conv)
  with assms show ?thesis
    by (simp add: udp_client_receive_packet Let_def sle_small)
qed

theorem visensor_udp_never_completes_witness:
  "\<exists>p c1. visensor_UdpServer_send_data demo_net 1 0 (\<lambda>a. ucast a) = Some (True, [p]) \<and>
    p = le32 1 @ le32 0 @ load_bytes (\<lambda>a. ucast a) 0 1500 \<and>
    udp_client_run [p] demo_udp_client = Some (c1, []) \<and>
    uc_counter c1 = [0, 1]"
  using visensor_udp_never_completes [of demo_net 1 demo_udp_client 0 "\<lambda>a. ucast a"]
  by (simp add: demo_udp_client_def udp_client_init_def udp_client_wf_def)

end
