(* ===== verification/Servers.thy ===== *)
theory Servers
  imports Camera TcpThreads UdpStream SharedMem
begin

text \<open>
  The main programs of the two servers: xilinx/visensor-srv/src/main.cpp (one camera, images over
  TCP) and slam_sensor_server/src/main.cpp (images over UDP, IMU and configuration data over TCP).
  One pass of a main loop is one function; what the outside does between passes (the contents of
  the image memory, the result of a send) is an argument of the pass. The connection itself is the
  subject of \<open>TcpThreads\<close>.
\<close>

subsection \<open>The camera server\<close>

record 'd visensor =
  vs_cam :: MT9V034
  vs_tcp :: TcpServer
  vs_config :: TcpServer
  vs_dev :: 'd

text \<open>Everything before the loop: the camera on the FPGA's base address, \<open>power_on\<close>, and the two
  servers.\<close>

definition visensor_start ::
  "os \<Rightarrow> 'd mmio \<Rightarrow> u32 \<Rightarrow> u32 \<Rightarrow> u16 \<Rightarrow> 'd \<Rightarrow> 'd visensor outcome" where
  "visensor_start os mm junk_size junk_addr junk d =
     bind_outcome (MT9V034_new os mm junk_size junk_addr 0x7e200000 d) (\<lambda>(cam0, printed, d1).
       Ret \<lparr>vs_cam = cam0, vs_tcp = TcpServer_new, vs_config = TcpServer_new,
            vs_dev = snd (MT9V034_power_on mm cam0 junk d1)\<rparr>)"

text \<open>One pass of \<open>while(1)\<close>; \<open>m\<close> is the memory at the time of the send and \<open>result\<close> the outcome of
  \<open>socket_.send\<close>. Without a client the pass only waits for the timer.\<close>

definition visensor_pass :: "'d mmio \<Rightarrow> mem \<Rightarrow> send_result \<Rightarrow> 'd visensor \<Rightarrow> 'd visensor" where
  "visensor_pass mm m result v =
     (if \<not> ts_has_connection (vs_tcp v) then v
      else
        let s = mt_sensor (vs_cam v) in
        case Sensor_newDataAvailable mm s (vs_dev v) of (available, d1) \<Rightarrow>
          if \<not> available then v\<lparr>vs_dev := d1\<rparr>
          else
            let header_cam = \<lparr>timestamp = 0, data_size = Sensor_data_size s, data_id = 100\<rparr>;
                t = TcpServer_send_data (load_bytes m (Sensor_data s) (unat (Sensor_data_size s))) header_cam result
                      (vs_tcp v)
            in case Sensor_movePointer mm s d1 of (s1, d2) \<Rightarrow>
                 v\<lparr>vs_tcp := t, vs_cam := (vs_cam v)\<lparr>mt_sensor := s1\<rparr>, vs_dev := d2\<rparr>)"

text \<open>A run of the loop. Each pass finds the device in the state \<open>d\<close> to which the hardware has brought it since the last one.\<close>

fun visensor_run :: "'d mmio \<Rightarrow> ('d \<times> mem \<times> send_result) list \<Rightarrow> 'd visensor \<Rightarrow> 'd visensor" where
  "visensor_run mm [] v = v"
| "visensor_run mm ((d, m, result) # ins) v = visensor_run mm ins (visensor_pass mm m result (v\<lparr>vs_dev := d\<rparr>))"

text \<open>After the loop was left by an exception.\<close>

definition visensor_end :: "'d mmio \<Rightarrow> 'd visensor \<Rightarrow> 'd visensor" where
  "visensor_end mm v = v\<lparr>vs_dev := MT9V034_power_off mm (vs_cam v) (vs_dev v)\<rparr>"

subsection \<open>The slam server\<close>

definition slam_cam_faker :: "slam_manager \<Rightarrow> mem \<Rightarrow> mem outcome" where
  "slam_cam_faker g m =
     bind_outcome (slam_cam g 0) (\<lambda>c0.
       bind_outcome (slam_cam g 1) (\<lambda>c1.
         Ret (SharedMemory_setNewDataAvailable c1 True (SharedMemory_setNewDataAvailable c0 True m))))"

definition slam_imu_faker :: "slam_manager \<Rightarrow> mem \<Rightarrow> mem" where
  "slam_imu_faker g m = SharedMemory_setNewDataAvailable (slam_imu g) True m"

definition slam_start :: "os \<Rightarrow> mem \<Rightarrow> (slam_manager \<times> mem) outcome" where
  "slam_start os m =
     bind_outcome (slam_manager_new os 2 360960 10 10) (\<lambda>g.
       bind_outcome (slam_cam g 0) (\<lambda>c0.
         let data = SharedMemory_data c0 in
         Ret (g, fill_numbers data 360960 (store32 m data 0))))"

record slam_server =
  sv_mem :: mem
  sv_tcp :: TcpServer
  sv_udp :: "byte list list"

definition slam_serve_tcp :: "bool \<Rightarrow> SharedMemory \<Rightarrow> slam_server \<Rightarrow> slam_server" where
  "slam_serve_tcp ok r v =
     (if SharedMemory_newDataAvailable (sv_mem v) r
      then v\<lparr>sv_tcp := slam_TcpServer_send_data
                (load_bytes (sv_mem v) (SharedMemory_data r) (unat (SharedMemory_size r))) ok (sv_tcp v),
             sv_mem := SharedMemory_setNewDataAvailable r False (sv_mem v)\<rparr>
      else v)"

text \<open>The UDP part of one camera's turn: the image sent is that of camera 0, whichever camera has new
  data. \<open>None\<close> is a send loop that does not end, \<open>Throw\<close> an exception of \<open>send_to\<close>, which ends the
  program.\<close>

definition slam_serve_cam ::
  "(nat \<Rightarrow> byte list \<Rightarrow> u32 option) \<Rightarrow> slam_manager \<Rightarrow> u32 \<Rightarrow> slam_server \<Rightarrow> slam_server outcome option" where
  "slam_serve_cam net g i v =
     (case slam_cam g i of Exit n \<Rightarrow> Some (Exit n) | Throw e \<Rightarrow> Some (Throw e)
      | Ret ci \<Rightarrow>
        if \<not> SharedMemory_newDataAvailable (sv_mem v) ci then Some (Ret v)
        else case slam_cam g 0 of Exit n \<Rightarrow> Some (Exit n) | Throw e \<Rightarrow> Some (Throw e)
        | Ret c0 \<Rightarrow>
          (case UdpServer_send_data net i (SharedMemory_data c0) (SharedMemory_size c0) (sv_mem v) of
             None \<Rightarrow> None
           | Some (returned, ps) \<Rightarrow>
               if returned
               then Some (Ret (v\<lparr>sv_udp := sv_udp v @ ps,
                                 sv_mem := SharedMemory_setNewDataAvailable ci False (sv_mem v)\<rparr>))
               else Some (Throw ''send_to'')))"

text \<open>The loop over the cameras of one pass; \<open>ok i\<close> tells whether the two TCP writes of turn \<open>i\<close> succeed.\<close>

fun slam_serve_cams ::
  "(nat \<Rightarrow> byte list \<Rightarrow> u32 option) \<Rightarrow> (nat \<Rightarrow> bool \<times> bool) \<Rightarrow> slam_manager \<Rightarrow> nat list \<Rightarrow> slam_server
     \<Rightarrow> slam_server outcome option" where
  "slam_serve_cams net ok g [] v = Some (Ret v)"
| "slam_serve_cams net ok g (i # is) v =
     (case slam_serve_cam net g (of_nat i) v of
        Some (Ret v1) \<Rightarrow>
          slam_serve_cams net ok g is
            (slam_serve_tcp (snd (ok i)) (slam_config g) (slam_serve_tcp (fst (ok i)) (slam_imu g) v1))
      | r \<Rightarrow> r)"

text \<open>One pass of \<open>while(1)\<close>. The datagrams go to port 13778 of the TCP peer; \<open>remote\<close> is what the socket says of it.\<close>

definition slam_pass ::
  "(nat \<Rightarrow> byte list \<Rightarrow> u32 option) \<Rightarrow> string option \<Rightarrow> (nat \<Rightarrow> bool \<times> bool) \<Rightarrow> slam_manager \<Rightarrow> slam_server
     \<Rightarrow> slam_server outcome option" where
  "slam_pass net remote ok g v =
     (if \<not> ts_has_connection (sv_tcp v) then Some (Ret v)
      else case slam_getEndpoint remote (sv_tcp v) of
        Ret addr \<Rightarrow> slam_serve_cams net ok g [0..<nat (sint (slam_getNumCams g))] v
      | Exit n \<Rightarrow> Some (Exit n)
      | Throw e \<Rightarrow> Some (Throw e))"

subsection \<open>Instances for examples\<close>

text \<open>Hardware whose registers read as its state, the address of the slot that the FPGA is writing.\<close>

definition demo_fpga :: "u32 mmio" where
  "demo_fpga = \<lparr>mm_read8 = (\<lambda>_ p. (0, p)), mm_write8 = (\<lambda>_ _ p. p), mm_read32 = (\<lambda>_ p. (p, p)),
     mm_write32 = (\<lambda>_ _ p. p), mm_sleep = (\<lambda>_ p. p)\<rparr>"

definition demo_visensor :: "u32 visensor" where
  "demo_visensor = \<lparr>vs_cam = demo_camera,
     vs_tcp = TcpServer_new\<lparr>ts_has_connection := True, ts_socket_open := True\<rparr>,
     vs_config = TcpServer_new, vs_dev = 0x1F000000 + 2 * 360960\<rparr>"

definition demo_slam_server :: slam_server where
  "demo_slam_server = \<lparr>sv_mem = (\<lambda>a. if a = 0x50058201 then 1 else 0),
     sv_tcp = TcpServer_new\<lparr>ts_has_connection := True, ts_socket_open := True, ts_accept_pending := False\<rparr>, sv_udp = []\<rparr>"

text \<open>The header of an image and the address of a slot in the process.\<close>

definition image_header :: DataHeader where
  "image_header = \<lparr>timestamp = 0, data_size = 360960, data_id = 100\<rparr>"

definition slot_data :: "SharedRingBuffer \<Rightarrow> nat \<Rightarrow> u32" where
  "slot_data b j = rb_mmap_start_address b + of_nat j * rb_data_size b"

definition image_ring :: "SharedRingBuffer \<Rightarrow> bool" where
  "image_ring b \<longleftrightarrow> ring_wf b \<and> rb_data_size b = 360960 \<and> rb_length b = 8"

subsection \<open>One pass of the camera server\<close>

abbreviation vs_ring :: "'d visensor \<Rightarrow> SharedRingBuffer" where
  "vs_ring v \<equiv> sn_buffer (mt_sensor (vs_cam v))"

lemma slot_data_position: "SharedRingBuffer_data b = slot_data b (unat (rb_position b))"
  by (simp add: SharedRingBuffer_data_def slot_data_def)

text \<open>Whether the pass finds an image: the FPGA's pointer is not at the slot after the reader's.\<close>

definition image_ready :: "'d mmio \<Rightarrow> SharedRingBuffer \<Rightarrow> nat \<Rightarrow> 'd \<Rightarrow> bool" where
  "image_ready mm b p d \<longleftrightarrow>
     fst (FPGARegisters_getRegisterValue mm (rb_registers b) BUFFER_FPGA_POINTER d) \<noteq> slot_address b (Suc p)"

lemma image_ready_available:
  "image_ring b \<Longrightarrow> fst (SharedRingBuffer_newDataAvailable mm b d) = image_ready mm b (unat (rb_position b)) d"
  by (simp add: newDataAvailable_spec image_ring_def image_ready_def case_prod_unfold)

text \<open>A pass with a client: when there is an image, the current slot is handed to \<open>send_data\<close> and the reader moves on,
  whatever the send did; otherwise nothing happens.\<close>

lemma visensor_pass_image:
  assumes "ts_has_connection (vs_tcp v)" and "image_ring (vs_ring v)"
    and "image_ready mm (vs_ring v) (unat (rb_position (vs_ring v))) (vs_dev v)"
  shows "\<exists>d. vs_tcp (visensor_pass mm m result v) =
      TcpServer_send_data (load_bytes m (slot_data (vs_ring v) (unat (rb_position (vs_ring v)))) 360960)
        image_header result (vs_tcp v) \<and>
    vs_ring (visensor_pass mm m result v) = fst (SharedRingBuffer_movePointer mm (vs_ring v) d)"
  using assms(1,2) image_ready_available [OF assms(2), of mm "vs_dev v"] assms(3)
  by (auto simp: visensor_pass_def Sensor_newDataAvailable_def Sensor_data_size_def SharedRingBuffer_data_size_def
      Sensor_data_def slot_data_position image_header_def image_ring_def Let_def case_prod_unfold)

lemma same_dev: "\<exists>d. v = v\<lparr>vs_dev := d\<rparr>"
  by (rule exI [of _ "vs_dev v"]) simp

lemma visensor_pass_no_image:
  assumes "image_ring (vs_ring v)" and "\<not> image_ready mm (vs_ring v) (unat (rb_position (vs_ring v))) (vs_dev v)"
  shows "\<exists>d. visensor_pass mm m result v = v\<lparr>vs_dev := d\<rparr>"
  using image_ready_available [OF assms(1), of mm "vs_dev v"] assms(2) same_dev
  by (auto simp: visensor_pass_def Sensor_newDataAvailable_def Let_def case_prod_unfold)

lemma image_ring_move:
  assumes "image_ring b"
  shows "image_ring (fst (SharedRingBuffer_movePointer mm b d))"
    and "image_ready mm' (fst (SharedRingBuffer_movePointer mm b d)) = image_ready mm' b"
    and "slot_data (fst (SharedRingBuffer_movePointer mm b d)) = slot_data b"
    and "unat (rb_position (fst (SharedRingBuffer_movePointer mm b d))) = Suc (unat (rb_position b)) mod 8"
  using assms movePointer_position [of b mm d]
  by (auto simp: image_ring_def movePointer_wf image_ready_def slot_data_def slot_address_def fun_eq_iff)

text \<open>The memories of the passes that find an image, for a reader that starts at slot \<open>p\<close>.\<close>

fun ready_images :: "'d mmio \<Rightarrow> SharedRingBuffer \<Rightarrow> nat \<Rightarrow> ('d \<times> mem) list \<Rightarrow> mem list" where
  "ready_images mm b p [] = []"
| "ready_images mm b p ((d, m) # passes) =
     (if image_ready mm b p d then m # ready_images mm b (Suc p mod 8) passes else ready_images mm b p passes)"

definition image_frames :: "SharedRingBuffer \<Rightarrow> nat \<Rightarrow> mem list \<Rightarrow> (DataHeader \<times> byte list) list" where
  "image_frames b p ms =
     map (\<lambda>k. (image_header, load_bytes (ms ! k) (slot_data b ((p + k) mod 8)) 360960)) [0..<length ms]"

lemma image_frames_Nil [simp]: "image_frames b p [] = []"
  by (simp add: image_frames_def)

lemma image_frames_Cons:
  "image_frames b p (m # ms) =
     (image_header, load_bytes m (slot_data b (p mod 8)) 360960) # image_frames b (Suc p mod 8) ms"
proof -
  have "[0..<length (m # ms)] = 0 # map Suc [0..<length ms]"
    by (metis length_Cons map_Suc_upt upt_conv_Cons zero_less_Suc)
  then show ?thesis by (simp add: image_frames_def mod_add_left_eq comp_def del: upt_Suc)
qed

lemma image_frames_ok: "list_all frame_ok (image_frames b p ms)"
  by (auto simp: image_frames_def list_all_iff frame_ok_def image_header_def CLIENT_IMAGE_SIZE_def known_id_def)

lemma image_frames_slot_data: "slot_data b = slot_data b' \<Longrightarrow> image_frames b = image_frames b'"
  by (simp add: image_frames_def fun_eq_iff)

lemma ready_images_ready:
  assumes "image_ready mm b = image_ready mm b'"
  shows "ready_images mm b p passes = ready_images mm b' p passes"
  using assms by (induction mm b p passes rule: ready_images.induct) auto

lemma length_send_image: "length (send_buffers image_header (load_bytes m a 360960)) = 360972"
  by (simp add: send_buffers_def image_header_def)

abbreviation whole_sends :: "('d \<times> mem) list \<Rightarrow> ('d \<times> mem \<times> send_result) list" where
  "whole_sends passes \<equiv> map (\<lambda>(d, m). (d, m, Sent 360972)) passes"

lemma visensor_run_images:
  assumes "ts_has_connection (vs_tcp v)" and "image_ring (vs_ring v)"
    and "p = unat (rb_position (vs_ring v))"
  shows "let v1 = visensor_run mm (whole_sends passes) v; ms = ready_images mm (vs_ring v) p passes in
    ts_wire (vs_tcp v1) = ts_wire (vs_tcp v) @
      concat (map (\<lambda>(h, data). send_buffers h data) (image_frames (vs_ring v) p ms)) \<and>
    image_ring (vs_ring v1) \<and> unat (rb_position (vs_ring v1)) = (p + length ms) mod 8"
  using assms
proof (induction passes arbitrary: v p)
  case Nil
  then show ?case by (auto simp: image_ring_def ring_wf_def)
next
  case (Cons pass passes)
  obtain d m where pass: "pass = (d, m)" by (cases pass)
  let ?w = "v\<lparr>vs_dev := d\<rparr>"
  let ?v = "visensor_pass mm m (Sent 360972) ?w"
  have p: "p < 8" "p mod 8 = p" using Cons.prems by (auto simp: image_ring_def ring_wf_def)
  show ?case
  proof (cases "image_ready mm (vs_ring v) p d")
    case False
    with visensor_pass_no_image [of ?w mm m "Sent 360972"] Cons.prems obtain d1 where "?v = v\<lparr>vs_dev := d1\<rparr>" by auto
    with Cons.IH [of "v\<lparr>vs_dev := d1\<rparr>" p] Cons.prems False show ?thesis by (simp add: pass)
  next
    case True
    then obtain d1 where tcp: "vs_tcp ?v = TcpServer_send_data (load_bytes m (slot_data (vs_ring v) p) 360960)
          image_header (Sent 360972) (vs_tcp v)"
      and ring: "vs_ring ?v = fst (SharedRingBuffer_movePointer mm (vs_ring v) d1)"
      using visensor_pass_image [of ?w mm m "Sent 360972"] Cons.prems by auto
    note move = image_ring_move [OF Cons.prems(2), where mm = mm and d = d1]
    have wire: "ts_wire (vs_tcp ?v) =
        ts_wire (vs_tcp v) @ send_buffers image_header (load_bytes m (slot_data (vs_ring v) p) 360960)"
      and conn: "ts_has_connection (vs_tcp ?v)"
      using Cons.prems(1) length_send_image by (simp_all add: tcp TcpServer_send_data_def)
    have next_ring: "image_ring (vs_ring ?v)" "Suc p mod 8 = unat (rb_position (vs_ring ?v))"
      using move(1,4) by (simp_all add: ring Cons.prems(3))
    have "ready_images mm (vs_ring ?v) (Suc p mod 8) passes = ready_images mm (vs_ring v) (Suc p mod 8) passes"
      and "image_frames (vs_ring ?v) = image_frames (vs_ring v)"
      using ready_images_ready [OF move(2)] image_frames_slot_data [OF move(3)] by (simp_all add: ring)
    with Cons.IH [OF conn next_ring] show ?thesis
      using True p by (simp add: pass wire image_frames_Cons Let_def mod_add_left_eq)
  qed
qed

text \<open>The camera the program constructs has the ring the loop expects.\<close>

lemma visensor_start_ring:
  assumes "visensor_start os mm j1 j2 junk d = Ret v"
  shows "image_ring (vs_ring v)" and "rb_position (vs_ring v) = 0" and "vs_tcp v = TcpServer_new"
    and "rb_registers (vs_ring v) = sn_registers (mt_sensor (vs_cam v))"
proof -
  obtain s where s: "Sensor_new os j1 j2 0x7e200000 CAM_REGISTER_BYTES IMAGE_SIZE BUFFER_LENGTH = Ret s"
    and v: "mt_sensor (vs_cam v) = s" "vs_tcp v = TcpServer_new"
    using assms by (auto simp: visensor_start_def MT9V034_new_def Let_def)
  have "sensor_wf s \<and> rb_data_size (sn_buffer s) = 360960 \<and> rb_length (sn_buffer s) = 8"
    using Sensor_new_wf [OF s] by (simp add: BUFFER_LENGTH_def IMAGE_SIZE_def)
  moreover have "rb_position (sn_buffer s) = 0"
    using s by (auto simp: Sensor_new_def SharedRingBuffer_new_def Let_def split: if_splits)
  ultimately show "image_ring (vs_ring v)" and "rb_position (vs_ring v) = 0" and "vs_tcp v = TcpServer_new"
    and "rb_registers (vs_ring v) = sn_registers (mt_sensor (vs_cam v))"
    by (auto simp: v image_ring_def sensor_wf_def)
qed

lemma demo_visensor_started:
  "\<exists>v. visensor_start demo_os demo_fpga 0 0x1F000000 0 0 = Ret v \<and>
      rb_buffer_pysical_address (vs_ring v) = 0x1F000000"
  by (simp add: visensor_start_def MT9V034_new_def Sensor_new_def FPGARegisters_new_def SharedRingBuffer_new_def
        I2CBusRaw_new_def DevMem_new_def DevMem_open_dev_def demo_os_def MAP_FAILED_def Let_def
        CAM_REGISTER_BYTES_def word_sless_alt read_int_def le32_def case_prod_unfold)

subsection \<open>Properties of the camera server\<close>

text \<open>C1: end to end, whatever the FPGA does. After the camera server has started and a client was accepted, over passes that
  find the device in any states and the image memory with any contents, with a kernel that takes every frame whole:
  the client shows exactly one image for each pass that found an image (the FPGA's pointer register was not at the slot
  after the reader's), the contents of slot 0, 1, 2, ... of the mapped ring at that pass, starting over after eight,
  each pixel for pixel, and nothing else until the connection is closed. The reader ends at the slot after the last one
  sent.\<close>

theorem visensor_streams_images:
  assumes "visensor_start os mm j1 j2 junk d = Ret v"
    and "TcpServer_handle_accept False (Some peer) (vs_tcp v) = Ret t"
    and "\<And>k. length (buf k) = 360960"
  shows "let v1 = visensor_run mm (whole_sends passes) (v\<lparr>vs_tcp := t\<rparr>); ms = ready_images mm (vs_ring v) 0 passes in
    client_loop buf (ts_wire (vs_tcp v1)) =
      map (\<lambda>k. Shown image_header (load_bytes (ms ! k) (slot_data (vs_ring v) (k mod 8)) 360960)) [0..<length ms]
      @ [Closed] \<and>
    unat (rb_position (vs_ring v1)) = length ms mod 8"
proof -
  let ?v = "v\<lparr>vs_tcp := t\<rparr>" and ?ms = "ready_images mm (vs_ring v) 0 passes"
  let ?v1 = "visensor_run mm (whole_sends passes) ?v"
  note start = visensor_start_ring [OF assms(1)]
  have t: "ts_has_connection t" "ts_wire t = []"
    using assms(2) by (auto simp: TcpServer_handle_accept_def Let_def)
  have run: "ts_wire (vs_tcp ?v1) = concat (map (\<lambda>(h, data). send_buffers h data) (image_frames (vs_ring v) 0 ?ms))"
    "unat (rb_position (vs_ring ?v1)) = length ?ms mod 8"
    using visensor_run_images [of ?v 0 mm passes] t start by (simp_all add: Let_def)
  have len: "length (image_frames (vs_ring v) 0 ?ms) = length ?ms" by (simp add: image_frames_def)
  have "client_loop buf (ts_wire (vs_tcp ?v1)) = map (\<lambda>k. client_dispatch (buf k)
      (fst (image_frames (vs_ring v) 0 ?ms ! k)) (snd (image_frames (vs_ring v) 0 ?ms ! k))) [0..<length ?ms] @ [Closed]"
    using client_loop_frames [OF image_frames_ok, of buf "vs_ring v" 0 ?ms "[]"] by (simp add: run len)
  also have "map (\<lambda>k. client_dispatch (buf k)
      (fst (image_frames (vs_ring v) 0 ?ms ! k)) (snd (image_frames (vs_ring v) 0 ?ms ! k))) [0..<length ?ms] =
      map (\<lambda>k. Shown image_header (load_bytes (?ms ! k) (slot_data (vs_ring v) (k mod 8)) 360960)) [0..<length ?ms]"
    using assms(3) by (simp add: image_frames_def client_dispatch_def image_header_def)
  finally show ?thesis by (simp add: run(2) Let_def)
qed

text \<open>An FPGA that is at work on slot 1, then on slot 2, and there again: the second pass sends slot 0, the third
  finds the FPGA at the slot after the reader's.\<close>

theorem visensor_streams_images_witness:
  "\<exists>v t. visensor_start demo_os demo_fpga 0 0x1F000000 0 0 = Ret v \<and>
     TcpServer_handle_accept False (Some ''10.0.0.2'') (vs_tcp v) = Ret t \<and>
     client_loop (\<lambda>_. replicate 360960 0)
       (ts_wire (vs_tcp (visensor_run demo_fpga
          [(0x1F000000 + 360960, \<lambda>_. 0, Sent 360972), (0x1F000000 + 2 * 360960, \<lambda>a. ucast a, Sent 360972),
           (0x1F000000 + 2 * 360960, \<lambda>_. 0, Sent 360972)] (v\<lparr>vs_tcp := t\<rparr>)))) =
     [Shown image_header (load_bytes (\<lambda>a. ucast a) (slot_data (vs_ring v) 0) 360960), Closed]"
proof -
  obtain v where v: "visensor_start demo_os demo_fpga 0 0x1F000000 0 0 = Ret v"
    and phys: "rb_buffer_pysical_address (vs_ring v) = 0x1F000000" using demo_visensor_started by blast
  obtain t where t: "TcpServer_handle_accept False (Some ''10.0.0.2'') (vs_tcp v) = Ret t"
    by (simp add: TcpServer_handle_accept_def Let_def)
  have size: "rb_data_size (vs_ring v) = 360960"
    using visensor_start_ring(1) [OF v] by (simp add: image_ring_def)
  let ?passes = "[(0x1F000000 + 360960, \<lambda>_. 0), (0x1F000000 + 2 * 360960, \<lambda>a. ucast a), (0x1F000000 + 2 * 360960, \<lambda>_. 0)]
    :: (u32 \<times> mem) list"
  have "ready_images demo_fpga (vs_ring v) 0 ?passes = [\<lambda>a. ucast a]"
    by (simp add: image_ready_def FPGARegisters_getRegisterValue_def demo_fpga_def slot_address_def phys size)
  with visensor_streams_images [OF v t, of "\<lambda>_. replicate 360960 0" ?passes] v t show ?thesis
    by (auto simp: Let_def)
qed

text \<open>C27: a send that fails costs one image and nothing more. In a pass with a client and an image the reader still moves to
  the next slot, no byte is added to the connection, the server goes back to accepting, and until a client is accepted
  all further passes leave the camera, the ring and both servers as they are.\<close>

theorem visensor_failed_send:
  assumes "ts_has_connection (vs_tcp v)" and "image_ring (vs_ring v)"
    and "fst (Sensor_newDataAvailable mm (mt_sensor (vs_cam v)) (vs_dev v))"
  shows "let v1 = visensor_pass mm m SendError v in
    ts_wire (vs_tcp v1) = ts_wire (vs_tcp v) \<and> \<not> ts_has_connection (vs_tcp v1) \<and> ts_accept_pending (vs_tcp v1) \<and>
    unat (rb_position (vs_ring v1)) = Suc (unat (rb_position (vs_ring v))) mod 8 \<and>
    (\<exists>d. visensor_run mm ins v1 = v1\<lparr>vs_dev := d\<rparr>)"
proof -
  have "image_ready mm (vs_ring v) (unat (rb_position (vs_ring v))) (vs_dev v)"
    using assms(3) image_ready_available [OF assms(2), of mm "vs_dev v"] by (simp add: Sensor_newDataAvailable_def)
  then obtain d where tcp: "vs_tcp (visensor_pass mm m SendError v) = TcpServer_accept_connection (vs_tcp v)"
    and ring: "vs_ring (visensor_pass mm m SendError v) = fst (SharedRingBuffer_movePointer mm (vs_ring v) d)"
    using visensor_pass_image [OF assms(1,2), of mm m SendError] by (auto simp: TcpServer_send_data_def)
  have idle: "\<not> ts_has_connection (vs_tcp w) \<Longrightarrow> \<exists>d. visensor_run mm is w = w\<lparr>vs_dev := d\<rparr>" for "is" w
    by (induction mm "is" w rule: visensor_run.induct) (auto simp: visensor_pass_def same_dev)
  have down: "\<not> ts_has_connection (vs_tcp (visensor_pass mm m SendError v))"
    by (simp add: tcp TcpServer_accept_connection_def)
  show ?thesis
    unfolding Let_def using idle [OF down, of ins] down image_ring_move(4) [OF assms(2), of mm d]
    by (simp add: ring tcp TcpServer_accept_connection_def)
qed

theorem visensor_failed_send_witness:
  "unat (rb_position (vs_ring (visensor_pass demo_fpga (\<lambda>_. 0) SendError demo_visensor))) = 1"
proof -
  have ring: "image_ring (vs_ring demo_visensor)"
    by (simp add: image_ring_def ring_wf_def demo_visensor_def demo_camera_def demo_ring_def)
  have "image_ready demo_fpga (vs_ring demo_visensor) (unat (rb_position (vs_ring demo_visensor))) (vs_dev demo_visensor)"
    by (simp add: image_ready_def FPGARegisters_getRegisterValue_def demo_fpga_def slot_address_def demo_visensor_def
        demo_camera_def demo_ring_def)
  then have "fst (Sensor_newDataAvailable demo_fpga (mt_sensor (vs_cam demo_visensor)) (vs_dev demo_visensor))"
    using image_ready_available [OF ring, of demo_fpga "vs_dev demo_visensor"] by (simp add: Sensor_newDataAvailable_def)
  from visensor_failed_send [OF _ ring this, of "\<lambda>_. 0" "[]"] show ?thesis
    by (simp add: demo_visensor_def demo_camera_def demo_ring_def Let_def)
qed

subsection \<open>One pass of the slam server\<close>

text \<open>What a turn does to the flags and the data of a set of independent regions.\<close>

definition independent :: "SharedMemory set \<Rightarrow> bool" where
  "independent R \<longleftrightarrow> (\<forall>r \<in> R. \<forall>s \<in> R. (r \<noteq> s \<longrightarrow> sm_addr r \<noteq> sm_addr s) \<and>
     (\<forall>v m. load_bytes (SharedMemory_setNewDataAvailable r v m) (SharedMemory_data s) (unat (sm_size s)) =
            load_bytes m (SharedMemory_data s) (unat (sm_size s))))"

definition slam_image_turn :: "u32 \<Rightarrow> SharedMemory \<Rightarrow> SharedMemory \<Rightarrow> slam_server \<Rightarrow> slam_server" where
  "slam_image_turn i c0 ci v =
    (if SharedMemory_newDataAvailable (sv_mem v) ci
     then v\<lparr>sv_udp := sv_udp v @ packets i 0 (chunks 1500
               (load_bytes (sv_mem v) (SharedMemory_data c0) (unat (sm_size c0)))),
            sv_mem := SharedMemory_setNewDataAvailable ci False (sv_mem v)\<rparr>
     else v)"

text \<open>The four regions of the slam server's memory, with their flags and data independent.\<close>

lemma slam_regions:
  assumes "slam_manager_new os 2 360960 10 10 = Ret g"
  obtains c0 c1 where "sl_cams g = [c0, c1]" "sl_num_cams g = 2"
    "sm_size c0 = 360960" "sm_size c1 = 360960" "sm_size (sl_imu g) = 10" "sm_size (sl_config g) = 10"
    "distinct [c0, c1, sl_imu g, sl_config g]" "independent {c0, c1, sl_imu g, sl_config g}"
proof -
  have two: "nat (sint (2 :: u32)) = 2" by (simp add: sint_small)
  then obtain c0 c1 where cams: "sl_cams g = [c0, c1]" "sm_size c0 = 360960" "sm_size c1 = 360960"
    and rest: "sl_num_cams g = 2" "sm_size (sl_imu g) = 10" "sm_size (sl_config g) = 10"
    using assms by (auto simp: slam_manager_new_def Let_def SharedMemory_new_def numeral_2_eq_2 split: if_splits)
  define rs where "rs = all_regions g"
  have rs: "rs = [c0, c1, sl_imu g, sl_config g]" by (simp add: rs_def all_regions_def cams)
  have dist: "distinct (concat (map region rs))"
    unfolding rs_def by (rule slam_regions_distinct [OF assms]) simp
  have addr: "sm_addr (rs ! i) \<noteq> sm_addr (rs ! j)" if "i < length rs" "j < length rs" "i \<noteq> j" for i j
    using regions_disjoint [OF dist that] flag_in_region [of "rs ! i"] flag_in_region [of "rs ! j"] by auto
  have load: "load_bytes (SharedMemory_setNewDataAvailable r v m) (SharedMemory_data s) (unat (sm_size s)) =
       load_bytes m (SharedMemory_data s) (unat (sm_size s))" if "r \<in> set rs" "s \<in> set rs" for r s v m
    using that set_flag_frame [OF dist] unfolding in_set_conv_nth by (auto simp: SharedMemory_size_def)
  have addrs: "distinct (map sm_addr rs)" by (simp add: distinct_conv_nth addr)
  then have "independent (set rs)" using load by (auto simp: independent_def distinct_map inj_on_def)
  moreover have "distinct rs" using addrs by (simp add: distinct_map)
  ultimately show thesis using cams rest by (intro that [of c0 c1]) (auto simp: rs)
qed

lemma clear_flag_independent:
  assumes "independent R" and "r \<in> R" and "s \<in> R"
    and "m1 = (if SharedMemory_newDataAvailable m r then SharedMemory_setNewDataAvailable r False m else m)"
  shows "SharedMemory_newDataAvailable m1 s \<longleftrightarrow> SharedMemory_newDataAvailable m s \<and> s \<noteq> r"
    and "load_bytes m1 (SharedMemory_data s) (unat (sm_size s)) = load_bytes m (SharedMemory_data s) (unat (sm_size s))"
proof -
  have apart: "r \<noteq> s \<Longrightarrow> sm_addr r \<noteq> sm_addr s"
    and load: "load_bytes (SharedMemory_setNewDataAvailable r False m) (SharedMemory_data s) (unat (sm_size s)) =
      load_bytes m (SharedMemory_data s) (unat (sm_size s))"
    using assms(1-3) by (auto simp: independent_def)
  show "SharedMemory_newDataAvailable m1 s \<longleftrightarrow> SharedMemory_newDataAvailable m s \<and> s \<noteq> r"
    using assms(4) flags.get_put [of r False m] flags.get_put_apart [OF apart, of False m] by (cases "r = s") auto
  show "load_bytes m1 (SharedMemory_data s) (unat (sm_size s)) = load_bytes m (SharedMemory_data s) (unat (sm_size s))"
    using assms(4) load by simp
qed

lemma slam_serve_tcp_mem:
  "sv_mem (slam_serve_tcp True r v) = (if SharedMemory_newDataAvailable (sv_mem v) r
     then SharedMemory_setNewDataAvailable r False (sv_mem v) else sv_mem v)"
  by (simp add: slam_serve_tcp_def)

lemma slam_image_turn_mem:
  "sv_mem (slam_image_turn i c0 ci v) = (if SharedMemory_newDataAvailable (sv_mem v) ci
     then SharedMemory_setNewDataAvailable ci False (sv_mem v) else sv_mem v)"
  by (simp add: slam_image_turn_def)

lemmas slam_turns =
  clear_flag_independent [OF _ _ _ slam_serve_tcp_mem] clear_flag_independent [OF _ _ _ slam_image_turn_mem]

lemma slam_turn_output:
  "sv_udp (slam_serve_tcp True r v) = sv_udp v"
  "ts_socket_open (sv_tcp v) \<Longrightarrow> ts_wire (sv_tcp (slam_serve_tcp True r v)) = ts_wire (sv_tcp v) @
     (if SharedMemory_newDataAvailable (sv_mem v) r
      then load_bytes (sv_mem v) (SharedMemory_data r) (unat (sm_size r)) else [])"
  "ts_socket_open (sv_tcp v) \<Longrightarrow> ts_socket_open (sv_tcp (slam_serve_tcp True r v))"
  "sv_tcp (slam_image_turn i c0 ci v) = sv_tcp v"
  "sv_udp (slam_image_turn i c0 ci v) = sv_udp v @
     (if SharedMemory_newDataAvailable (sv_mem v) ci
      then packets i 0 (chunks 1500 (load_bytes (sv_mem v) (SharedMemory_data c0) (unat (sm_size c0)))) else [])"
  by (simp_all add: slam_serve_tcp_def slam_TcpServer_send_data_def SharedMemory_size_def slam_image_turn_def)

lemma slam_serve_cam_whole:
  assumes "whole_datagrams net" and "sl_cams g = [c0, c1]" and "sm_size c0 = 360960"
    and "(i, ci) \<in> {(0, c0), (1, c1)}"
  shows "slam_serve_cam net g i v = Some (Ret (slam_image_turn i c0 ci v))"
proof -
  have "slam_cam g 0 = Ret c0" and "slam_cam g i = Ret ci" using assms(2,4) by (auto simp: slam_cam_def)
  moreover have "UdpServer_send_data net i (SharedMemory_data c0) 360960 (sv_mem v) =
      Some (True, packets i 0 (chunks 1500 (load_bytes (sv_mem v) (SharedMemory_data c0) 360960)))"
    using UdpServer_send_data_whole [OF assms(1), of 360960 i "SharedMemory_data c0" "sv_mem v"] by simp
  ultimately show ?thesis using assms(3) by (simp add: slam_serve_cam_def SharedMemory_size_def slam_image_turn_def)
qed

lemma slam_pass_eq:
  assumes "whole_datagrams net" and "\<And>i. ok i = (True, True)" and "ts_has_connection (sv_tcp v)"
    and "ts_socket_open (sv_tcp v)" and "sl_cams g = [c0, c1]" and "sl_num_cams g = 2" and "sm_size c0 = 360960"
    and "tcp = (\<lambda>v. slam_serve_tcp True (sl_config g) (slam_serve_tcp True (sl_imu g) v))"
  shows "slam_pass net (Some peer) ok g v =
    Some (Ret (tcp (slam_image_turn 1 c0 c1 (tcp (slam_image_turn 0 c0 c0 v)))))"
proof -
  have turns: "nat (sint (slam_getNumCams g)) = 2" by (simp add: slam_getNumCams_def assms(6) sint_small)
  note cam = slam_serve_cam_whole [OF assms(1,5,7)]
  show ?thesis
    using assms(3,4) unfolding slam_pass_def turns
    by (simp add: numeral_2_eq_2 cam [of 0 c0] cam [of 1 c1] assms(2) slam_imu_def slam_config_def slam_getEndpoint_def
      assms(8))
qed

text \<open>C14: one pass of the slam server with a client and working sockets: the cameras with new data are served
  in order by UDP, the IMU and the configuration data once by TCP, and all flags are down at the end. The
  image sent for camera 1 is that of camera 0: its own image is never sent.\<close>

theorem slam_pass_serves_all:
  assumes "slam_manager_new os 2 360960 10 10 = Ret g" and "whole_datagrams net" and "\<And>i. ok i = (True, True)"
    and "ts_has_connection (sv_tcp v)" and "ts_socket_open (sv_tcp v)" and "avail = SharedMemory_newDataAvailable (sv_mem v)"
    and "image0 = load_bytes (sv_mem v) (SharedMemory_data (sl_cams g ! 0)) 360960"
  shows "\<exists>v1. slam_pass net (Some peer) ok g v = Some (Ret v1) \<and>
    sv_udp v1 = sv_udp v @ (if avail (sl_cams g ! 0) then packets 0 0 (chunks 1500 image0) else []) @
      (if avail (sl_cams g ! 1) then packets 1 0 (chunks 1500 image0) else []) \<and>
    ts_wire (sv_tcp v1) = ts_wire (sv_tcp v) @
      (if avail (sl_imu g) then load_bytes (sv_mem v) (SharedMemory_data (sl_imu g)) 10 else []) @
      (if avail (sl_config g) then load_bytes (sv_mem v) (SharedMemory_data (sl_config g)) 10 else []) \<and>
    (\<forall>r \<in> set (all_regions g). \<not> SharedMemory_newDataAvailable (sv_mem v1) r)"
proof -
  from assms(1) obtain c0 c1 where cams: "sl_cams g = [c0, c1]" and num: "sl_num_cams g = 2"
    and size: "sm_size c0 = 360960" "sm_size c1 = 360960" "sm_size (sl_imu g) = 10" "sm_size (sl_config g) = 10"
    and dist: "distinct [c0, c1, sl_imu g, sl_config g]" and ind: "independent {c0, c1, sl_imu g, sl_config g}"
    by (rule slam_regions)
  let ?tcp = "\<lambda>v. slam_serve_tcp True (sl_config g) (slam_serve_tcp True (sl_imu g) v)"
  let ?v1 = "?tcp (slam_image_turn 1 c0 c1 (?tcp (slam_image_turn 0 c0 c0 v)))"
  have pass: "slam_pass net (Some peer) ok g v = Some (Ret ?v1)"
    by (rule slam_pass_eq [OF assms(2-5) cams num size(1) refl])
  note step = slam_turns [OF ind] slam_turn_output
  have ne: "c1 \<noteq> c0" "sl_imu g \<noteq> c0" "sl_config g \<noteq> c0" "c1 \<noteq> sl_imu g" "c1 \<noteq> sl_config g"
      "sl_imu g \<noteq> sl_config g" "sl_config g \<noteq> sl_imu g" "sl_imu g \<noteq> c1" "sl_config g \<noteq> c1"
    using dist by auto
  have image0: "image0 = load_bytes (sv_mem v) (SharedMemory_data c0) (unat (sm_size c0))"
    by (simp add: assms(7) cams size)
  have "sv_udp ?v1 = sv_udp v @ (if avail c0 then packets 0 0 (chunks 1500 image0) else []) @
      (if avail c1 then packets 1 0 (chunks 1500 image0) else [])"
    by (simp add: step ne assms(6) image0)
  moreover have "ts_wire (sv_tcp ?v1) = ts_wire (sv_tcp v) @
      (if avail (sl_imu g) then load_bytes (sv_mem v) (SharedMemory_data (sl_imu g)) (unat (sm_size (sl_imu g))) else []) @
      (if avail (sl_config g) then load_bytes (sv_mem v) (SharedMemory_data (sl_config g)) (unat (sm_size (sl_config g)))
       else [])"
    by (simp add: step ne assms(5,6))
  moreover have "\<not> SharedMemory_newDataAvailable (sv_mem ?v1) r" if "r \<in> set (all_regions g)" for r
    using that by (auto simp: step all_regions_def cams)
  ultimately show ?thesis using pass cams size by auto
qed

theorem slam_pass_serves_all_witness:
  "\<exists>v1. slam_pass demo_net (Some ''10.0.0.2'') (\<lambda>_. (True, True)) demo_slam_manager demo_slam_server = Some (Ret v1) \<and>
     sv_udp v1 = packets 1 0 (chunks 1500 (load_bytes (sv_mem demo_slam_server) 0x50000001 360960))"
  using slam_pass_serves_all [OF demo_slam_manager_new demo_net_whole _ _ _ refl refl,
      of "\<lambda>_. (True, True)" demo_slam_server "''10.0.0.2''"]
  by (simp add: demo_slam_server_def demo_slam_manager_def SharedMemory_newDataAvailable_def
      SharedMemory_data_def HEADER_SIZE_def) blast

end
