(* ===== verification/VisensorSystem.thy ===== *)
theory VisensorSystem
  imports Servers
begin

text \<open>
  The running camera server (xilinx/visensor-srv/src/main.cpp, tcp_server.cpp) as a state machine at the level of the
  statements that touch what the threads share. The main thread polls the flag, polls the ring, sends, runs the three
  statements of \<open>accept_connection\<close> one by one when the send failed, and moves the pointer; the I/O thread runs the handler
  of an accept some time after the kernel has completed it; the FPGA may change the device at any time. An exception of
  \<open>handle_accept\<close> ends the program and is no step. The invariant says what every reachable state looks like,
  whatever the network and the hardware do.
\<close>

subsection \<open>The steps\<close>

text \<open>The place of the main thread in its loop.\<close>

datatype visensor_pc = PollClient | PollData | SendImage | GiveUp "stmt list" | MovePointer

text \<open>The queues hold the completed accepts of the two servers whose handler has not run, each with whether it failed.\<close>

record 'd visensor_sys =
  sy_state :: "'d visensor"
  sy_main :: visensor_pc
  sy_data_io :: "bool list"
  sy_config_io :: "bool list"

definition sy_tcp :: "'d visensor_sys \<Rightarrow> TcpServer" where
  "sy_tcp c = vs_tcp (sy_state c)"

definition sy_set_tcp :: "TcpServer \<Rightarrow> 'd visensor_sys \<Rightarrow> 'd visensor_sys" where
  "sy_set_tcp t c = c\<lparr>sy_state := (sy_state c)\<lparr>vs_tcp := t\<rparr>\<rparr>"

definition sy_set_config :: "TcpServer \<Rightarrow> 'd visensor_sys \<Rightarrow> 'd visensor_sys" where
  "sy_set_config t c = c\<lparr>sy_state := (sy_state c)\<lparr>vs_config := t\<rparr>\<rparr>"

definition sy_set_dev :: "'d \<Rightarrow> 'd visensor_sys \<Rightarrow> 'd visensor_sys" where
  "sy_set_dev d c = c\<lparr>sy_state := (sy_state c)\<lparr>vs_dev := d\<rparr>\<rparr>"

definition sy_send :: "mem \<Rightarrow> nat \<Rightarrow> 'd visensor_sys \<Rightarrow> 'd visensor_sys" where
  "sy_send m n c =
     (let s = mt_sensor (vs_cam (sy_state c));
          header_cam = \<lparr>timestamp = 0, data_size = Sensor_data_size s, data_id = 100\<rparr>
      in sy_set_tcp (TcpServer_send_data (load_bytes m (Sensor_data s) (unat (Sensor_data_size s))) header_cam (Sent n)
           (sy_tcp c)) c)"

definition sy_move :: "'d mmio \<Rightarrow> 'd visensor_sys \<Rightarrow> 'd visensor_sys" where
  "sy_move mm c =
     (case Sensor_movePointer mm (mt_sensor (vs_cam (sy_state c))) (vs_dev (sy_state c)) of (s, d) \<Rightarrow>
        c\<lparr>sy_state := (sy_state c)\<lparr>vs_cam := (vs_cam (sy_state c))\<lparr>mt_sensor := s\<rparr>, vs_dev := d\<rparr>\<rparr>)"

inductive visensor_step :: "'d mmio \<Rightarrow> 'd visensor_sys \<Rightarrow> 'd visensor_sys \<Rightarrow> bool" for mm where
  no_client: "sy_main c = PollClient \<Longrightarrow> \<not> ts_has_connection (sy_tcp c) \<Longrightarrow> visensor_step mm c c"
| client: "sy_main c = PollClient \<Longrightarrow> ts_has_connection (sy_tcp c) \<Longrightarrow> visensor_step mm c (c\<lparr>sy_main := PollData\<rparr>)"
| poll_data: "sy_main c = PollData \<Longrightarrow>
    Sensor_newDataAvailable mm (mt_sensor (vs_cam (sy_state c))) (vs_dev (sy_state c)) = (available, d) \<Longrightarrow>
    visensor_step mm c (sy_set_dev d c\<lparr>sy_main := if available then SendImage else PollClient\<rparr>)"
| send_image: "sy_main c = SendImage \<Longrightarrow> visensor_step mm c (sy_send m n c\<lparr>sy_main := MovePointer\<rparr>)"
| send_fails: "sy_main c = SendImage \<Longrightarrow> visensor_step mm c (c\<lparr>sy_main := GiveUp accept_connection_stmts\<rparr>)"
| give_up: "sy_main c = GiveUp (s # ss) \<Longrightarrow>
    visensor_step mm c (sy_set_tcp (tcp_stmt s (sy_tcp c)) c\<lparr>sy_main := GiveUp ss\<rparr>)"
| given_up: "sy_main c = GiveUp [] \<Longrightarrow> visensor_step mm c (c\<lparr>sy_main := MovePointer\<rparr>)"
| move: "sy_main c = MovePointer \<Longrightarrow> visensor_step mm c (sy_move mm c\<lparr>sy_main := PollClient\<rparr>)"
| data_accept: "ts_accept_pending (sy_tcp c) \<Longrightarrow>
    visensor_step mm c (sy_set_tcp (accept_completes error opened (sy_tcp c)) c\<lparr>sy_data_io := sy_data_io c @ [error]\<rparr>)"
| data_handler: "sy_data_io c = error # es \<Longrightarrow> handle_accept_body error remote (sy_tcp c) = Ret t \<Longrightarrow>
    visensor_step mm c (sy_set_tcp t c\<lparr>sy_data_io := es\<rparr>)"
| config_accept: "ts_accept_pending (vs_config (sy_state c)) \<Longrightarrow>
    visensor_step mm c (sy_set_config (accept_completes error opened (vs_config (sy_state c))) c
      \<lparr>sy_config_io := sy_config_io c @ [error]\<rparr>)"
| config_handler: "sy_config_io c = error # es \<Longrightarrow> handle_accept_body error remote (vs_config (sy_state c)) = Ret t \<Longrightarrow>
    visensor_step mm c (sy_set_config t c\<lparr>sy_config_io := es\<rparr>)"
| hardware: "visensor_step mm c (sy_set_dev d c)"

text \<open>After the threads are started.\<close>

definition visensor_sys_init :: "'d visensor \<Rightarrow> 'd visensor_sys" where
  "visensor_sys_init v = \<lparr>sy_state = v, sy_main = PollClient, sy_data_io = [], sy_config_io = []\<rparr>"

abbreviation visensor_reach :: "os \<Rightarrow> 'd mmio \<Rightarrow> 'd visensor_sys \<Rightarrow> bool" where
  "visensor_reach os mm \<equiv> reachable
     (\<lambda>c. \<exists>v j1 j2 junk d. visensor_start os mm j1 j2 junk d = Ret v \<and> c = visensor_sys_init v) (visensor_step mm)"

lemmas sy_defs = sy_tcp_def sy_set_tcp_def sy_set_config_def sy_set_dev_def

subsection \<open>The invariant\<close>

text \<open>A server outside \<open>accept_connection\<close>: the flag is up only with the socket open and the I/O thread done with it; an accept
  is outstanding only with the socket closed and the flag down; at most one handler is to run.\<close>

definition tcp_typed :: "TcpServer \<Rightarrow> bool list \<Rightarrow> bool" where
  "tcp_typed t io \<longleftrightarrow> (ts_has_connection t \<longrightarrow> ts_socket_open t \<and> \<not> ts_accept_pending t \<and> io = []) \<and>
     (ts_accept_pending t \<longrightarrow> \<not> ts_socket_open t \<and> io = []) \<and>
     (io \<noteq> [] \<longrightarrow> (\<exists>error. io = [error] \<and> (\<not> error \<longrightarrow> ts_socket_open t)))"

text \<open>The place of the main thread against the I/O thread: while the main thread looks for data, sends, or runs the statements,
  the I/O thread has nothing to do with the data server.\<close>

fun main_typed :: "visensor_pc \<Rightarrow> TcpServer \<Rightarrow> bool list \<Rightarrow> bool" where
  "main_typed PollClient t io \<longleftrightarrow> tcp_typed t io"
| "main_typed MovePointer t io \<longleftrightarrow> tcp_typed t io"
| "main_typed (GiveUp []) t io \<longleftrightarrow> tcp_typed t io"
| "main_typed (GiveUp ss) t io \<longleftrightarrow> \<not> ts_accept_pending t \<and> io = [] \<and>
     (ss = [ClearFlag, CloseSocket, AsyncAccept] \<or> ss = [CloseSocket, AsyncAccept] \<and> \<not> ts_has_connection t \<or>
      ss = [AsyncAccept] \<and> \<not> ts_has_connection t \<and> \<not> ts_socket_open t)"
| "main_typed pc t io \<longleftrightarrow> ts_has_connection t \<and> ts_socket_open t \<and> \<not> ts_accept_pending t \<and> io = []"

text \<open>The stream of a connection: beginnings of frames, each with the header of an image and 360960 bytes.\<close>

definition image_stream :: "byte list \<Rightarrow> bool" where
  "image_stream s \<longleftrightarrow> (\<exists>frames. s = concat (map (\<lambda>(n, data). take n (send_buffers image_header data)) frames) \<and>
     (\<forall>(n, data) \<in> set frames. length data = 360960))"

definition visensor_typed :: "'d visensor_sys \<Rightarrow> bool" where
  "visensor_typed c \<longleftrightarrow> image_ring (vs_ring (sy_state c)) \<and>
     rb_registers (vs_ring (sy_state c)) = sn_registers (mt_sensor (vs_cam (sy_state c))) \<and>
     main_typed (sy_main c) (sy_tcp c) (sy_data_io c) \<and> image_stream (ts_wire (sy_tcp c)) \<and>
     tcp_typed (vs_config (sy_state c)) (sy_config_io c) \<and> ts_wire (vs_config (sy_state c)) = []"

lemma image_stream_Nil [simp]: "image_stream []"
  unfolding image_stream_def by (rule exI [of _ "[]"]) simp

lemma image_stream_send:
  assumes "image_stream s" and "length data = 360960"
  shows "image_stream (s @ take n (send_buffers image_header data))"
proof -
  obtain frames where "s = concat (map (\<lambda>(n, data). take n (send_buffers image_header data)) frames)"
    "\<forall>(n, data) \<in> set frames. length data = 360960"
    using assms(1) by (auto simp: image_stream_def)
  with assms(2) show ?thesis
    unfolding image_stream_def by (intro exI [of _ "frames @ [(n, data)]"]) auto
qed

lemma tcp_stmt_wire [simp]: "ts_wire (tcp_stmt s t) = ts_wire t"
  by (cases s) auto

lemma tcp_typed_completes: "tcp_typed t io \<Longrightarrow> ts_accept_pending t \<Longrightarrow> tcp_typed (accept_completes error opened t) (io @ [error])"
  by (auto simp: tcp_typed_def accept_completes_def)

lemma tcp_typed_handler:
  "tcp_typed t (error # es) \<Longrightarrow> handle_accept_body error remote t = Ret t' \<Longrightarrow> tcp_typed t' es \<and> ts_wire t' = ts_wire t"
  by (auto simp: tcp_typed_def handle_accept_body_def split: if_splits option.splits)

text \<open>When the I/O thread has something to do with the data server, the main thread is outside the critical places.\<close>

lemma main_typed_io:
  assumes "main_typed pc t io" and "ts_accept_pending t \<or> io \<noteq> []"
  shows "tcp_typed t io" and "tcp_typed t' io' \<Longrightarrow> main_typed pc t' io'"
  using assms by (cases "(pc, t, io)" rule: main_typed.cases; auto)+

lemma main_typed_give_up:
  "main_typed (GiveUp (s # ss)) t io \<Longrightarrow> main_typed (GiveUp ss) (tcp_stmt s t) io"
  by (auto simp: tcp_typed_def)

lemma main_typed_simps:
  "main_typed (GiveUp accept_connection_stmts) t io \<longleftrightarrow> \<not> ts_accept_pending t \<and> io = []"
  "main_typed PollData t io \<Longrightarrow> main_typed PollClient t io"
  "main_typed PollClient t io \<Longrightarrow> ts_has_connection t \<Longrightarrow> main_typed PollData t io"
  by (auto simp: accept_connection_stmts_def tcp_typed_def)

lemma send_typed:
  assumes "visensor_typed c" and "sy_main c = SendImage"
  shows "visensor_typed (sy_send m n c\<lparr>sy_main := MovePointer\<rparr>)"
proof -
  let ?s = "mt_sensor (vs_cam (sy_state c))"
  have header: "\<lparr>timestamp = 0, data_size = Sensor_data_size ?s, data_id = 100\<rparr> = image_header"
    using assms(1) by (simp add: visensor_typed_def image_ring_def image_header_def Sensor_data_size_def
        SharedRingBuffer_data_size_def)
  then have "length (load_bytes m (Sensor_data ?s) (unat (Sensor_data_size ?s))) = 360960"
    by (simp add: image_header_def)
  from image_stream_send [OF _ this] assms show ?thesis
    by (auto simp: visensor_typed_def sy_send_def sy_defs header Let_def TcpServer_send_data_def tcp_typed_def)
qed

lemma move_typed:
  assumes "visensor_typed c" and "sy_main c = MovePointer"
  shows "visensor_typed (sy_move mm c\<lparr>sy_main := PollClient\<rparr>)"
proof -
  let ?s = "mt_sensor (vs_cam (sy_state c))" and ?d = "vs_dev (sy_state c)"
  have "sensor_wf (fst (Sensor_movePointer mm ?s ?d)) \<and> image_ring (sn_buffer (fst (Sensor_movePointer mm ?s ?d)))"
    using assms sensor_wf_movePointer [of ?s mm ?d] image_ring_move(1) [of "sn_buffer ?s" mm ?d]
    by (simp add: visensor_typed_def sensor_wf_def image_ring_def)
  with assms show ?thesis
    by (simp add: visensor_typed_def sy_move_def sy_tcp_def sensor_wf_def case_prod_unfold)
qed

lemma visensor_typed_step:
  assumes "visensor_step mm c c'" and "visensor_typed c"
  shows "visensor_typed c'"
  using assms(1)
proof cases
  case client
  then show ?thesis using assms(2) main_typed_simps(3) by (auto simp: visensor_typed_def sy_tcp_def)
next
  case (poll_data available d)
  then show ?thesis using assms(2) main_typed_simps(2) by (auto simp: visensor_typed_def sy_defs)
next
  case (send_image m n)
  then show ?thesis using send_typed [OF assms(2)] by simp
next
  case send_fails
  then show ?thesis using assms(2) by (simp add: visensor_typed_def sy_tcp_def main_typed_simps(1))
next
  case (give_up s ss)
  then show ?thesis
    using assms(2) main_typed_give_up [of s ss "sy_tcp c" "sy_data_io c"] by (simp add: visensor_typed_def sy_defs)
next
  case move
  then show ?thesis using move_typed [OF assms(2)] by simp
next
  case (data_accept error opened)
  then show ?thesis
    using assms(2) main_typed_io [of "sy_main c" "sy_tcp c" "sy_data_io c"] tcp_typed_completes [of "sy_tcp c"]
    by (auto simp: visensor_typed_def sy_defs accept_completes_def)
next
  case (data_handler error es remote t)
  then show ?thesis
    using assms(2) main_typed_io [of "sy_main c" "sy_tcp c" "sy_data_io c"] tcp_typed_handler [of "sy_tcp c" error es remote t]
    by (auto simp: visensor_typed_def sy_defs)
next
  case (config_accept error opened)
  then show ?thesis
    using assms(2) tcp_typed_completes [of "vs_config (sy_state c)"]
    by (auto simp: visensor_typed_def sy_defs accept_completes_def)
next
  case (config_handler error es remote t)
  then show ?thesis
    using assms(2) tcp_typed_handler [of "vs_config (sy_state c)" error es remote t]
    by (auto simp: visensor_typed_def sy_defs)
qed (use assms(2) in \<open>auto simp: visensor_typed_def sy_defs\<close>)

lemma visensor_typed_start:
  assumes "visensor_start os mm j1 j2 junk d = Ret v"
  shows "visensor_typed (visensor_sys_init v)"
proof -
  have "vs_config v = TcpServer_new" using assms by (auto simp: visensor_start_def)
  moreover have "tcp_typed TcpServer_new [] \<and> ts_wire TcpServer_new = []"
    by (simp add: tcp_typed_def TcpServer_new_def TcpServer_accept_connection_def)
  ultimately show ?thesis
    using visensor_start_ring [OF assms] by (simp add: visensor_typed_def visensor_sys_init_def sy_tcp_def)
qed

interpretation visensor_system: invariant_system
  "\<lambda>c. \<exists>v j1 j2 junk d. visensor_start os mm j1 j2 junk d = Ret v \<and> c = visensor_sys_init v" "visensor_step mm"
  visensor_typed for os mm
  by unfold_locales (auto intro: visensor_typed_start visensor_typed_step)

subsection \<open>The sequential pass\<close>

text \<open>Without interleaving, the steps of the main thread make up the pass of \<open>Servers\<close>.\<close>

lemma give_up_path:
  assumes "sy_main c = GiveUp ss"
  shows "(visensor_step mm)\<^sup>*\<^sup>* c (sy_set_tcp (fold tcp_stmt ss (sy_tcp c)) c\<lparr>sy_main := MovePointer\<rparr>)"
  using assms
proof (induction ss arbitrary: c)
  case Nil
  from given_up [OF this, of mm] show ?case by (auto simp: sy_defs)
next
  case (Cons s ss)
  from give_up [OF Cons.prems, of mm]
    Cons.IH [of "sy_set_tcp (tcp_stmt s (sy_tcp c)) c\<lparr>sy_main := GiveUp ss\<rparr>"]
  show ?case by (auto simp: sy_defs intro: converse_rtranclp_into_rtranclp)
qed

lemma send_path:
  assumes "sy_main c = SendImage"
  shows "let s = mt_sensor (vs_cam (sy_state c)); header_cam = \<lparr>timestamp = 0, data_size = Sensor_data_size s, data_id = 100\<rparr> in
    (visensor_step mm)\<^sup>*\<^sup>* c (sy_set_tcp (TcpServer_send_data (load_bytes m (Sensor_data s) (unat (Sensor_data_size s)))
      header_cam result (sy_tcp c)) c\<lparr>sy_main := MovePointer\<rparr>)"
proof (cases result)
  case (Sent n)
  then show ?thesis using send_image [OF assms, of mm m n] by (auto simp: sy_send_def Let_def)
next
  case SendError
  then show ?thesis
    using send_fails [OF assms, of mm] give_up_path [of "c\<lparr>sy_main := GiveUp accept_connection_stmts\<rparr>" _ mm]
    by (auto simp: TcpServer_send_data_def fold_tcp_stmt sy_defs Let_def intro: converse_rtranclp_into_rtranclp)
qed

lemma visensor_pass_is_path:
  assumes "sy_main c = PollClient"
  shows "(visensor_step mm)\<^sup>*\<^sup>* c (c\<lparr>sy_state := visensor_pass mm m result (sy_state c)\<rparr>)"
proof (cases "ts_has_connection (sy_tcp c)")
  case False
  then show ?thesis by (simp add: visensor_pass_def sy_tcp_def)
next
  case True
  let ?s = "mt_sensor (vs_cam (sy_state c))"
  obtain available d where poll: "Sensor_newDataAvailable mm ?s (vs_dev (sy_state c)) = (available, d)" by fastforce
  let ?c1 = "c\<lparr>sy_main := PollData\<rparr>"
  let ?c2 = "sy_set_dev d ?c1\<lparr>sy_main := if available then SendImage else PollClient\<rparr>"
  have steps: "visensor_step mm c ?c1" "visensor_step mm ?c1 ?c2"
    using client [OF assms True, of mm] poll_data [of ?c1 mm available d] poll by simp_all
  show ?thesis
  proof (cases available)
    case False
    have "c\<lparr>sy_state := visensor_pass mm m result (sy_state c)\<rparr> = ?c2"
      using True False poll assms by (simp add: visensor_pass_def sy_defs Let_def)
    with steps show ?thesis by (auto intro: converse_rtranclp_into_rtranclp)
  next
    case available: True
    let ?t = "TcpServer_send_data (load_bytes m (Sensor_data ?s) (unat (Sensor_data_size ?s)))
      \<lparr>timestamp = 0, data_size = Sensor_data_size ?s, data_id = 100\<rparr> result (sy_tcp c)"
    let ?c3 = "sy_set_tcp ?t ?c2\<lparr>sy_main := MovePointer\<rparr>"
    have "(visensor_step mm)\<^sup>*\<^sup>* ?c2 ?c3"
      using available send_path [of ?c2 mm m result] by (simp add: sy_defs Let_def)
    moreover have "visensor_step mm ?c3 (sy_move mm ?c3\<lparr>sy_main := PollClient\<rparr>)" by (rule move) simp
    moreover have "sy_move mm ?c3\<lparr>sy_main := PollClient\<rparr> = c\<lparr>sy_state := visensor_pass mm m result (sy_state c)\<rparr>"
      using True available poll assms by (simp add: visensor_pass_def sy_move_def sy_defs Let_def case_prod_unfold)
    ultimately show ?thesis
      using steps by (auto intro: converse_rtranclp_into_rtranclp rtranclp.rtrancl_into_rtrancl)
  qed
qed

subsection \<open>Properties\<close>

text \<open>C2: the camera server's state is well formed in every interleaving of the two threads, statement by statement. Whatever
  clients come and go, whatever part of a send the kernel takes, whatever the FPGA does: the ring keeps its eight slots of
  one image and a position inside, and shares the registers of its camera; when the main thread polls the ring or sends,
  the flag is up, the socket is open, and the I/O thread is neither accepting into the socket nor about to run a handler;
  while it gives a connection up, up to the start of the new accept, the I/O thread does not touch the server either;
  neither server ever has more than one accept outstanding or waiting for its handler; the configuration server never
  sends; and the stream of the current client consists of beginnings of frames of one image each.\<close>

theorem visensor_well_typed:
  assumes "visensor_reach os mm c"
  shows "rb_length (vs_ring (sy_state c)) = 8 \<and> rb_data_size (vs_ring (sy_state c)) = 360960 \<and>
    unat (rb_position (vs_ring (sy_state c))) < 8 \<and>
    rb_registers (vs_ring (sy_state c)) = sn_registers (mt_sensor (vs_cam (sy_state c))) \<and>
    (sy_main c \<in> {PollData, SendImage} \<longrightarrow> ts_has_connection (sy_tcp c) \<and> ts_socket_open (sy_tcp c) \<and>
       \<not> ts_accept_pending (sy_tcp c) \<and> sy_data_io c = []) \<and>
    (\<forall>s ss. sy_main c = GiveUp (s # ss) \<longrightarrow> \<not> ts_accept_pending (sy_tcp c) \<and> sy_data_io c = []) \<and>
    length (sy_data_io c) + of_bool (ts_accept_pending (sy_tcp c)) \<le> 1 \<and>
    length (sy_config_io c) + of_bool (ts_accept_pending (vs_config (sy_state c))) \<le> 1 \<and>
    ts_wire (vs_config (sy_state c)) = [] \<and>
    (\<exists>frames. ts_wire (sy_tcp c) = concat (map (\<lambda>(n, data). take n (send_buffers image_header data)) frames) \<and>
       (\<forall>(n, data) \<in> set frames. length data = 360960))"
proof -
  have inv: "visensor_typed c" using assms by (rule visensor_system.reach_inv)
  have one: "length io + of_bool (ts_accept_pending t) \<le> 1" if "tcp_typed t io" for t io
    using that by (auto simp: tcp_typed_def)
  have "length (sy_data_io c) + of_bool (ts_accept_pending (sy_tcp c)) \<le> 1"
    using inv main_typed_io(1) [of "sy_main c" "sy_tcp c" "sy_data_io c"] one [of "sy_tcp c" "sy_data_io c"]
    by (cases "ts_accept_pending (sy_tcp c) \<or> sy_data_io c \<noteq> []") (auto simp: visensor_typed_def)
  then show ?thesis
    using inv one [of "vs_config (sy_state c)" "sy_config_io c"]
    by (auto simp: visensor_typed_def image_ring_def ring_wf_def image_stream_def)
qed

text \<open>A client is accepted, and an image of which the kernel takes five bytes is sent to it.\<close>

theorem visensor_well_typed_witness:
  "\<exists>v c. visensor_start demo_os demo_fpga 0 0x1F000000 0 0 = Ret v \<and>
     (visensor_step demo_fpga)\<^sup>*\<^sup>* (visensor_sys_init v) c \<and> sy_main c = PollData \<and>
     length (ts_wire (sy_tcp c)) = 5 \<and> ts_socket_open (sy_tcp c) \<and> unat (rb_position (vs_ring (sy_state c))) < 8"
proof -
  let ?step = "visensor_step demo_fpga"
  obtain v where v: "visensor_start demo_os demo_fpga 0 0x1F000000 0 0 = Ret v"
    and phys: "rb_buffer_pysical_address (vs_ring v) = 0x1F000000" using demo_visensor_started by blast
  note ring = visensor_start_ring [OF v]
  let ?t0 = "accept_completes False False TcpServer_new" and ?w = "v\<lparr>vs_dev := 0x1F000000 + 2 * 360960\<rparr>"
  let ?t1 = "?t0\<lparr>ts_has_connection := True\<rparr>"
  let ?c0 = "visensor_sys_init v" and ?c1 = "\<lparr>sy_state = ?w, sy_main = PollClient, sy_data_io = [], sy_config_io = []\<rparr>"
  let ?c2 = "sy_set_tcp ?t0 ?c1\<lparr>sy_data_io := [False]\<rparr>" and ?c3 = "sy_set_tcp ?t1 ?c1"
  let ?c4 = "?c3\<lparr>sy_state := visensor_pass demo_fpga (\<lambda>_. 0) (Sent 5) (sy_state ?c3)\<rparr>"
  have p1: "?step\<^sup>*\<^sup>* ?c0 ?c1"
    using hardware [of demo_fpga ?c0 "0x1F000000 + 2 * 360960"] by (auto simp: sy_set_dev_def visensor_sys_init_def)
  have p2: "?step\<^sup>*\<^sup>* ?c1 ?c2"
    using data_accept [of ?c1 demo_fpga False False] ring(3)
    by (auto simp: sy_defs TcpServer_new_def TcpServer_accept_connection_def)
  have p3: "?step\<^sup>*\<^sup>* ?c2 ?c3"
    using data_handler [of ?c2 False "[]" "Some ''10.0.0.2''" ?t1 demo_fpga] by (auto simp: sy_defs handle_accept_body_def)
  have p4: "?step\<^sup>*\<^sup>* ?c3 ?c4" by (rule visensor_pass_is_path) (simp add: sy_defs)
  have path: "?step\<^sup>*\<^sup>* ?c0 ?c4"
    by (rule rtranclp_trans [OF p1 rtranclp_trans [OF p2 rtranclp_trans [OF p3 p4]]])
  have "image_ready demo_fpga (vs_ring (sy_state ?c3)) (unat (rb_position (vs_ring (sy_state ?c3)))) (vs_dev (sy_state ?c3))"
    using ring(1,2) phys
    by (simp add: image_ready_def FPGARegisters_getRegisterValue_def demo_fpga_def slot_address_def sy_defs image_ring_def)
  from visensor_pass_image [OF _ _ this, of "\<lambda>_. 0" "Sent 5"] ring(1)
  have sent: "sy_tcp ?c4 = TcpServer_send_data (load_bytes (\<lambda>_. 0) (slot_data (vs_ring v) 0) 360960) image_header (Sent 5) ?t1"
    using ring(2) by (auto simp: sy_defs)
  have "?step ?c4 (?c4\<lparr>sy_main := PollData\<rparr>)"
    by (rule client, simp add: sy_set_tcp_def, subst sent) (simp add: TcpServer_send_data_def)
  with path have all: "?step\<^sup>*\<^sup>* ?c0 (?c4\<lparr>sy_main := PollData\<rparr>)" by simp
  moreover have "visensor_reach demo_os demo_fpga ?c0" using v by (intro reach_init) blast
  ultimately have "visensor_reach demo_os demo_fpga (?c4\<lparr>sy_main := PollData\<rparr>)" by (rule reachable_path)
  note typed = visensor_well_typed [OF this]
  have "length (ts_wire (sy_tcp (?c4\<lparr>sy_main := PollData\<rparr>))) = 5"
    using sent length_send_image [of "\<lambda>_. 0"]
    by (simp add: sy_tcp_def TcpServer_send_data_def accept_completes_def)
  with v all typed show ?thesis by (intro exI [of _ v] exI [of _ "?c4\<lparr>sy_main := PollData\<rparr>"]) auto
qed

end
