(* ===== verification/SlamThreads.thy ===== *)
theory SlamThreads
  imports Servers
begin

text \<open>
  The two threads of slam_sensor_server/src/main.cpp, statement by statement, on the state of the server: the shared memory,
  the TCP connection and what was sent. The main thread polls for a client, asks for its address and goes round the regions (each
  camera, followed by the IMU and the configuration): it tests the flag, sends and clears it. In the turn of a camera it
  sends the image of camera 0, whichever camera it is (line 103). The statements of \<open>accept_connection\<close> are
  steps of their own, in the order of slam_sensor_server/src/tcp_server.cpp. The I/O thread runs the timer handlers
  \<open>cam_faker\<close> and \<open>imu_faker\<close>, one store at a time, and the handlers of accepts that the kernel has completed. Every
  interleaving of the statements is a path of the step relation. A send is one step: it reads data that no thread writes while
  the program runs. The outcomes of the calls of a step are its second argument; an exception ends the program.
\<close>

subsection \<open>States and steps\<close>

datatype main_pc = Poll | AskPeer | TestAt nat | SendAt nat | GiveUpAt nat "stmt list" | ClearAt nat | Ended

text \<open>\<open>sh_io\<close> lists the stores that the handler under way has yet to do, \<open>sh_accepts\<close> the completed accepts whose handler has
  not run, with whether they failed. The counters are for the statements only: how often the flag of a region was raised,
  how often a send was made because of it, and how often the data of a region was sent.\<close>

record slam_threads =
  sh_server :: slam_server
  sh_main :: main_pc
  sh_io :: "SharedMemory list"
  sh_accepts :: "bool list"
  sh_raised :: "SharedMemory \<Rightarrow> nat"
  sh_served :: "SharedMemory \<Rightarrow> nat"
  sh_sent :: "SharedMemory \<Rightarrow> nat"

abbreviation sh_mem :: "slam_threads \<Rightarrow> mem" where "sh_mem c \<equiv> sv_mem (sh_server c)"
abbreviation sh_tcp :: "slam_threads \<Rightarrow> TcpServer" where "sh_tcp c \<equiv> sv_tcp (sh_server c)"
abbreviation sh_udp :: "slam_threads \<Rightarrow> byte list list" where "sh_udp c \<equiv> sv_udp (sh_server c)"

text \<open>What the network does: the results of \<open>send_to\<close>, the peer of the socket, whether a \<open>write\<close> succeeds, and how much of the
  data was taken by one that does not.\<close>

record calls =
  ca_net :: "nat \<Rightarrow> byte list \<Rightarrow> u32 option"
  ca_remote :: "string option"
  ca_ok :: bool
  ca_taken :: nat

text \<open>The regions in the order in which the body of \<open>while(1)\<close> serves them, and where the main thread is after one.\<close>

definition turn_order :: "slam_manager \<Rightarrow> SharedMemory list" where
  "turn_order g = concat (map (\<lambda>c. [c, sl_imu g, sl_config g]) (sl_cams g))"

definition turn_at :: "slam_manager \<Rightarrow> nat \<Rightarrow> main_pc" where
  "turn_at g k = (if k < length (turn_order g) then TestAt k else Poll)"

text \<open>Every third turn, beginning with the first, is that of a camera, whose number goes out with the image.\<close>

definition camera_turn :: "nat \<Rightarrow> bool" where
  "camera_turn k \<longleftrightarrow> k mod 3 = 0"

definition set_tcp :: "TcpServer \<Rightarrow> slam_threads \<Rightarrow> slam_threads" where
  "set_tcp t c = c\<lparr>sh_server := (sh_server c)\<lparr>sv_tcp := t\<rparr>\<rparr>"

definition set_flag :: "SharedMemory \<Rightarrow> bool \<Rightarrow> slam_threads \<Rightarrow> slam_threads" where
  "set_flag r b c = c\<lparr>sh_server := (sh_server c)\<lparr>sv_mem := SharedMemory_setNewDataAvailable r b (sh_mem c)\<rparr>\<rparr>"

definition add_udp :: "byte list list \<Rightarrow> slam_threads \<Rightarrow> slam_threads" where
  "add_udp ps c = c\<lparr>sh_server := (sh_server c)\<lparr>sv_udp := sh_udp c @ ps\<rparr>\<rparr>"

definition add_wire :: "byte list \<Rightarrow> slam_threads \<Rightarrow> slam_threads" where
  "add_wire bs c = set_tcp ((sh_tcp c)\<lparr>ts_wire := ts_wire (sh_tcp c) @ bs\<rparr>) c"

definition count_send :: "SharedMemory \<Rightarrow> SharedMemory \<Rightarrow> slam_threads \<Rightarrow> slam_threads" where
  "count_send r s c = c\<lparr>sh_served := (sh_served c)(r := sh_served c r + 1), sh_sent := (sh_sent c)(s := sh_sent c s + 1)\<rparr>"

definition region_data :: "mem \<Rightarrow> SharedMemory \<Rightarrow> byte list" where
  "region_data m r = load_bytes m (SharedMemory_data r) (unat (SharedMemory_size r))"

inductive slam_main_step :: "slam_manager \<Rightarrow> calls \<Rightarrow> slam_threads \<Rightarrow> slam_threads \<Rightarrow> bool" for g a where
  poll_nobody: "sh_main c = Poll \<Longrightarrow> \<not> ts_has_connection (sh_tcp c) \<Longrightarrow> slam_main_step g a c c"
| poll_client: "sh_main c = Poll \<Longrightarrow> ts_has_connection (sh_tcp c) \<Longrightarrow> slam_main_step g a c (c\<lparr>sh_main := AskPeer\<rparr>)"
| ask_peer: "sh_main c = AskPeer \<Longrightarrow> slam_getEndpoint (ca_remote a) (sh_tcp c) = Ret addr \<Longrightarrow>
    slam_main_step g a c (c\<lparr>sh_main := turn_at g 0\<rparr>)"
| ask_gone: "sh_main c = AskPeer \<Longrightarrow> slam_getEndpoint (ca_remote a) (sh_tcp c) = Throw e \<Longrightarrow>
    slam_main_step g a c (c\<lparr>sh_main := Ended\<rparr>)"
| test_raised: "sh_main c = TestAt k \<Longrightarrow> SharedMemory_newDataAvailable (sh_mem c) (turn_order g ! k) \<Longrightarrow>
    slam_main_step g a c (c\<lparr>sh_main := SendAt k\<rparr>)"
| test_down: "sh_main c = TestAt k \<Longrightarrow> \<not> SharedMemory_newDataAvailable (sh_mem c) (turn_order g ! k) \<Longrightarrow>
    slam_main_step g a c (c\<lparr>sh_main := turn_at g (Suc k)\<rparr>)"
| send_image: "sh_main c = SendAt k \<Longrightarrow> camera_turn k \<Longrightarrow>
    UdpServer_send_data (ca_net a) (of_nat (k div 3)) (SharedMemory_data (sl_cams g ! 0))
      (SharedMemory_size (sl_cams g ! 0)) (sh_mem c) = Some (True, ps) \<Longrightarrow>
    slam_main_step g a c (add_udp ps (count_send (turn_order g ! k) (sl_cams g ! 0) c)\<lparr>sh_main := ClearAt k\<rparr>)"
| send_to_throws: "sh_main c = SendAt k \<Longrightarrow> camera_turn k \<Longrightarrow>
    UdpServer_send_data (ca_net a) (of_nat (k div 3)) (SharedMemory_data (sl_cams g ! 0))
      (SharedMemory_size (sl_cams g ! 0)) (sh_mem c) = Some (False, ps) \<Longrightarrow>
    slam_main_step g a c (add_udp ps c\<lparr>sh_main := Ended\<rparr>)"
| write_data: "sh_main c = SendAt k \<Longrightarrow> \<not> camera_turn k \<Longrightarrow> ca_ok a \<and> ts_socket_open (sh_tcp c) \<Longrightarrow>
    slam_main_step g a c (add_wire (region_data (sh_mem c) (turn_order g ! k))
      (count_send (turn_order g ! k) (turn_order g ! k) c)\<lparr>sh_main := ClearAt k\<rparr>)"
| write_fails: "sh_main c = SendAt k \<Longrightarrow> \<not> camera_turn k \<Longrightarrow> \<not> (ca_ok a \<and> ts_socket_open (sh_tcp c)) \<Longrightarrow>
    slam_main_step g a c (add_wire (if ts_socket_open (sh_tcp c)
        then take (ca_taken a) (region_data (sh_mem c) (turn_order g ! k)) else []) c
      \<lparr>sh_main := GiveUpAt k slam_accept_connection_stmts\<rparr>)"
| give_up: "sh_main c = GiveUpAt k (s # ss) \<Longrightarrow>
    slam_main_step g a c (set_tcp (tcp_stmt s (sh_tcp c)) c\<lparr>sh_main := GiveUpAt k ss\<rparr>)"
| given_up: "sh_main c = GiveUpAt k [] \<Longrightarrow> slam_main_step g a c (c\<lparr>sh_main := ClearAt k\<rparr>)"
| clear: "sh_main c = ClearAt k \<Longrightarrow>
    slam_main_step g a c (set_flag (turn_order g ! k) False c\<lparr>sh_main := turn_at g (Suc k)\<rparr>)"

inductive slam_io_step :: "slam_manager \<Rightarrow> slam_threads \<Rightarrow> slam_threads \<Rightarrow> bool" for g where
  accept: "ts_accept_pending (sh_tcp c) \<Longrightarrow>
    slam_io_step g c (set_tcp (accept_completes error opened (sh_tcp c)) c\<lparr>sh_accepts := sh_accepts c @ [error]\<rparr>)"
| accept_handler: "sh_io c = [] \<Longrightarrow> sh_accepts c = error # es \<Longrightarrow> handle_accept_body error remote (sh_tcp c) = Ret t \<Longrightarrow>
    slam_io_step g c (set_tcp t c\<lparr>sh_accepts := es\<rparr>)"
| accept_throws: "sh_io c = [] \<Longrightarrow> sh_accepts c = error # es \<Longrightarrow> handle_accept_body error remote (sh_tcp c) = Throw e \<Longrightarrow>
    slam_io_step g c (c\<lparr>sh_main := Ended\<rparr>)"
| cam_timer: "sh_io c = [] \<Longrightarrow> slam_io_step g c (c\<lparr>sh_io := [sl_cams g ! 0, sl_cams g ! 1]\<rparr>)"
| imu_timer: "sh_io c = [] \<Longrightarrow> slam_io_step g c (c\<lparr>sh_io := [sl_imu g]\<rparr>)"
| raise: "sh_io c = r # rs \<Longrightarrow>
    slam_io_step g c (set_flag r True c\<lparr>sh_io := rs, sh_raised := (sh_raised c)(r := sh_raised c r + 1)\<rparr>)"

definition slam_threads_init :: "mem \<Rightarrow> slam_threads" where
  "slam_threads_init m =
     \<lparr>sh_server = \<lparr>sv_mem = m, sv_tcp = slam_TcpServer_new, sv_udp = []\<rparr>, sh_main = Poll, sh_io = [], sh_accepts = [],
      sh_raised = (\<lambda>_. 0), sh_served = (\<lambda>_. 0), sh_sent = (\<lambda>_. 0)\<rparr>"

text \<open>Both threads; after the end of the program there is no step.\<close>

definition slam_step :: "slam_manager \<Rightarrow> slam_threads \<Rightarrow> slam_threads \<Rightarrow> bool" where
  "slam_step g c c' \<longleftrightarrow> sh_main c \<noteq> Ended \<and> ((\<exists>a. slam_main_step g a c c') \<or> slam_io_step g c c')"

abbreviation slam_reach :: "slam_manager \<Rightarrow> mem \<Rightarrow> slam_threads \<Rightarrow> bool" where
  "slam_reach g m \<equiv> reachable (\<lambda>c. c = slam_threads_init m) (slam_step g)"

text \<open>The main thread alone, and with given outcomes of its calls.\<close>

abbreviation main_path :: "slam_manager \<Rightarrow> slam_threads \<Rightarrow> slam_threads \<Rightarrow> bool" where
  "main_path g \<equiv> (\<lambda>c c'. \<exists>a. slam_main_step g a c c')\<^sup>*\<^sup>*"

lemmas sh_updates [simp] = set_tcp_def set_flag_def add_udp_def add_wire_def count_send_def

lemma slam_init: "slam_reach g m (slam_threads_init m)"
  by (rule reach_init) simp

lemma slam_main: "slam_reach g m c \<Longrightarrow> sh_main c \<noteq> Ended \<Longrightarrow> slam_main_step g a c c' \<Longrightarrow> slam_reach g m c'"
  and slam_io: "slam_reach g m c \<Longrightarrow> sh_main c \<noteq> Ended \<Longrightarrow> slam_io_step g c c' \<Longrightarrow> slam_reach g m c'"
  by (rule reach_step, assumption, auto simp: slam_step_def)+

lemma main_step_live: "slam_main_step g a c c' \<Longrightarrow> sh_main c \<noteq> Ended"
  by (cases rule: slam_main_step.cases) auto

lemma slam_main_go: "slam_main_step g a c c' \<Longrightarrow> slam_reach g m c \<Longrightarrow> slam_reach g m c'"
  by (rule slam_main) (auto dest: main_step_live)

lemma slam_main_path: "main_path g c c' \<Longrightarrow> slam_reach g m c \<Longrightarrow> slam_reach g m c'"
  by (induction rule: rtranclp_induct) (auto intro: slam_main_go)

lemma main_path_calls: "(slam_main_step g a)\<^sup>*\<^sup>* c c' \<Longrightarrow> main_path g c c'"
  by (erule rev_predicate2D, rule rtranclp_mono) auto

subsection \<open>The regions\<close>

text \<open>The memory of the program: two cameras with images of 360960 bytes, and four regions whose flags and data are apart.\<close>

definition slam_shape :: "slam_manager \<Rightarrow> bool" where
  "slam_shape g \<longleftrightarrow> length (sl_cams g) = 2 \<and> sm_size (sl_cams g ! 0) = 360960 \<and> distinct (all_regions g) \<and>
     independent (set (all_regions g))"

lemma slam_manager_shape:
  assumes "slam_manager_new os 2 360960 10 10 = Ret g"
  shows "slam_shape g"
proof -
  from assms obtain c0 c1 where "sl_cams g = [c0, c1]" "sm_size c0 = 360960" "distinct [c0, c1, sl_imu g, sl_config g]"
    "independent {c0, c1, sl_imu g, sl_config g}"
    by (rule slam_regions)
  then show ?thesis by (simp add: slam_shape_def all_regions_def)
qed

lemma slam_shapeE:
  assumes "slam_shape g"
  obtains c0 c1 where "sl_cams g = [c0, c1]" "distinct [c0, c1, sl_imu g, sl_config g]"
    "turn_order g = [c0, sl_imu g, sl_config g, c1, sl_imu g, sl_config g]"
proof -
  from assms obtain c0 c1 where "sl_cams g = [c0, c1]"
    unfolding slam_shape_def by (metis One_nat_def Suc_1 length_0_conv length_Suc_conv)
  with assms show ?thesis by (intro that [of c0 c1]) (simp_all add: slam_shape_def all_regions_def turn_order_def)
qed

lemma turn_members:
  assumes "slam_shape g"
  shows "set (turn_order g) = set (all_regions g)" "length (turn_order g) = 6"
    "{sl_cams g ! 0, sl_cams g ! 1, sl_imu g, sl_config g} = set (turn_order g)"
  using assms by (auto elim!: slam_shapeE simp: all_regions_def)

lemma slam_distinct:
  assumes "slam_shape g"
  shows "distinct [sl_cams g ! 0, sl_cams g ! 1, sl_imu g, sl_config g]"
  using assms by (rule slam_shapeE) simp

lemma turn_cases:
  assumes "slam_shape g" and "k < length (turn_order g)"
  shows "camera_turn k \<Longrightarrow> turn_order g ! k = sl_cams g ! (k div 3) \<and> k div 3 < 2"
    and "\<not> camera_turn k \<Longrightarrow> turn_order g ! k \<in> {sl_imu g, sl_config g}"
proof -
  have "k \<in> {0, 1, 2, 3, 4, 5}" using assms turn_members(2) [OF assms(1)] by auto
  with assms(1) show "camera_turn k \<Longrightarrow> turn_order g ! k = sl_cams g ! (k div 3) \<and> k div 3 < 2"
    and "\<not> camera_turn k \<Longrightarrow> turn_order g ! k \<in> {sl_imu g, sl_config g}"
    by (auto elim!: slam_shapeE simp: camera_turn_def)
qed

lemma region_apart:
  assumes "slam_shape g" and "r \<in> set (turn_order g)" and "s \<in> set (turn_order g)"
  shows "SharedMemory_newDataAvailable (SharedMemory_setNewDataAvailable r v m) s =
      (if s = r then v else SharedMemory_newDataAvailable m s)"
    and "region_data (SharedMemory_setNewDataAvailable r v m) s = region_data m s"
  using assms flags.get_put [of r v m] flags.get_put_apart [of r s v m] turn_members(1) [OF assms(1)]
  by (auto simp: slam_shape_def independent_def region_data_def SharedMemory_size_def)

subsection \<open>The invariant\<close>

definition clearing :: "slam_manager \<Rightarrow> slam_threads \<Rightarrow> SharedMemory \<Rightarrow> bool" where
  "clearing g c r \<longleftrightarrow> (\<exists>k. sh_main c = ClearAt k \<and> turn_order g ! k = r)"

definition main_index :: "main_pc \<Rightarrow> nat" where
  "main_index p = (case p of TestAt k \<Rightarrow> k | SendAt k \<Rightarrow> k | GiveUpAt k ss \<Rightarrow> k | ClearAt k \<Rightarrow> k | _ \<Rightarrow> 0)"

text \<open>A raised flag that is not about to be cleared stands for one send that is still allowed.\<close>

definition send_due :: "slam_manager \<Rightarrow> slam_threads \<Rightarrow> SharedMemory \<Rightarrow> bool" where
  "send_due g c r \<longleftrightarrow> SharedMemory_newDataAvailable (sh_mem c) r \<and> \<not> clearing g c r \<and> sh_main c \<noteq> Ended"

definition balanced :: "slam_manager \<Rightarrow> mem \<Rightarrow> slam_threads \<Rightarrow> bool" where
  "balanced g m c \<longleftrightarrow> (\<forall>r \<in> set (turn_order g).
     sh_served c r + of_bool (send_due g c r) \<le> sh_raised c r + of_bool (SharedMemory_newDataAvailable m r))"

text \<open>What was sent in the turns of the regions: the image of camera 0 in those of both cameras, and otherwise the region.\<close>

definition sent_in_turns :: "slam_manager \<Rightarrow> slam_threads \<Rightarrow> bool" where
  "sent_in_turns g c \<longleftrightarrow> sh_sent c (sl_cams g ! 0) = sh_served c (sl_cams g ! 0) + sh_served c (sl_cams g ! 1) \<and>
     sh_sent c (sl_cams g ! 1) = 0 \<and> (\<forall>r \<in> {sl_imu g, sl_config g}. sh_sent c r = sh_served c r)"

definition slam_threads_inv :: "slam_manager \<Rightarrow> mem \<Rightarrow> slam_threads \<Rightarrow> bool" where
  "slam_threads_inv g m c \<longleftrightarrow>
     main_index (sh_main c) < length (turn_order g) \<and>
     set (sh_io c) \<subseteq> {sl_cams g ! 0, sl_cams g ! 1, sl_imu g} \<and> sh_raised c (sl_config g) = 0 \<and>
     (\<forall>k. sh_main c = SendAt k \<longrightarrow> SharedMemory_newDataAvailable (sh_mem c) (turn_order g ! k)) \<and>
     balanced g m c \<and> sent_in_turns g c"

lemmas inv_defs = slam_threads_inv_def balanced_def send_due_def sent_in_turns_def clearing_def main_index_def

text \<open>After a turn the thread is at a test or polls.\<close>

lemma turn_at_pc [simp]:
  "turn_at g k \<noteq> SendAt j" "turn_at g k \<noteq> ClearAt j" "turn_at g k \<noteq> Ended" "turn_at g k \<noteq> GiveUpAt j ss"
  by (auto simp: turn_at_def)

lemma turn_at_index: "slam_shape g \<Longrightarrow> main_index (turn_at g k) < length (turn_order g)"
  using turn_members(2) [of g] by (auto simp: turn_at_def main_index_def)

lemma inv_turn:
  assumes "slam_shape g" and "slam_threads_inv g m c"
    and "sh_main c \<in> {TestAt k, SendAt k, GiveUpAt k ss, ClearAt k}"
  shows "k < length (turn_order g)" and "turn_order g ! k \<in> set (turn_order g)"
  using assms(2,3) by (auto simp: inv_defs)

lemma balanced_mono:
  assumes "balanced g m c" and "sh_served c' = sh_served c" and "sh_raised c' = sh_raised c"
    and "\<And>r. r \<in> set (turn_order g) \<Longrightarrow> send_due g c' r \<Longrightarrow> send_due g c r"
  shows "balanced g m c'"
  unfolding balanced_def
proof
  fix r assume r: "r \<in> set (turn_order g)"
  then have "sh_served c r + of_bool (send_due g c r) \<le> sh_raised c r + of_bool (SharedMemory_newDataAvailable m r)"
    using assms(1) by (simp add: balanced_def)
  then show "sh_served c' r + of_bool (send_due g c' r) \<le> sh_raised c' r + of_bool (SharedMemory_newDataAvailable m r)"
    using assms(2,3) assms(4) [OF r] by (cases "send_due g c' r") auto
qed

lemma send_balanced:
  assumes "slam_threads_inv g m c" and "sh_main c = SendAt k" and "turn_order g ! k \<in> set (turn_order g)"
    and "sh_main c' = ClearAt k" and "sh_mem c' = sh_mem c" and "sh_raised c' = sh_raised c"
    and "sh_served c' = (sh_served c)(turn_order g ! k := sh_served c (turn_order g ! k) + 1)"
  shows "balanced g m c'"
proof -
  have due: "send_due g c (turn_order g ! k)" and bal: "balanced g m c"
    using assms(1,2) by (auto simp: slam_threads_inv_def send_due_def clearing_def)
  have "sh_served c (turn_order g ! k) + 1 \<le>
      sh_raised c (turn_order g ! k) + of_bool (SharedMemory_newDataAvailable m (turn_order g ! k))"
    using bspec [OF bal [unfolded balanced_def] assms(3)] due by simp
  then show ?thesis
    using assms(2,4-7) bal by (simp add: balanced_def send_due_def clearing_def)
qed

lemma sent_in_camera_turn:
  assumes "sent_in_turns g c" and "slam_shape g" and "r \<in> {sl_cams g ! 0, sl_cams g ! 1}"
    and "sh_served c' = (sh_served c)(r := sh_served c r + 1)"
    and "sh_sent c' = (sh_sent c)(sl_cams g ! 0 := sh_sent c (sl_cams g ! 0) + 1)"
  shows "sent_in_turns g c'"
  using assms(1,3-5) slam_distinct [OF assms(2)] by (auto simp: sent_in_turns_def)

lemma sent_in_tcp_turn:
  assumes "sent_in_turns g c" and "slam_shape g" and "r \<in> {sl_imu g, sl_config g}"
    and "sh_served c' = (sh_served c)(r := sh_served c r + 1)" and "sh_sent c' = (sh_sent c)(r := sh_sent c r + 1)"
  shows "sent_in_turns g c'"
  using assms(1,3-5) slam_distinct [OF assms(2)] by (auto simp: sent_in_turns_def)

lemma inv_ends:
  assumes "slam_threads_inv g m c" and "slam_shape g" and "sh_main c' = Ended" and "sh_io c' = sh_io c"
    and "sh_raised c' = sh_raised c" and "sh_served c' = sh_served c" and "sh_sent c' = sh_sent c"
  shows "slam_threads_inv g m c'"
proof -
  have "balanced g m c'"
    using assms by - (rule balanced_mono [of g m c], auto simp: slam_threads_inv_def send_due_def)
  then show ?thesis
    using assms turn_members(2) [of g] by (simp add: slam_threads_inv_def sent_in_turns_def main_index_def)
qed

lemma inv_main_step:
  assumes "slam_main_step g a c c'" and "slam_threads_inv g m c" and "slam_shape g"
  shows "slam_threads_inv g m c'"
  using assms(1)
proof cases
  case (ask_peer addr)
  then show ?thesis using assms(2) turn_at_index [OF assms(3), of 0] by (simp add: inv_defs)
next
  case (ask_gone e)
  then show ?thesis using inv_ends [OF assms(2,3), of c'] by simp
next
  case (send_to_throws k ps)
  then show ?thesis using inv_ends [OF assms(2,3), of c'] by simp
next
  case (test_down k)
  then show ?thesis using assms(2) turn_at_index [OF assms(3), of "Suc k"] by (simp add: inv_defs)
next
  case (send_image k ps)
  then have k: "k < length (turn_order g)" "turn_order g ! k \<in> set (turn_order g)"
    using inv_turn [OF assms(3,2)] by auto
  have "balanced g m c'" by (rule send_balanced [OF assms(2) send_image(2) k(2)]) (simp_all add: send_image(1))
  moreover have "turn_order g ! k \<in> {sl_cams g ! 0, sl_cams g ! 1}"
    using turn_cases(1) [OF assms(3) k(1) send_image(3)] less_2_cases [of "k div 3"] by auto
  from sent_in_camera_turn [OF _ assms(3) this, of c c'] have "sent_in_turns g c'"
    using assms(2) send_image(1) by (simp add: slam_threads_inv_def)
  ultimately show ?thesis using assms(2) k send_image by (simp add: slam_threads_inv_def main_index_def)
next
  case (write_data k)
  then have k: "k < length (turn_order g)" "turn_order g ! k \<in> set (turn_order g)"
    using inv_turn [OF assms(3,2)] by auto
  have "balanced g m c'" by (rule send_balanced [OF assms(2) write_data(2) k(2)]) (simp_all add: write_data(1))
  moreover have "sent_in_turns g c'"
    using sent_in_tcp_turn [OF _ assms(3) turn_cases(2) [OF assms(3) k(1) write_data(3)], of c c'] assms(2) write_data(1)
    by (simp add: slam_threads_inv_def)
  ultimately show ?thesis using assms(2) k write_data by (simp add: slam_threads_inv_def main_index_def)
next
  case (given_up k)
  moreover from this have "balanced g m c'"
    using assms(2) by - (rule balanced_mono [of g m c], auto simp: slam_threads_inv_def send_due_def clearing_def)
  ultimately show ?thesis using assms(2) by (simp add: slam_threads_inv_def sent_in_turns_def main_index_def)
next
  case (clear k)
  then have k: "k < length (turn_order g)" "turn_order g ! k \<in> set (turn_order g)"
    using inv_turn [OF assms(3,2)] by auto
  have "balanced g m c'"
    using assms(2) region_apart(1) [OF assms(3) k(2)] clear
    by - (rule balanced_mono [of g m c], auto simp: slam_threads_inv_def send_due_def clearing_def split: if_splits)
  with clear show ?thesis
    using assms(2) turn_at_index [OF assms(3), of "Suc k"] by (simp add: slam_threads_inv_def sent_in_turns_def)
qed (use assms(2,3) turn_members(2) [OF assms(3)] in \<open>simp_all add: inv_defs\<close>)

lemma inv_io_step:
  assumes "slam_io_step g c c'" and "slam_threads_inv g m c" and "slam_shape g"
  shows "slam_threads_inv g m c'"
  using assms(1)
proof cases
  case (accept_throws error es remote e)
  then show ?thesis using inv_ends [OF assms(2,3), of c'] by simp
next
  case (raise r rs)
  then have r: "r \<in> set (turn_order g)" "r \<noteq> sl_config g"
    using assms(2) turn_members(3) [OF assms(3)] slam_distinct [OF assms(3)] by (auto simp: slam_threads_inv_def)
  note put = region_apart(1) [OF assms(3) r(1)]
  have "sh_served c' s + of_bool (send_due g c' s) \<le> sh_raised c' s + of_bool (SharedMemory_newDataAvailable m s)"
    if s: "s \<in> set (turn_order g)" for s
  proof -
    have "sh_served c s + of_bool (send_due g c s) \<le> sh_raised c s + of_bool (SharedMemory_newDataAvailable m s)"
      using assms(2) s by (simp add: slam_threads_inv_def balanced_def)
    then show ?thesis
      using raise put [OF s] by (cases "s = r") (auto simp: send_due_def clearing_def of_bool_def split: if_splits)
  qed
  moreover have "SharedMemory_newDataAvailable (sh_mem c') (turn_order g ! k)" if "sh_main c' = SendAt k" for k
  proof -
    from that raise have "sh_main c = SendAt k" by simp
    with inv_turn(2) [OF assms(3,2)] assms(2)
    have "turn_order g ! k \<in> set (turn_order g)" "SharedMemory_newDataAvailable (sh_mem c) (turn_order g ! k)"
      by (auto simp: slam_threads_inv_def)
    then show ?thesis using raise put by simp
  qed
  ultimately show ?thesis
    using assms(2) raise r(2) by (simp add: slam_threads_inv_def balanced_def sent_in_turns_def)
qed (use assms(2,3) turn_members(2) [OF assms(3)] in \<open>simp_all add: inv_defs\<close>)

lemma slam_inv_init: "slam_shape g \<Longrightarrow> slam_threads_inv g m (slam_threads_init m)"
  using turn_members(2) [of g] by (auto simp: inv_defs slam_threads_init_def)

interpretation slam: invariant_system "\<lambda>c. c = slam_threads_init m" "slam_step g"
  "\<lambda>c. slam_shape g \<longrightarrow> slam_threads_inv g m c" for g m
  by unfold_locales (auto simp: slam_step_def intro: slam_inv_init inv_main_step inv_io_step)

lemma inv_reach: "slam_reach g m c \<Longrightarrow> slam_shape g \<Longrightarrow> slam_threads_inv g m c"
  using slam.reach_inv by blast

end
