(* ===== verification/SlamSystem.thy ===== *)
theory SlamSystem
  imports SlamThreads
begin

text \<open>
  What the threads of \<open>SlamThreads\<close> do: the steps of the main thread make up the sequential pass of \<open>Servers\<close>; a raised flag
  leads to a send; no data goes out without a flag; a sample can be lost between the write and the clearing of the flag.
\<close>

subsection \<open>A pass of the main loop as a path\<close>

text \<open>The state in which the main thread is at \<open>p\<close> with the server \<open>v\<close>.\<close>

definition slam_at ::
  "slam_threads \<Rightarrow> (SharedMemory \<Rightarrow> nat) \<times> (SharedMemory \<Rightarrow> nat) \<Rightarrow> main_pc \<Rightarrow> slam_server \<Rightarrow> slam_threads" where
  "slam_at c n p v = c\<lparr>sh_server := v, sh_main := p, sh_served := fst n, sh_sent := snd n\<rparr>"

lemma slam_at_simps [simp]:
  "sh_main (slam_at c n p v) = p" "sh_server (slam_at c n p v) = v"
  "slam_at c n p v\<lparr>sh_main := q\<rparr> = slam_at c n q v" "slam_at c n p v\<lparr>sh_server := w\<rparr> = slam_at c n p w"
  "slam_at c n p v\<lparr>sh_served := x, sh_sent := y\<rparr> = slam_at c (x, y) p v"
  "sh_served (slam_at c n p v) = fst n" "sh_sent (slam_at c n p v) = snd n"
  by (simp_all add: slam_at_def)
















subsection \<open>Progress of the main thread\<close>

inductive_cases main_stepE: "slam_main_step g a c c'"

lemma slam_main_step_determ: "slam_main_step g a c x \<Longrightarrow> slam_main_step g a c y \<Longrightarrow> x = y"
  by (erule main_stepE; erule main_stepE; simp)

text \<open>A network without failures.\<close>

definition working :: "calls \<Rightarrow> bool" where
  "working a \<longleftrightarrow> whole_datagrams (ca_net a) \<and> ca_remote a \<noteq> None \<and> ca_ok a"

text \<open>What goes out in the turn of a region when the memory is \<open>m\<close>: datagrams and bytes of the connection.\<close>

definition slam_output :: "slam_manager \<Rightarrow> mem \<Rightarrow> SharedMemory \<Rightarrow> byte list list \<times> byte list" where
  "slam_output g m r =
     (if r = sl_cams g ! 0 then (packets 0 0 (chunks 1500 (region_data m (sl_cams g ! 0))), [])
      else if r = sl_cams g ! 1 then (packets 1 0 (chunks 1500 (region_data m (sl_cams g ! 0))), [])
      else ([], region_data m r))"

definition serves :: "slam_manager \<Rightarrow> mem \<Rightarrow> SharedMemory \<Rightarrow> slam_threads \<Rightarrow> slam_threads \<Rightarrow> bool" where
  "serves g m r c c' \<longleftrightarrow> sh_served c' r = sh_served c r + 1 \<and> sh_udp c' = sh_udp c @ fst (slam_output g m r) \<and>
     ts_wire (sh_tcp c') = ts_wire (sh_tcp c) @ snd (slam_output g m r)"

definition connected :: "slam_threads \<Rightarrow> bool" where
  "connected c \<longleftrightarrow> ts_has_connection (sh_tcp c) \<and> ts_socket_open (sh_tcp c)"

text \<open>A region waits for its turn: its flag is up, there is a client, and the data is that of the memory \<open>m\<close>.\<close>

definition waiting :: "slam_manager \<Rightarrow> mem \<Rightarrow> SharedMemory \<Rightarrow> nat \<Rightarrow> slam_threads \<Rightarrow> bool" where
  "waiting g m r n c \<longleftrightarrow> SharedMemory_newDataAvailable (sh_mem c) r \<and> connected c \<and> sh_served c r = n \<and>
     (\<forall>s \<in> set (turn_order g). region_data (sh_mem c) s = region_data m s)"

definition will_serve :: "slam_manager \<Rightarrow> calls \<Rightarrow> mem \<Rightarrow> SharedMemory \<Rightarrow> nat \<Rightarrow> slam_threads \<Rightarrow> bool" where
  "will_serve g a m r n c \<longleftrightarrow> (\<exists>c1 c'. (slam_main_step g a)\<^sup>*\<^sup>* c c1 \<and> slam_main_step g a c1 c' \<and>
     sh_served c1 r = n \<and> serves g m r c1 c')"

lemma will_serve_path: "(slam_main_step g a)\<^sup>*\<^sup>* c c0 \<Longrightarrow> will_serve g a m r n c0 \<Longrightarrow> will_serve g a m r n c"
  unfolding will_serve_def by (elim exE conjE, intro exI conjI, erule rtranclp_trans)

lemma will_serve_step: "slam_main_step g a c c0 \<Longrightarrow> will_serve g a m r n c0 \<Longrightarrow> will_serve g a m r n c"
  by (rule will_serve_path [OF r_into_rtranclp])

lemma send_step:
  assumes "slam_shape g" and "working a" and "k < length (turn_order g)" and "sh_main c = SendAt k" and "connected c"
  shows "\<exists>c'. slam_main_step g a c c' \<and> sh_main c' = ClearAt k \<and> sh_mem c' = sh_mem c \<and> connected c' \<and>
    sh_served c' = (sh_served c)(turn_order g ! k := sh_served c (turn_order g ! k) + 1) \<and>
    serves g (sh_mem c) (turn_order g ! k) c c'"
proof (cases "camera_turn k")
  case True
  let ?ps = "packets (of_nat (k div 3)) 0 (chunks 1500 (region_data (sh_mem c) (sl_cams g ! 0)))"
  have "UdpServer_send_data (ca_net a) (of_nat (k div 3)) (SharedMemory_data (sl_cams g ! 0))
      (SharedMemory_size (sl_cams g ! 0)) (sh_mem c) = Some (True, ?ps)"
    using UdpServer_send_data_whole [of "ca_net a" 360960] assms(1,2)
    by (simp add: working_def slam_shape_def region_data_def SharedMemory_size_def)
  note step = slam_main_step.send_image [OF assms(4) True this]
  have turn: "turn_order g ! k = sl_cams g ! (k div 3)" "k div 3 = 0 \<or> k div 3 = 1"
    using turn_cases(1) [OF assms(1,3) True] less_2_cases [of "k div 3"] by auto
  then have "slam_output g (sh_mem c) (turn_order g ! k) = (?ps, [])"
    using slam_distinct [OF assms(1)] unfolding slam_output_def turn(1) by (elim disjE) auto
  with step assms(5) show ?thesis
    by (intro exI [of _ "add_udp ?ps (count_send (turn_order g ! k) (sl_cams g ! 0) c)\<lparr>sh_main := ClearAt k\<rparr>"])
      (simp add: serves_def connected_def)
next
  case False
  have "slam_output g (sh_mem c) (turn_order g ! k) = ([], region_data (sh_mem c) (turn_order g ! k))"
    using turn_cases(2) [OF assms(1,3) False] slam_distinct [OF assms(1)] by (auto simp: slam_output_def)
  moreover note slam_main_step.write_data [OF assms(4) False, of a g]
  ultimately show ?thesis
    using assms(2,5)
    by (intro exI [of _ "add_wire (region_data (sh_mem c) (turn_order g ! k))
          (count_send (turn_order g ! k) (turn_order g ! k) c)\<lparr>sh_main := ClearAt k\<rparr>"])
      (simp add: serves_def connected_def working_def)
qed

text \<open>The thread stands before turn \<open>k\<close> when it has just arrived there or polls before the first.\<close>

definition before_turn :: "nat \<Rightarrow> main_pc \<Rightarrow> bool" where
  "before_turn k p \<longleftrightarrow> p = TestAt k \<or> p \<in> {Poll, AskPeer} \<and> k = 0"

lemma turn_at_before: "k < length (turn_order g) \<Longrightarrow> before_turn (Suc k mod length (turn_order g)) (turn_at g (Suc k))"
  by (auto simp: turn_at_def before_turn_def mod_Suc)

lemma ask_test:
  assumes "slam_shape g" and "working a" and "sh_main c = AskPeer" and "connected c"
  shows "slam_main_step g a c (c\<lparr>sh_main := TestAt 0\<rparr>)"
proof -
  obtain addr where "slam_getEndpoint (ca_remote a) (sh_tcp c) = Ret addr"
    using assms(2,4) by (auto simp: working_def connected_def slam_getEndpoint_def)
  from slam_main_step.ask_peer [OF assms(3) this, of g] show ?thesis
    using turn_members(2) [OF assms(1)] by (simp add: turn_at_def)
qed

lemma before_turn_test:
  assumes "slam_shape g" and "working a" and "before_turn k (sh_main c)" and "waiting g m r n c"
  shows "\<exists>c'. (slam_main_step g a)\<^sup>*\<^sup>* c c' \<and> sh_main c' = TestAt k \<and> waiting g m r n c'"
proof -
  have conn: "connected c" using assms(4) by (simp add: waiting_def)
  have ask: "slam_main_step g a d (d\<lparr>sh_main := TestAt 0\<rparr>) \<and> waiting g m r n (d\<lparr>sh_main := TestAt 0\<rparr>)"
    if "sh_main d = AskPeer" "waiting g m r n d" for d
    using ask_test [OF assms(1,2) that(1)] that(2) by (simp add: waiting_def connected_def)
  from assms(3) consider "sh_main c = TestAt k" | "sh_main c = AskPeer" "k = 0" | "sh_main c = Poll" "k = 0"
    by (auto simp: before_turn_def)
  then show ?thesis
  proof cases
    case 2
    then show ?thesis using ask [of c] assms(4) by (intro exI [of _ "c\<lparr>sh_main := TestAt 0\<rparr>"]) auto
  next
    case 3
    then have "slam_main_step g a c (c\<lparr>sh_main := AskPeer\<rparr>)" using conn by (auto simp: connected_def intro: poll_client)
    moreover have "waiting g m r n (c\<lparr>sh_main := AskPeer\<rparr>)" using assms(4) by (simp add: waiting_def connected_def)
    ultimately show ?thesis
      using ask [of "c\<lparr>sh_main := AskPeer\<rparr>"] 3(2) by (intro exI [of _ "c\<lparr>sh_main := TestAt 0\<rparr>"]) auto
  qed (use assms(4) in auto)
qed

lemma clear_waiting:
  assumes "slam_shape g" and "r \<in> set (turn_order g)" and "k < length (turn_order g)" and "turn_order g ! k \<noteq> r"
    and "sh_main c = ClearAt k" and "waiting g m r n c"
  shows "\<exists>c'. slam_main_step g a c c' \<and> before_turn (Suc k mod length (turn_order g)) (sh_main c') \<and> waiting g m r n c'"
proof -
  note apart = region_apart [OF assms(1) nth_mem [OF assms(3)], where v = False and m = "sh_mem c"]
  let ?c = "set_flag (turn_order g ! k) False c\<lparr>sh_main := turn_at g (Suc k)\<rparr>"
  have "waiting g m r n ?c"
    using assms(2,4,6) apart by (auto simp: waiting_def connected_def)
  then show ?thesis
    using slam_main_step.clear [OF assms(5), of g a] turn_at_before [OF assms(3)] by (intro exI [of _ ?c]) simp
qed

lemma send_waiting:
  assumes "slam_shape g" and "working a" and "k < length (turn_order g)" and "turn_order g ! k \<noteq> r"
    and "sh_main c = SendAt k" and "waiting g m r n c"
  shows "\<exists>c'. slam_main_step g a c c' \<and> sh_main c' = ClearAt k \<and> waiting g m r n c'"
  using send_step [OF assms(1-3,5)] assms(4,6) unfolding waiting_def by fastforce

lemma send_now:
  assumes "slam_shape g" and "working a" and "k < length (turn_order g)" and "turn_order g ! k = r"
    and "sh_main c = SendAt k" and "waiting g m r n c"
  shows "will_serve g a m r n c"
proof -
  have "region_data (sh_mem c) s = region_data m s" if "s \<in> set (turn_order g)" for s
    using assms(6) that by (simp add: waiting_def)
  moreover have "sl_cams g ! 0 \<in> set (turn_order g)" by (simp flip: turn_members(3) [OF assms(1)])
  moreover have "r \<in> set (turn_order g)" using assms(3,4) by auto
  ultimately have out: "slam_output g (sh_mem c) r = slam_output g m r" by (simp add: slam_output_def)
  have "connected c" "sh_served c r = n" using assms(6) by (simp_all add: waiting_def)
  with send_step [OF assms(1-3,5)] assms(4) out show ?thesis
    unfolding will_serve_def serves_def by (metis rtranclp.rtrancl_refl)
qed

text \<open>One turn: the region is served, or the thread goes on to the next turn with the region still waiting.\<close>

lemma turn_goes_on:
  assumes "slam_shape g" and "working a" and "r \<in> set (turn_order g)" and "k < length (turn_order g)"
    and "sh_main c = TestAt k" and "waiting g m r n c"
  shows "will_serve g a m r n c \<or> turn_order g ! k \<noteq> r \<and>
    (\<exists>c'. (slam_main_step g a)\<^sup>*\<^sup>* c c' \<and> before_turn (Suc k mod length (turn_order g)) (sh_main c') \<and> waiting g m r n c')"
proof (cases "SharedMemory_newDataAvailable (sh_mem c) (turn_order g ! k)")
  case True
  let ?c = "c\<lparr>sh_main := SendAt k\<rparr>"
  have step: "slam_main_step g a c ?c" using assms(5) True by (rule test_raised)
  have wait: "waiting g m r n ?c" using assms(6) by (simp add: waiting_def connected_def)
  show ?thesis
  proof (cases "turn_order g ! k = r")
    case True
    then show ?thesis using will_serve_step [OF step] send_now [OF assms(1,2,4) True _ wait] by simp
  next
    case False
    from send_waiting [OF assms(1,2,4) False _ wait] obtain c1
      where c1: "slam_main_step g a ?c c1" "sh_main c1 = ClearAt k" "waiting g m r n c1" by auto
    from clear_waiting [OF assms(1,3,4) False c1(2,3), of a] obtain c2 where c2: "slam_main_step g a c1 c2"
      "before_turn (Suc k mod length (turn_order g)) (sh_main c2)" "waiting g m r n c2" by blast
    have "(slam_main_step g a)\<^sup>*\<^sup>* c c2" using step c1(1) c2(1) by (meson converse_rtranclp_into_rtranclp r_into_rtranclp)
    with False c2 show ?thesis by blast
  qed
next
  case False
  let ?c = "c\<lparr>sh_main := turn_at g (Suc k)\<rparr>"
  have "slam_main_step g a c ?c" using assms(5) False by (rule test_down)
  moreover have "waiting g m r n ?c" "turn_order g ! k \<noteq> r"
    using assms(6) False by (auto simp: waiting_def connected_def)
  ultimately show ?thesis using turn_at_before [OF assms(4)] by (intro disjI2 conjI exI [of _ ?c]) auto
qed

text \<open>\<open>d\<close> turns before the turn of the region.\<close>

lemma turn_reaches_send:
  assumes "slam_shape g" and "working a" and "r \<in> set (turn_order g)" and "k < length (turn_order g)"
    and "before_turn k (sh_main c)" and "waiting g m r n c" and "turn_order g ! ((k + d) mod length (turn_order g)) = r"
  shows "will_serve g a m r n c"
  using assms(4-7)
proof (induction d arbitrary: k c)
  case (0 k)
  from before_turn_test [OF assms(1,2) 0(2,3)] obtain c1
    where c1: "(slam_main_step g a)\<^sup>*\<^sup>* c c1" "sh_main c1 = TestAt k" "waiting g m r n c1" by blast
  then show ?case using turn_goes_on [OF assms(1-3) 0(1) c1(2,3)] 0(1,4) will_serve_path by auto
next
  case (Suc d k)
  let ?k = "Suc k mod length (turn_order g)"
  from before_turn_test [OF assms(1,2) Suc.prems(2,3)] obtain c1
    where c1: "(slam_main_step g a)\<^sup>*\<^sup>* c c1" "sh_main c1 = TestAt k" "waiting g m r n c1" by blast
  have "will_serve g a m r n c1"
  proof (cases "will_serve g a m r n c1")
    case False
    with turn_goes_on [OF assms(1-3) Suc.prems(1) c1(2,3)] obtain c2
      where c2: "(slam_main_step g a)\<^sup>*\<^sup>* c1 c2" "before_turn ?k (sh_main c2)" "waiting g m r n c2" by blast
    have "?k < length (turn_order g)" using Suc.prems(1) by (intro mod_less_divisor) linarith
    moreover have "(?k + d) mod length (turn_order g) = (k + Suc d) mod length (turn_order g)"
      by (simp add: mod_simps)
    ultimately show ?thesis using Suc.IH [OF _ c2(2,3)] Suc.prems(4) will_serve_path [OF c2(1)] by simp
  qed
  with c1(1) show ?case by (rule will_serve_path)
qed

lemma turn_serves:
  assumes "slam_shape g" and "working a" and "r \<in> set (turn_order g)" and "k < length (turn_order g)"
    and "before_turn k (sh_main c)" and "waiting g m r n c"
  shows "will_serve g a m r n c"
proof -
  obtain j where j: "j < length (turn_order g)" "turn_order g ! j = r" using assms(3) by (auto simp: in_set_conv_nth)
  have "(k + (length (turn_order g) + j - k)) mod length (turn_order g) = j" using j(1) assms(4) by simp
  with j(2) show ?thesis using turn_reaches_send [OF assms, of "length (turn_order g) + j - k"] by simp
qed

lemma raised_is_served:
  assumes "slam_shape g" and "working a" and "slam_threads_inv g m c" and "r \<in> set (turn_order g)"
    and "send_due g c r" and "connected c" and "\<And>k ss. sh_main c \<noteq> GiveUpAt k ss"
  shows "will_serve g a (sh_mem c) r (sh_served c r) c"
proof -
  have wait: "waiting g (sh_mem c) r (sh_served c r) c" using assms(5,6) by (simp add: waiting_def send_due_def)
  note serves = turn_serves [OF assms(1,2,4)]
  have next_k: "Suc k mod length (turn_order g) < length (turn_order g)" for k
    using turn_members(2) [OF assms(1)] by simp
  have cleared: "will_serve g a (sh_mem c) r (sh_served c r) d"
    if "sh_main d = ClearAt k" "k < length (turn_order g)" "turn_order g ! k \<noteq> r"
      "waiting g (sh_mem c) r (sh_served c r) d" for d k
    using clear_waiting [OF assms(1,4) that(2,3,1,4), of a] serves [OF next_k] will_serve_step by blast
  have k: "main_index (sh_main c) < length (turn_order g)" using assms(3) by (simp add: slam_threads_inv_def)
  show ?thesis
  proof (cases "sh_main c")
    case (SendAt k)
    show ?thesis
    proof (cases "turn_order g ! k = r")
      case True
      then show ?thesis using send_now [OF assms(1,2) _ True SendAt wait] k SendAt by (simp add: main_index_def)
    next
      case False
      then show ?thesis
        using send_waiting [OF assms(1,2) _ False SendAt wait] cleared k SendAt will_serve_step
        by (fastforce simp: main_index_def)
    qed
  next
    case (ClearAt k)
    then show ?thesis using cleared [of c k] wait assms(5) k by (auto simp: main_index_def send_due_def clearing_def)
  qed (use assms(5,7) k serves [OF k _ wait] in \<open>auto simp: main_index_def before_turn_def send_due_def\<close>)
qed

text \<open>The first client is accepted.\<close>

definition slam_connected :: "mem \<Rightarrow> slam_server" where
  "slam_connected m =
     \<lparr>sv_mem = m, sv_tcp = (accept_completes False False slam_TcpServer_new)\<lparr>ts_has_connection := True\<rparr>, sv_udp = []\<rparr>"

lemma slam_connects: "slam_reach g m (slam_threads_init m\<lparr>sh_server := slam_connected m\<rparr>)"
proof -
  let ?t = "accept_completes False False slam_TcpServer_new"
  let ?c = "set_tcp ?t (slam_threads_init m)\<lparr>sh_accepts := [False]\<rparr>"
  have "slam_io_step g (slam_threads_init m) ?c"
    using slam_io_step.accept [of "slam_threads_init m" g False False]
    by (simp add: slam_threads_init_def slam_TcpServer_new_def TcpServer_accept_connection_def)
  then have "slam_reach g m ?c" by (rule slam_io [OF slam_init, rotated]) (simp add: slam_threads_init_def)
  moreover have "slam_io_step g ?c (slam_threads_init m\<lparr>sh_server := slam_connected m\<rparr>)"
    using slam_io_step.accept_handler [of ?c False "[]" "Some ''10.0.0.2''" "?t\<lparr>ts_has_connection := True\<rparr>" g]
    by (simp add: slam_threads_init_def handle_accept_body_def slam_connected_def)
  ultimately show ?thesis by - (rule slam_io [where c = ?c], simp_all add: slam_threads_init_def)
qed

lemma connected_init:
  "connected (slam_threads_init m\<lparr>sh_server := slam_connected m\<rparr>)"
  by (simp add: connected_def slam_connected_def accept_completes_def)

text \<open>The timer of the IMU fires and its handler runs.\<close>

lemma imu_up:
  assumes "slam_reach g m c" and "sh_io c = []" and "sh_main c \<noteq> Ended"
  shows "slam_reach g m (set_flag (sl_imu g) True c
    \<lparr>sh_io := [], sh_raised := (sh_raised c)(sl_imu g := sh_raised c (sl_imu g) + 1)\<rparr>)"
proof -
  have "slam_reach g m (c\<lparr>sh_io := [sl_imu g]\<rparr>)" by (rule slam_io [OF assms(1,3) imu_timer [OF assms(2)]])
  from slam_io [OF this _ slam_io_step.raise] show ?thesis using assms(2,3) by (simp add: set_flag_def)
qed

definition demo_calls :: calls where
  "demo_calls = \<lparr>ca_net = demo_net, ca_remote = Some ''10.0.0.2'', ca_ok = True, ca_taken = 0\<rparr>"

lemma demo_calls_working [simp]: "working demo_calls"
  by (simp add: demo_calls_def working_def)

subsection \<open>Properties\<close>

text \<open>C15: no data is sent without a new flag. In every interleaving of the two threads, with clients that come and go and
  calls that fail: the image of camera 0 is sent at most as often as the flags of both cameras together were
  raised, since it is the one that is sent for either, and the image of camera 1 never; the IMU data is sent at most as often as its
  flag was raised; in each case a flag that was up when the program started counts as one more raise. The configuration,
  whose flag nothing raises, is sent at most once, if its flag was up at the start.\<close>

theorem slam_sends_fresh:
  assumes "slam_manager_new os 2 360960 10 10 = Ret g" and "slam_reach g m c"
    and "up = (\<lambda>r. of_bool (SharedMemory_newDataAvailable m r) :: nat)"
  shows "sh_sent c (sl_cams g ! 0) \<le> sh_raised c (sl_cams g ! 0) + sh_raised c (sl_cams g ! 1) +
      up (sl_cams g ! 0) + up (sl_cams g ! 1) \<and>
    sh_sent c (sl_cams g ! 1) = 0 \<and> sh_sent c (sl_imu g) \<le> sh_raised c (sl_imu g) + up (sl_imu g) \<and>
    sh_sent c (sl_config g) \<le> up (sl_config g)"
proof -
  have shape: "slam_shape g" using assms(1) by (rule slam_manager_shape)
  have inv: "slam_threads_inv g m c" using assms(2) shape by (rule inv_reach)
  have served: "sh_served c r \<le> sh_raised c r + up r" if "r \<in> {sl_cams g ! 0, sl_cams g ! 1, sl_imu g, sl_config g}" for r
    using inv that turn_members(3) [OF shape] unfolding slam_threads_inv_def balanced_def assms(3)
    by (metis le_trans le_add1)
  have "sh_raised c (sl_config g) = 0" "sent_in_turns g c" using inv by (simp_all add: slam_threads_inv_def)
  then show ?thesis
    using served [of "sl_cams g ! 0"] served [of "sl_cams g ! 1"] served [of "sl_imu g"] served [of "sl_config g"]
    by (simp add: sent_in_turns_def)
qed

text \<open>All flags are up at the start and the IMU data has been sent once.\<close>

theorem slam_sends_fresh_witness:
  "\<exists>c. slam_reach demo_slam_manager (\<lambda>_. 1) c \<and> 0 < sh_sent c (sl_imu demo_slam_manager) \<and>
     sh_sent c (sl_imu demo_slam_manager) \<le> sh_raised c (sl_imu demo_slam_manager) + 1"
proof -
  let ?g = demo_slam_manager and ?c = "slam_threads_init (\<lambda>_. 1)\<lparr>sh_server := slam_connected (\<lambda>_. 1)\<rparr>"
  have shape: "slam_shape ?g" by (rule slam_manager_shape [OF demo_slam_manager_new])
  have "sl_imu ?g \<in> set (turn_order ?g)" by (simp add: turn_order_def demo_slam_manager_def)
  moreover have "send_due ?g ?c (sl_imu ?g)"
    by (simp add: send_due_def clearing_def slam_threads_init_def slam_connected_def SharedMemory_newDataAvailable_def)
  ultimately have "will_serve ?g demo_calls (sh_mem ?c) (sl_imu ?g) (sh_served ?c (sl_imu ?g)) ?c"
    by (intro raised_is_served [OF shape demo_calls_working inv_reach [OF slam_connects shape] _ _ connected_init])
      (simp_all add: slam_threads_init_def)
  then obtain c1 c' where path: "(slam_main_step ?g demo_calls)\<^sup>*\<^sup>* ?c c1" and step: "slam_main_step ?g demo_calls c1 c'"
    and served: "0 < sh_served c' (sl_imu ?g)" by (auto simp: will_serve_def serves_def)
  have "slam_reach ?g (\<lambda>_. 1) c1" by (rule slam_main_path [OF main_path_calls [OF path] slam_connects])
  with step have reach: "slam_reach ?g (\<lambda>_. 1) c'" by (rule slam_main_go)
  have "sent_in_turns ?g c'" using inv_reach [OF reach shape] by (simp add: slam_threads_inv_def)
  with served reach slam_sends_fresh [OF demo_slam_manager_new reach refl] show ?thesis
    by (intro exI [of _ c']) (simp add: sent_in_turns_def SharedMemory_newDataAvailable_def)
qed

text \<open>C16: a raised flag leads to a send. From every reachable state with a client and an open socket in which the flag of a region is
  up and the main thread is neither about to clear it nor giving up the connection: if the calls of the main thread succeed
  (datagrams are taken whole, the peer answers, writes succeed), then after finitely many of its own steps, each of them determined, comes the
  step that serves the region. It adds exactly this to the output: for camera \<open>i\<close> the datagrams of the image of camera 0, as it is in
  memory, numbered \<open>i\<close>; for the IMU and the configuration the bytes of the region, on the connection.\<close>

theorem slam_serves_raised:
  assumes "slam_manager_new os 2 360960 10 10 = Ret g" and "slam_reach g m c"
    and "r \<in> {sl_cams g ! 0, sl_cams g ! 1, sl_imu g, sl_config g}"
    and "SharedMemory_newDataAvailable (sh_mem c) r" and "\<not> clearing g c r"
    and "ts_has_connection (sh_tcp c)" and "ts_socket_open (sh_tcp c)"
    and "sh_main c \<noteq> Ended" and "\<And>k ss. sh_main c \<noteq> GiveUpAt k ss"
    and "whole_datagrams (ca_net a)" and "ca_remote a = Some peer" and "ca_ok a"
  shows "(\<exists>c1 c'. (slam_main_step g a)\<^sup>*\<^sup>* c c1 \<and> slam_main_step g a c1 c' \<and>
      sh_served c1 r = sh_served c r \<and> sh_served c' r = sh_served c r + 1 \<and>
      sh_udp c' = sh_udp c1 @ fst (slam_output g (sh_mem c) r) \<and>
      ts_wire (sh_tcp c') = ts_wire (sh_tcp c1) @ snd (slam_output g (sh_mem c) r)) \<and>
    (\<forall>x y z. slam_main_step g a x y \<and> slam_main_step g a x z \<longrightarrow> y = z)"
proof -
  have shape: "slam_shape g" using assms(1) by (rule slam_manager_shape)
  have "working a" "connected c" "send_due g c r" "r \<in> set (turn_order g)"
    using assms(3-8,10-12) turn_members(3) [OF shape] by (auto simp: working_def connected_def send_due_def)
  from raised_is_served [OF shape this(1) inv_reach [OF assms(2) shape] this(4,3,2) assms(9)]
  have "will_serve g a (sh_mem c) r (sh_served c r) c" .
  then have "\<exists>c1 c'. (slam_main_step g a)\<^sup>*\<^sup>* c c1 \<and> slam_main_step g a c1 c' \<and>
      sh_served c1 r = sh_served c r \<and> sh_served c' r = sh_served c r + 1 \<and>
      sh_udp c' = sh_udp c1 @ fst (slam_output g (sh_mem c) r) \<and>
      ts_wire (sh_tcp c') = ts_wire (sh_tcp c1) @ snd (slam_output g (sh_mem c) r)"
    unfolding will_serve_def serves_def by metis
  moreover have "y = z" if "slam_main_step g a x y" "slam_main_step g a x z" for x y z
    using that by (rule slam_main_step_determ)
  ultimately show ?thesis by (intro conjI allI impI) (simp, elim conjE)
qed

theorem slam_serves_raised_witness:
  "\<exists>c1 c'. (slam_main_step demo_slam_manager demo_calls)\<^sup>*\<^sup>*
      (slam_threads_init (\<lambda>_. 1)\<lparr>sh_server := slam_connected (\<lambda>_. 1)\<rparr>) c1 \<and>
     slam_main_step demo_slam_manager demo_calls c1 c' \<and>
     sh_udp c' = sh_udp c1 @ packets 1 0 (chunks 1500 (region_data (\<lambda>_. 1) (sl_cams demo_slam_manager ! 0)))"
proof -
  let ?g = demo_slam_manager and ?c = "slam_threads_init (\<lambda>_. 1)\<lparr>sh_server := slam_connected (\<lambda>_. 1)\<rparr>"
  have "SharedMemory_newDataAvailable (sh_mem ?c) (sl_cams ?g ! 1)" "\<not> clearing ?g ?c (sl_cams ?g ! 1)"
    "sh_main ?c \<noteq> Ended" "\<And>k ss. sh_main ?c \<noteq> GiveUpAt k ss" "sh_mem ?c = (\<lambda>_. 1)"
    by (simp_all add: slam_threads_init_def slam_connected_def SharedMemory_newDataAvailable_def clearing_def)
  moreover have "whole_datagrams (ca_net demo_calls)" "ca_remote demo_calls = Some ''10.0.0.2''" "ca_ok demo_calls"
    by (simp_all add: demo_calls_def)
  moreover have "slam_output ?g m (sl_cams ?g ! 1) = (packets 1 0 (chunks 1500 (region_data m (sl_cams ?g ! 0))), [])" for m
    by (simp add: slam_output_def demo_slam_manager_def)
  ultimately show ?thesis
    using slam_serves_raised [OF demo_slam_manager_new slam_connects, of "sl_cams ?g ! 1" "\<lambda>_. 1" demo_calls "''10.0.0.2''"]
      connected_init [of "\<lambda>_. 1"] by (auto simp: connected_def)
qed



text \<open>C39: a sample can be lost. When the timer raises the flag of the IMU between the end of the write and the clearing
  of the flag, the flag is cleared with it: from any memory in which the flag of camera 0 is down a state is reached in which the
  flag of the IMU was raised twice, its data sent once, and the flag is down again, with no store of the timer handler left and the
  main thread already at the next region.\<close>

theorem slam_loses_sample:
  assumes "slam_manager_new os 2 360960 10 10 = Ret g" and "\<not> SharedMemory_newDataAvailable m (sl_cams g ! 0)"
  shows "\<exists>c. slam_reach g m c \<and> sh_raised c (sl_imu g) = 2 \<and> sh_sent c (sl_imu g) = 1 \<and>
    \<not> SharedMemory_newDataAvailable (sh_mem c) (sl_imu g) \<and> sh_io c = [] \<and> sh_main c = TestAt 2"
proof -
  have shape: "slam_shape g" using assms(1) by (rule slam_manager_shape)
  have turn: "turn_order g ! 0 = sl_cams g ! 0" "turn_order g ! Suc 0 = sl_imu g" "length (turn_order g) = 6"
    using shape turn_members(2) [OF shape] by (auto elim!: slam_shapeE)
  have pcs: "turn_at g 0 = TestAt 0" "turn_at g (Suc 0) = TestAt 1" "turn_at g 2 = TestAt 2" "\<not> camera_turn 1"
    by (simp_all add: turn_at_def turn(3) camera_turn_def)
  have in_turns: "sl_imu g \<in> set (turn_order g)" using turn_members(3) [OF shape] by blast
  let ?c0 = "slam_threads_init m\<lparr>sh_server := slam_connected m\<rparr>"
  let ?c1 = "?c0\<lparr>sh_main := AskPeer\<rparr>" and ?c2 = "?c0\<lparr>sh_main := TestAt 0\<rparr>" and ?c3 = "?c0\<lparr>sh_main := TestAt 1\<rparr>"
  have c0: "sh_main ?c0 = Poll" "sh_io ?c0 = []" "sh_mem ?c0 = m" "sh_raised ?c0 = (\<lambda>_. 0)" "sh_sent ?c0 = (\<lambda>_. 0)"
    by (simp_all add: slam_threads_init_def slam_connected_def)
  note conn = connected_init [of m]
  have s1: "slam_main_step g demo_calls ?c0 ?c1"
    using c0(1) conn by (auto simp: connected_def intro: poll_client)
  have s2: "slam_main_step g demo_calls ?c1 ?c2"
    using ask_test [OF shape demo_calls_working, of ?c1] conn by (simp add: connected_def)
  have s3: "slam_main_step g demo_calls ?c2 ?c3"
    using slam_main_step.test_down [of ?c2 0 g demo_calls] assms(2) c0(3) by (simp add: turn pcs)
  have "slam_reach g m ?c3"
    by (rule slam_main_go [OF s3 slam_main_go [OF s2 slam_main_go [OF s1 slam_connects]]])
  from imu_up [OF this] obtain c4 where c4: "slam_reach g m c4" "sh_main c4 = TestAt 1" "connected c4" "sh_io c4 = []"
    "SharedMemory_newDataAvailable (sh_mem c4) (sl_imu g)" "sh_raised c4 (sl_imu g) = 1" "sh_sent c4 (sl_imu g) = 0"
    using c0 conn region_apart(1) [OF shape in_turns in_turns] by (fastforce simp: connected_def)
  let ?c5 = "c4\<lparr>sh_main := SendAt 1\<rparr>"
  let ?c6 = "add_wire (region_data (sh_mem c4) (sl_imu g)) (count_send (sl_imu g) (sl_imu g) c4)\<lparr>sh_main := ClearAt 1\<rparr>"
  have s5: "slam_main_step g demo_calls c4 ?c5"
    using slam_main_step.test_raised [OF c4(2), of g demo_calls] c4(5) by (simp add: turn)
  have s6: "slam_main_step g demo_calls ?c5 ?c6"
    using slam_main_step.write_data [of ?c5 1 demo_calls g] c4(3) pcs(4) by (simp add: turn demo_calls_def connected_def)
  have "slam_reach g m ?c6" by (rule slam_main_go [OF s6 slam_main_go [OF s5 c4(1)]])
  from imu_up [OF this] obtain c7 where c7: "slam_reach g m c7" "sh_main c7 = ClearAt 1" "sh_io c7 = []"
    "sh_raised c7 (sl_imu g) = 2" "sh_sent c7 (sl_imu g) = 1"
    using c4 by fastforce
  from slam_main [OF c7(1) _ slam_main_step.clear [OF c7(2)]]
  have "slam_reach g m (set_flag (sl_imu g) False c7\<lparr>sh_main := TestAt 2\<rparr>)"
    using c7(2) pcs(3) by (simp add: turn numeral_2_eq_2)
  then show ?thesis
    using c7(3-5) region_apart(1) [OF shape in_turns in_turns]
    by (intro exI [of _ "set_flag (sl_imu g) False c7\<lparr>sh_main := TestAt 2\<rparr>"]) simp
qed

theorem slam_loses_sample_witness:
  "\<exists>c. slam_reach demo_slam_manager (\<lambda>_. 0) c \<and> sh_raised c (sl_imu demo_slam_manager) = 2 \<and>
     sh_sent c (sl_imu demo_slam_manager) = 1"
  using slam_loses_sample [OF demo_slam_manager_new, of "\<lambda>_. 0"] by (auto simp: SharedMemory_newDataAvailable_def)

end
