(* ===== verification/I2cDev.thy ===== *)
theory I2cDev
  imports Prelude
begin

text \<open>
  I2C through the kernel's i2c-dev interface: the class \<open>I2CBus\<close> (xilinx/visensor-srv/src/I2CBus.h,
  I2CBus.cpp) and the SMBus functions of xilinx/visensor-srv/src/i2c-dev.h. The kernel and the bus behind
  the file descriptor are the parameter \<open>i2c_dev\<close>, a record of what each system call returns and does.
  A C union is its bytes: \<open>union i2c_smbus_data\<close> is a list of 34 bytes, of which \<open>byte\<close> is the
  first and \<open>word\<close> the first two, low byte first.
\<close>

subsection \<open>The kernel interface\<close>

record i2c_msg =
  msg_addr :: u16
  msg_flags :: u16
  msg_len :: nat
  msg_buf :: "byte list"

record smbus_args =
  sa_read_write :: byte
  sa_command :: byte
  sa_size :: nat

text \<open>
  \<open>id_rdwr\<close> gives the bytes stored in the buffer of the last message (a read); \<open>id_smbus\<close> gets the
  caller's union (\<open>None\<close> for a null pointer) and gives what the kernel left in it.
\<close>

record 'd i2c_dev =
  id_open :: "string \<Rightarrow> u32"
  id_slave :: "u32 \<Rightarrow> byte \<Rightarrow> 'd \<Rightarrow> u32 \<times> 'd"
  id_write :: "u32 \<Rightarrow> byte list \<Rightarrow> 'd \<Rightarrow> u32 \<times> 'd"
  id_read :: "u32 \<Rightarrow> nat \<Rightarrow> 'd \<Rightarrow> u32 \<times> 'd"
  id_rdwr :: "u32 \<Rightarrow> i2c_msg list \<Rightarrow> 'd \<Rightarrow> u32 \<times> byte list \<times> 'd"
  id_smbus :: "u32 \<Rightarrow> smbus_args \<Rightarrow> byte list option \<Rightarrow> 'd \<Rightarrow> u32 \<times> byte list \<times> 'd"
  id_close :: "u32 \<Rightarrow> u32"

definition I2C_M_RD :: u16 where "I2C_M_RD = 0x01"
definition I2C_SMBUS_BLOCK_MAX :: nat where "I2C_SMBUS_BLOCK_MAX = 32"
definition I2C_SMBUS_READ :: byte where "I2C_SMBUS_READ = 1"
definition I2C_SMBUS_WRITE :: byte where "I2C_SMBUS_WRITE = 0"
definition I2C_SMBUS_QUICK :: nat where "I2C_SMBUS_QUICK = 0"
definition I2C_SMBUS_BYTE :: nat where "I2C_SMBUS_BYTE = 1"
definition I2C_SMBUS_BYTE_DATA :: nat where "I2C_SMBUS_BYTE_DATA = 2"
definition I2C_SMBUS_WORD_DATA :: nat where "I2C_SMBUS_WORD_DATA = 3"
definition I2C_SMBUS_PROC_CALL :: nat where "I2C_SMBUS_PROC_CALL = 4"
definition I2C_SMBUS_BLOCK_DATA :: nat where "I2C_SMBUS_BLOCK_DATA = 5"
definition I2C_SMBUS_I2C_BLOCK_BROKEN :: nat where "I2C_SMBUS_I2C_BLOCK_BROKEN = 6"
definition I2C_SMBUS_BLOCK_PROC_CALL :: nat where "I2C_SMBUS_BLOCK_PROC_CALL = 7"
definition I2C_SMBUS_I2C_BLOCK_DATA :: nat where "I2C_SMBUS_I2C_BLOCK_DATA = 8"

lemmas smbus_consts = I2C_SMBUS_READ_def I2C_SMBUS_WRITE_def I2C_SMBUS_QUICK_def I2C_SMBUS_BYTE_def
  I2C_SMBUS_BYTE_DATA_def I2C_SMBUS_WORD_DATA_def I2C_SMBUS_PROC_CALL_def I2C_SMBUS_BLOCK_DATA_def
  I2C_SMBUS_I2C_BLOCK_BROKEN_def I2C_SMBUS_BLOCK_PROC_CALL_def I2C_SMBUS_I2C_BLOCK_DATA_def

subsection \<open>I2CBus\<close>

record I2CBus =
  i2cFileName :: string
  i2cDescriptor :: u32
  ib_deviceAddress :: byte

text \<open>\<open>throw printf(...)\<close> throws the number of characters printed; the \<open>exit\<close> after it is never
  reached.\<close>

definition I2CBus_openI2C :: "'d i2c_dev \<Rightarrow> I2CBus \<Rightarrow> 'd \<Rightarrow> (I2CBus \<times> 'd) outcome" where
  "I2CBus_openI2C dev b d =
     (let fd = id_open dev (i2cFileName b); b1 = b\<lparr>i2cDescriptor := fd\<rparr> in
      if fd = - 1 then Throw ''Failed to open I2C device.''
      else case id_slave dev fd (ib_deviceAddress b) d of (ret, d1) \<Rightarrow>
        if ret <s 0 then Exit 1 else Ret (b1, d1))"

definition I2CBus_default :: "'d i2c_dev \<Rightarrow> 'd \<Rightarrow> (I2CBus \<times> 'd) outcome" where
  "I2CBus_default dev d =
     I2CBus_openI2C dev \<lparr>i2cFileName = ''/dev/i2c-0'', i2cDescriptor = - 1, ib_deviceAddress = 0x48\<rparr> d"

definition I2CBus_new :: "'d i2c_dev \<Rightarrow> byte \<Rightarrow> string \<Rightarrow> 'd \<Rightarrow> (I2CBus \<times> 'd) outcome" where
  "I2CBus_new dev dev_addr i2cfilename d =
     I2CBus_openI2C dev \<lparr>i2cFileName = i2cfilename, i2cDescriptor = - 1, ib_deviceAddress = dev_addr\<rparr> d"

definition I2CBus_writeReg :: "'d i2c_dev \<Rightarrow> I2CBus \<Rightarrow> byte \<Rightarrow> u16 \<Rightarrow> 'd \<Rightarrow> (u32 \<times> 'd) outcome" where
  "I2CBus_writeReg dev b reg_addr data d =
     (let i2c_buffer = [reg_addr, ucast data, ucast data] in
      case id_write dev (i2cDescriptor b) (take 2 i2c_buffer) d of (written, d1) \<Rightarrow>
        if written \<noteq> 2 then Exit 1
        else case id_read dev (i2cDescriptor b) 2 d1 of (bytesRead, d2) \<Rightarrow>
          if bytesRead \<noteq> 2 then Exit 1 else Ret (0, d2))"

text \<open>The \<open>int16_t\<close> at the two bytes of a little-endian host; bytes the kernel did not store keep
  their old value.\<close>

definition cat16 :: "byte \<Rightarrow> byte \<Rightarrow> u16" where
  "cat16 lo hi = ucast lo OR push_bit 8 (ucast hi)"

definition le16 :: "u16 \<Rightarrow> byte list" where
  "le16 w = [ucast w, ucast (drop_bit 8 w)]"

definition I2CBus_readReg :: "'d i2c_dev \<Rightarrow> I2CBus \<Rightarrow> byte \<Rightarrow> u16 \<Rightarrow> 'd \<Rightarrow> u32 \<times> u16 \<times> 'd" where
  "I2CBus_readReg dev b reg_addr data d =
     (let messages =
            [\<lparr>msg_addr = ucast (ib_deviceAddress b), msg_flags = 0, msg_len = 1, msg_buf = [reg_addr]\<rparr>,
             \<lparr>msg_addr = ucast (ib_deviceAddress b), msg_flags = I2C_M_RD, msg_len = 2, msg_buf = le16 data\<rparr>]
      in case id_rdwr dev (i2cDescriptor b) messages d of (retVal, stored, d1) \<Rightarrow>
           let inbuff = take 2 stored @ drop (length stored) (le16 data)
           in (0, cat16 (inbuff ! 0) (inbuff ! 1), d1))"

definition I2CBus_closeI2C :: "'d i2c_dev \<Rightarrow> I2CBus \<Rightarrow> u32 outcome" where
  "I2CBus_closeI2C dev b =
     (let retVal = id_close dev (i2cDescriptor b) in if retVal <s 0 then Exit (- 1) else Ret retVal)"

subsection \<open>SMBus\<close>

definition i2c_smbus_access ::
  "'d i2c_dev \<Rightarrow> u32 \<Rightarrow> byte \<Rightarrow> byte \<Rightarrow> nat \<Rightarrow> byte list option \<Rightarrow> 'd \<Rightarrow> u32 \<times> byte list \<times> 'd" where
  "i2c_smbus_access dev file read_write command sz data d =
     id_smbus dev file \<lparr>sa_read_write = read_write, sa_command = command, sa_size = sz\<rparr> data d"

definition i2c_smbus_write_quick :: "'d i2c_dev \<Rightarrow> u32 \<Rightarrow> byte \<Rightarrow> 'd \<Rightarrow> u32 \<times> 'd" where
  "i2c_smbus_write_quick dev file value d =
     (case i2c_smbus_access dev file value 0 I2C_SMBUS_QUICK None d of (ret, _, d1) \<Rightarrow> (ret, d1))"

text \<open>An uninitialised union is the argument \<open>junk\<close>.\<close>

definition smbus_byte :: "byte list \<Rightarrow> u32" where
  "smbus_byte data = 0x0FF AND ucast (data ! 0)"

definition smbus_word :: "byte list \<Rightarrow> u32" where
  "smbus_word data = 0x0FFFF AND ucast (cat16 (data ! 0) (data ! 1))"

definition put_byte :: "byte \<Rightarrow> byte list \<Rightarrow> byte list" where
  "put_byte v junk = v # drop 1 junk"

definition put_word :: "u16 \<Rightarrow> byte list \<Rightarrow> byte list" where
  "put_word v junk = le16 v @ drop 2 junk"

definition i2c_smbus_read_byte :: "'d i2c_dev \<Rightarrow> u32 \<Rightarrow> byte list \<Rightarrow> 'd \<Rightarrow> u32 \<times> 'd" where
  "i2c_smbus_read_byte dev file junk d =
     (case i2c_smbus_access dev file I2C_SMBUS_READ 0 I2C_SMBUS_BYTE (Some junk) d of (ret, data, d1) \<Rightarrow>
        (if ret \<noteq> 0 then - 1 else smbus_byte data, d1))"

definition i2c_smbus_write_byte :: "'d i2c_dev \<Rightarrow> u32 \<Rightarrow> byte \<Rightarrow> 'd \<Rightarrow> u32 \<times> 'd" where
  "i2c_smbus_write_byte dev file value d =
     (case i2c_smbus_access dev file I2C_SMBUS_WRITE value I2C_SMBUS_BYTE None d of (ret, _, d1) \<Rightarrow> (ret, d1))"

definition i2c_smbus_read_byte_data :: "'d i2c_dev \<Rightarrow> u32 \<Rightarrow> byte \<Rightarrow> byte list \<Rightarrow> 'd \<Rightarrow> u32 \<times> 'd" where
  "i2c_smbus_read_byte_data dev file command junk d =
     (case i2c_smbus_access dev file I2C_SMBUS_READ command I2C_SMBUS_BYTE_DATA (Some junk) d of
        (ret, data, d1) \<Rightarrow> (if ret \<noteq> 0 then - 1 else smbus_byte data, d1))"

definition i2c_smbus_write_byte_data :: "'d i2c_dev \<Rightarrow> u32 \<Rightarrow> byte \<Rightarrow> byte \<Rightarrow> byte list \<Rightarrow> 'd \<Rightarrow> u32 \<times> 'd" where
  "i2c_smbus_write_byte_data dev file command value junk d =
     (case i2c_smbus_access dev file I2C_SMBUS_WRITE command I2C_SMBUS_BYTE_DATA (Some (put_byte value junk)) d of
        (ret, _, d1) \<Rightarrow> (ret, d1))"

definition i2c_smbus_read_word_data :: "'d i2c_dev \<Rightarrow> u32 \<Rightarrow> byte \<Rightarrow> byte list \<Rightarrow> 'd \<Rightarrow> u32 \<times> 'd" where
  "i2c_smbus_read_word_data dev file command junk d =
     (case i2c_smbus_access dev file I2C_SMBUS_READ command I2C_SMBUS_WORD_DATA (Some junk) d of
        (ret, data, d1) \<Rightarrow> (if ret \<noteq> 0 then - 1 else smbus_word data, d1))"

definition i2c_smbus_write_word_data :: "'d i2c_dev \<Rightarrow> u32 \<Rightarrow> byte \<Rightarrow> u16 \<Rightarrow> byte list \<Rightarrow> 'd \<Rightarrow> u32 \<times> 'd" where
  "i2c_smbus_write_word_data dev file command value junk d =
     (case i2c_smbus_access dev file I2C_SMBUS_WRITE command I2C_SMBUS_WORD_DATA (Some (put_word value junk)) d of
        (ret, _, d1) \<Rightarrow> (ret, d1))"

definition i2c_smbus_process_call :: "'d i2c_dev \<Rightarrow> u32 \<Rightarrow> byte \<Rightarrow> u16 \<Rightarrow> byte list \<Rightarrow> 'd \<Rightarrow> u32 \<times> 'd" where
  "i2c_smbus_process_call dev file command value junk d =
     (case i2c_smbus_access dev file I2C_SMBUS_WRITE command I2C_SMBUS_PROC_CALL (Some (put_word value junk)) d of
        (ret, data, d1) \<Rightarrow> (if ret \<noteq> 0 then - 1 else smbus_word data, d1))"

text \<open>
  The block functions. The copy out of the union runs to the length byte \<open>block[0]\<close> that the kernel
  left there, which reads past the 34 bytes of the union when it is above 33: \<open>None\<close>. The
  caller's array is the list of values returned.
\<close>

definition block_values :: "byte list \<Rightarrow> byte list option" where
  "block_values data =
     (let n = unat (data ! 0) in if n < length data then Some (map (\<lambda>i. data ! i) [1..<Suc n]) else None)"

definition fill_block :: "byte \<Rightarrow> byte list \<Rightarrow> byte list \<Rightarrow> byte list" where
  "fill_block len values junk =
     (let n = (if len > 32 then 32 else len)
      in n # map (\<lambda>i. values ! (i - 1)) [1..<Suc (unat n)] @ drop (Suc (unat n)) junk)"

definition i2c_smbus_read_block_data ::
  "'d i2c_dev \<Rightarrow> u32 \<Rightarrow> byte \<Rightarrow> byte list \<Rightarrow> 'd \<Rightarrow> (u32 \<times> byte list \<times> 'd) option" where
  "i2c_smbus_read_block_data dev file command junk d =
     (case i2c_smbus_access dev file I2C_SMBUS_READ command I2C_SMBUS_BLOCK_DATA (Some junk) d of
        (ret, data, d1) \<Rightarrow>
          if ret \<noteq> 0 then Some (- 1, [], d1)
          else map_option (\<lambda>vs. (ucast (data ! 0), vs, d1)) (block_values data))"

definition i2c_smbus_write_block_data ::
  "'d i2c_dev \<Rightarrow> u32 \<Rightarrow> byte \<Rightarrow> byte \<Rightarrow> byte list \<Rightarrow> byte list \<Rightarrow> 'd \<Rightarrow> u32 \<times> 'd" where
  "i2c_smbus_write_block_data dev file command len values junk d =
     (case i2c_smbus_access dev file I2C_SMBUS_WRITE command I2C_SMBUS_BLOCK_DATA
             (Some (fill_block len values junk)) d of (ret, _, d1) \<Rightarrow> (ret, d1))"

definition i2c_smbus_read_i2c_block_data ::
  "'d i2c_dev \<Rightarrow> u32 \<Rightarrow> byte \<Rightarrow> byte \<Rightarrow> byte list \<Rightarrow> 'd \<Rightarrow> (u32 \<times> byte list \<times> 'd) option" where
  "i2c_smbus_read_i2c_block_data dev file command len junk d =
     (let n = (if len > 32 then 32 else len) in
      case i2c_smbus_access dev file I2C_SMBUS_READ command
             (if n = 32 then I2C_SMBUS_I2C_BLOCK_BROKEN else I2C_SMBUS_I2C_BLOCK_DATA) (Some (put_byte n junk)) d of
        (ret, data, d1) \<Rightarrow>
          if ret \<noteq> 0 then Some (- 1, [], d1)
          else map_option (\<lambda>vs. (ucast (data ! 0), vs, d1)) (block_values data))"

definition i2c_smbus_write_i2c_block_data ::
  "'d i2c_dev \<Rightarrow> u32 \<Rightarrow> byte \<Rightarrow> byte \<Rightarrow> byte list \<Rightarrow> byte list \<Rightarrow> 'd \<Rightarrow> u32 \<times> 'd" where
  "i2c_smbus_write_i2c_block_data dev file command len values junk d =
     (case i2c_smbus_access dev file I2C_SMBUS_WRITE command I2C_SMBUS_I2C_BLOCK_BROKEN
             (Some (fill_block len values junk)) d of (ret, _, d1) \<Rightarrow> (ret, d1))"

definition i2c_smbus_block_process_call ::
  "'d i2c_dev \<Rightarrow> u32 \<Rightarrow> byte \<Rightarrow> byte \<Rightarrow> byte list \<Rightarrow> byte list \<Rightarrow> 'd \<Rightarrow> (u32 \<times> byte list \<times> 'd) option" where
  "i2c_smbus_block_process_call dev file command len values junk d =
     (case i2c_smbus_access dev file I2C_SMBUS_WRITE command I2C_SMBUS_BLOCK_PROC_CALL
             (Some (fill_block len values junk)) d of
        (ret, data, d1) \<Rightarrow>
          if ret \<noteq> 0 then Some (- 1, [], d1)
          else map_option (\<lambda>vs. (ucast (data ! 0), vs, d1)) (block_values data))"

subsection \<open>Instances for examples\<close>

text \<open>A chip with a 16-bit register per command that also answers a block process call with the block it
  was sent.\<close>

definition demo_chip :: "(byte \<Rightarrow> u16) i2c_dev" where
  "demo_chip =
     \<lparr>id_open = (\<lambda>_. 5), id_slave = (\<lambda>_ _ d. (0, d)), id_write = (\<lambda>_ bs d. (of_nat (length bs), d)),
      id_read = (\<lambda>_ n d. (of_nat n, d)), id_rdwr = (\<lambda>_ _ d. (- 1, [], d)),
      id_smbus = (\<lambda>_ args data d.
        let b = (case data of None \<Rightarrow> [] | Some b \<Rightarrow> b) in
        if sa_size args = I2C_SMBUS_WORD_DATA then
          if sa_read_write args = I2C_SMBUS_WRITE then (0, b, d(sa_command args := cat16 (b ! 0) (b ! 1)))
          else (0, put_word (d (sa_command args)) b, d)
        else (0, b, d)),
      id_close = (\<lambda>_. 0)\<rparr>"

definition demo_i2c_bus :: I2CBus where
  "demo_i2c_bus = \<lparr>i2cFileName = ''/dev/i2c-0'', i2cDescriptor = 5, ib_deviceAddress = 0x48\<rparr>"

subsection \<open>Lemmas\<close>

lemma cat16_le16 [simp]: "cat16 (ucast w) (ucast (drop_bit 8 w)) = (w :: u16)"
proof (rule bit_word_eqI)
  fix n assume "n < LENGTH(16)"
  then show "bit (cat16 (ucast w) (ucast (drop_bit 8 w))) n = bit w n"
    by (cases "n < 8") (auto simp: cat16_def bit_simps)
qed

lemma length_le16 [simp]: "length (le16 w) = 2"
  by (simp add: le16_def)

lemma and_0xFFFF_u16: "0xFFFF AND ucast (w :: u16) = (ucast w :: u32)"
proof -
  have mask: "(0xFFFF :: u32) = mask 16" by (simp add: mask_eq_exp_minus_1)
  show ?thesis unfolding mask by (rule bit_word_eqI) (auto simp: bit_simps dest: bit_imp_le_length)
qed

lemma smbus_word_eq: "smbus_word data = ucast (cat16 (data ! 0) (data ! 1))"
  by (simp add: smbus_word_def and_0xFFFF_u16)

lemma ucast_u16_not_minus_1: "ucast (w :: u16) \<noteq> (- 1 :: u32)"
proof
  assume "ucast w = (- 1 :: u32)"
  then have "bit (ucast w :: u32) 31 = bit (- 1 :: u32) 31" by simp
  then show False by (auto simp: bit_simps dest: bit_imp_le_length)
qed

text \<open>The copy loops out of and into a block.\<close>

lemma block_length: "unat (if len > 32 then 32 else len :: byte) = min 32 (unat len)"
  by (simp add: word_less_nat_alt min_def)

lemma block_values_fill_block:
  assumes "length junk = 34" and "unat len \<le> length values"
  shows "length (fill_block len values junk) = 34"
    and "fill_block len values junk ! 0 = of_nat (min 32 (unat len))"
    and "block_values (fill_block len values junk) = Some (take (min 32 (unat len)) values)"
proof -
  define n where "n = (if len > 32 then 32 else len)"
  have un: "unat n = min 32 (unat len)" unfolding n_def by (rule block_length)
  let ?f = "fill_block len values junk"
  have f: "?f = n # map (\<lambda>i. values ! (i - 1)) [1..<Suc (unat n)] @ drop (Suc (unat n)) junk"
    by (simp add: fill_block_def n_def)
  show len: "length ?f = 34" using assms(1) by (simp add: f un del: upt_Suc)
  show "?f ! 0 = of_nat (min 32 (unat len))" by (simp add: f flip: un)
  have "map (\<lambda>i. ?f ! i) [1..<Suc (unat n)] = take (unat n) values"
    using assms(2) un by (intro nth_equalityI) (auto simp: f nth_append simp del: upt_Suc)
  moreover have "?f ! 0 = n" by (simp add: f)
  ultimately show "block_values ?f = Some (take (min 32 (unat len)) values)"
    using len un by (simp add: block_values_def Let_def del: upt_Suc)
qed

subsection \<open>Properties\<close>

text \<open>C31: the SMBus block process call, on any kernel and any chip. The union handed to \<open>ioctl\<close> always has its 34 bytes: the number of
  values, at most 32, then so many of the caller's values, then what the uninitialised union held. When the call fails the result
  is -1. When it succeeds the caller gets the number that the kernel left in the first of the 34 bytes of the union and that many of the
  bytes behind it, as long as they lie in the union; with a number above 33 the copy loop leaves the union (the
  model's \<open>None\<close>): the function does not check it.\<close>

theorem smbus_block_process_call:
  assumes "length junk = 34" and "unat len \<le> length values" and "n = min 32 (unat len)"
  shows "\<exists>block. length block = 34 \<and> block ! 0 = of_nat n \<and> take n (drop 1 block) = take n values \<and>
      drop (Suc n) block = drop (Suc n) junk \<and>
    (case id_smbus dev file \<lparr>sa_read_write = 0, sa_command = command, sa_size = 7\<rparr> (Some block) d of (ret, data, d1) \<Rightarrow>
       length data = 34 \<longrightarrow>
       i2c_smbus_block_process_call dev file command len values junk d =
         (if ret \<noteq> 0 then Some (- 1, [], d1)
          else if unat (data ! 0) \<le> 33 then Some (ucast (data ! 0), take (unat (data ! 0)) (drop 1 data), d1)
          else None))"
proof -
  let ?b = "fill_block len values junk"
  note block = block_values_fill_block [OF assms(1,2)]
  have un: "unat (if len > 32 then 32 else len) = n" by (simp only: block_length assms(3))
  have tail: "drop (Suc n) ?b = drop (Suc n) junk" and front: "take n (drop 1 ?b) = take n values"
  proof -
    define k where "k = (if len > 32 then 32 else len)"
    have k: "unat k = n" using un by (simp add: k_def)
    have b: "?b = k # map (\<lambda>i. values ! (i - 1)) [1..<Suc n] @ drop (Suc n) junk"
      by (simp add: fill_block_def k_def [symmetric] Let_def k)
    have "map (\<lambda>i. values ! (i - 1)) [1..<Suc n] = take n values"
      using assms(2,3) by (intro nth_equalityI) (auto simp del: upt_Suc)
    then show "drop (Suc n) ?b = drop (Suc n) junk" and "take n (drop 1 ?b) = take n values"
      using assms(2,3) unfolding b by (simp_all del: upt_Suc)
  qed
  have copied: "block_values data = (if unat (data ! 0) \<le> 33 then Some (take (unat (data ! 0)) (drop 1 data)) else None)"
    if "length data = 34" for data
  proof -
    have "map (\<lambda>i. data ! i) [1..<Suc k] = take k (drop 1 data)" if "k \<le> 33" for k
      using that \<open>length data = 34\<close> by (intro nth_equalityI) (auto simp del: upt_Suc)
    then show ?thesis using that by (simp add: block_values_def Let_def less_Suc_eq_le del: upt_Suc)
  qed
  show ?thesis
    using block tail front assms(3) copied
    by (intro exI [of _ ?b])
      (auto simp: i2c_smbus_block_process_call_def i2c_smbus_access_def smbus_consts split: prod.splits)
qed

theorem smbus_block_process_call_witness:
  "i2c_smbus_block_process_call demo_chip 5 0x10 3 [7, 8, 9] (replicate 34 0xAA) (\<lambda>_. 0) =
   Some (3, [7, 8, 9], \<lambda>_. 0)"
proof -
  have args: "length (replicate 34 0xAA :: byte list) = 34" "unat (3 :: byte) \<le> length [7, 8, 9 :: byte]"
    "3 = min 32 (unat (3 :: byte))" by simp_all
  obtain block where b: "length block = 34" "block ! 0 = of_nat 3" "take 3 (drop 1 block) = take 3 [7, 8, 9]"
    and res: "case id_smbus demo_chip 5 \<lparr>sa_read_write = 0, sa_command = 0x10, sa_size = 7\<rparr> (Some block) (\<lambda>_. 0) of
      (ret, data, d1) \<Rightarrow> length data = 34 \<longrightarrow>
        i2c_smbus_block_process_call demo_chip 5 0x10 3 [7, 8, 9] (replicate 34 0xAA) (\<lambda>_. 0) =
         (if ret \<noteq> 0 then Some (- 1, [], d1)
          else if unat (data ! 0) \<le> 33 then Some (ucast (data ! 0), take (unat (data ! 0)) (drop 1 data), d1)
          else None)"
    using smbus_block_process_call [OF args, of demo_chip 5 "0x10" "\<lambda>_. 0"] by (elim exE conjE) (rule that)
  have "id_smbus demo_chip 5 \<lparr>sa_read_write = 0, sa_command = 0x10, sa_size = 7\<rparr> (Some block) (\<lambda>_. 0) = (0, block, \<lambda>_. 0)"
    by (simp add: demo_chip_def smbus_consts)
  with res b show ?thesis by simp
qed

text \<open>a word written with \<open>i2c_smbus_write_word_data\<close> and returned by the chip for the same command is
  the result of \<open>i2c_smbus_read_word_data\<close>; the error result -1 is never confused with a value.\<close>

theorem smbus_word_roundtrip:
  assumes "id_smbus dev file \<lparr>sa_read_write = 0, sa_command = command, sa_size = 3\<rparr> (Some (put_word v j1)) d = (0, x, d1)"
    and "id_smbus dev file \<lparr>sa_read_write = 1, sa_command = command, sa_size = 3\<rparr> (Some j2) d1 = (ret, data, d2)"
    and "ret = 0 \<Longrightarrow> take 2 data = le16 v"
  shows "i2c_smbus_write_word_data dev file command v j1 d = (0, d1) \<and>
    i2c_smbus_read_word_data dev file command j2 d1 = (if ret = 0 then ucast v else - 1, d2) \<and>
    (fst (i2c_smbus_read_word_data dev file command j2 d1) = - 1 \<longleftrightarrow> ret \<noteq> 0)"
proof -
  have "smbus_word data = ucast v" if "ret = 0"
  proof -
    have "data ! 0 = le16 v ! 0" and "data ! 1 = le16 v ! 1"
      using assms(3) [OF that] by (metis nth_take zero_less_numeral one_less_numeral_iff semiring_norm(76))+
    then show ?thesis by (simp add: smbus_word_eq le16_def)
  qed
  then show ?thesis
    using assms(1,2) ucast_u16_not_minus_1 [of v]
    by (auto simp: i2c_smbus_write_word_data_def i2c_smbus_read_word_data_def i2c_smbus_access_def smbus_consts)
qed

theorem smbus_word_roundtrip_witness:
  "fst (i2c_smbus_read_word_data demo_chip 5 0xB2 (replicate 34 0)
     (snd (i2c_smbus_write_word_data demo_chip 5 0xB2 0x03C7 (replicate 34 0) (\<lambda>_. 0)))) = 0x03C7"
proof -
  let ?j = "replicate 34 0 :: byte list"
  have w: "id_smbus demo_chip 5 \<lparr>sa_read_write = 0, sa_command = 0xB2, sa_size = 3\<rparr> (Some (put_word 0x03C7 ?j)) (\<lambda>_. 0) =
      (0, put_word 0x03C7 ?j, (\<lambda>_. 0)(0xB2 := 0x03C7))"
    by (simp add: demo_chip_def smbus_consts put_word_def le16_def cat16_def)
  have r: "id_smbus demo_chip 5 \<lparr>sa_read_write = 1, sa_command = 0xB2, sa_size = 3\<rparr> (Some ?j) ((\<lambda>_. 0)(0xB2 := 0x03C7)) =
      (0, put_word 0x03C7 ?j, (\<lambda>_. 0)(0xB2 := 0x03C7))"
    by (simp add: demo_chip_def smbus_consts)
  have "take 2 (put_word 0x03C7 ?j) = le16 0x03C7" by (simp add: put_word_def)
  from smbus_word_roundtrip [OF w r this] show ?thesis by simp
qed

text \<open>\<open>I2CBus::writeReg\<close> transmits only the register address and the low byte of the data: two values
  with the same low byte are the same to it, on every device, although it is documented to write
  two bytes of data.\<close>

theorem I2CBus_writeReg_drops_high_byte:
  "I2CBus_writeReg dev b reg data d = I2CBus_writeReg dev b reg (data AND 0xFF) d"
proof -
  have mask: "(0xFF :: u16) = mask 8" by (simp add: mask_eq_exp_minus_1)
  have "(ucast (data AND 0xFF) :: byte) = ucast data" unfolding mask by (rule bit_word_eqI) (auto simp: bit_simps)
  then show ?thesis by (simp add: I2CBus_writeReg_def)
qed

text \<open>A failed transfer is reported as success by \<open>I2CBus::readReg\<close>, with the data unchanged.\<close>

lemma I2CBus_readReg_ignores_error:
  assumes "\<And>ms. id_rdwr dev (i2cDescriptor b) ms d = (ret, [], d1)"
  shows "I2CBus_readReg dev b reg data d = (0, data, d1)"
  using assms by (simp add: I2CBus_readReg_def Let_def le16_def)

end
