(* ===== verification/I2cBusses.thy ===== *)
theory I2cBusses
  imports I2cDev SharedMem
begin

text \<open>
  The helpers of xilinx/visensor-srv/src/i2cbusses.c and i2cbusses.h: parsing of bus numbers and chip
  addresses, opening a bus, the kind of an adapter, and the search for a bus by its name. C
  strings are lists of characters without the NUL. What the C library does to strings
  (\<open>strtol\<close>, \<open>strtoul\<close>, \<open>sscanf\<close>, \<open>strrchr\<close>, \<open>printf\<close> of \<open>%d\<close>) is defined first;
  the answers of the kernel are the parameter \<open>i2c_os\<close>.

  The table that \<open>gather_i2c_busses\<close> returns is an argument of the search here; of its body this theory has the reading of one line of
  /proc/bus/i2c and of one entry of sysfs, and \<open>I2cGather\<close> the loops and the table.
\<close>

subsection \<open>C strings\<close>

definition isspace :: "char \<Rightarrow> bool" where
  "isspace c \<longleftrightarrow> c = CHR 0x20 \<or> c = CHR 0x09 \<or> c = CHR 0x0A \<or> c = CHR 0x0B \<or> c = CHR 0x0C \<or> c = CHR 0x0D"

definition digit_val :: "char \<Rightarrow> nat" where
  "digit_val c =
     (let n = of_char c in
      if 48 \<le> n \<and> n \<le> 57 then n - 48
      else if 97 \<le> n \<and> n \<le> 122 then n - 87
      else if 65 \<le> n \<and> n \<le> 90 then n - 55 else 99)"

definition number_of :: "nat \<Rightarrow> string \<Rightarrow> nat" where
  "number_of base ds = foldl (\<lambda>n c. n * base + digit_val c) 0 ds"

definition split_sign :: "string \<Rightarrow> bool \<times> string" where
  "split_sign s =
     (case s of [] \<Rightarrow> (False, s)
      | c # r \<Rightarrow> if c = CHR ''-'' then (True, r) else if c = CHR ''+'' then (False, r) else (False, s))"

text \<open>Base 0: a prefix \<open>0x\<close> with a hexadecimal digit behind it, a leading \<open>0\<close>, or decimal.\<close>

definition split_base :: "string \<Rightarrow> nat \<times> string" where
  "split_base s =
     (case s of
        a # x # d # r \<Rightarrow>
          if a = CHR ''0'' \<and> (x = CHR ''x'' \<or> x = CHR ''X'') \<and> digit_val d < 16 then (16, d # r)
          else (if a = CHR ''0'' then 8 else 10, s)
      | a # r \<Rightarrow> (if a = CHR ''0'' then 8 else 10, s)
      | [] \<Rightarrow> (10, s))"

text \<open>Sign, magnitude and what follows the number; \<open>None\<close> when there is no number. \<open>base0\<close> tells whether
  the base is found from the prefix.\<close>

definition parse_number :: "bool \<Rightarrow> string \<Rightarrow> (bool \<times> nat \<times> string) option" where
  "parse_number base0 s =
     (case split_sign (dropWhile isspace s) of (neg, s1) \<Rightarrow>
        case (if base0 then split_base s1 else (10, s1)) of (base, s2) \<Rightarrow>
          let ds = takeWhile (\<lambda>c. digit_val c < base) s2 in
          if ds = [] then None
          else Some (neg, number_of base ds, dropWhile (\<lambda>c. digit_val c < base) s2))"

definition clamp_long :: "int \<Rightarrow> int" where
  "clamp_long i = max (- (2 ^ 31)) (min (2 ^ 31 - 1) i)"

definition strtol :: "string \<Rightarrow> int \<times> string" where
  "strtol s =
     (case parse_number True s of None \<Rightarrow> (0, s)
      | Some (neg, n, rest) \<Rightarrow> (clamp_long (if neg then - int n else int n), rest))"

definition strtoul :: "string \<Rightarrow> u32 \<times> string" where
  "strtoul s =
     (case parse_number True s of None \<Rightarrow> (0, s)
      | Some (neg, n, rest) \<Rightarrow>
          (if n > 2 ^ 32 - 1 then - 1 else if neg then - of_nat n else of_nat n, rest))"

text \<open>\<open>sscanf(s, "i2c-%d", &v)\<close>: the number of conversions, -1 when the string ends too early, and the
  value, which keeps its old contents unless one was made.\<close>

definition sscanf_i2c :: "string \<Rightarrow> u32 \<Rightarrow> int \<times> u32" where
  "sscanf_i2c s v =
     (if take 4 s = ''i2c-'' then
        case parse_number False (drop 4 s) of
          None \<Rightarrow> (if dropWhile isspace (drop 4 s) = [] then - 1 else 0, v)
        | Some (neg, n, _) \<Rightarrow> (1, word_of_int (clamp_long (if neg then - int n else int n)))
      else (if s = take (length s) ''i2c-'' then - 1 else 0, v))"

definition printf_u :: "nat \<Rightarrow> string" where
  "printf_u n = map (\<lambda>b. char_of (unat b)) (dec_digits n)"

definition printf_d :: "u32 \<Rightarrow> string" where
  "printf_d v = (if v <s 0 then CHR ''-'' # printf_u (nat (- sint v)) else printf_u (nat (sint v)))"

text \<open>\<open>strrchr\<close> at a tab: what is before and after the last one; \<open>None\<close> for the null pointer.\<close>

definition strrchr_tab :: "string \<Rightarrow> (string \<times> string) option" where
  "strrchr_tab s =
     (if CHR 0x09 \<in> set s then
        let after = rev (takeWhile (\<lambda>c. c \<noteq> CHR 0x09) (rev s))
        in Some (take (length s - length after - 1) s, after)
      else None)"

subsection \<open>The kernel\<close>

text \<open>Each call gives its result and the \<open>errno\<close> it sets.\<close>

record i2c_os =
  io_open :: "string \<Rightarrow> u32 \<times> u32"
  io_funcs :: "u32 \<Rightarrow> u32 \<times> u32"
  io_slave :: "u32 \<Rightarrow> u32 \<Rightarrow> u32 \<Rightarrow> u32 \<times> u32"

definition ENOENT :: u32 where "ENOENT = 2"
definition EACCES :: u32 where "EACCES = 13"
definition ENOTDIR :: u32 where "ENOTDIR = 20"
definition I2C_SLAVE :: u32 where "I2C_SLAVE = 0x0703"
definition I2C_SLAVE_FORCE :: u32 where "I2C_SLAVE_FORCE = 0x0706"
definition I2C_FUNC_I2C :: u32 where "I2C_FUNC_I2C = 0x00000001"
definition I2C_FUNC_SMBUS_BYTE :: u32 where "I2C_FUNC_SMBUS_BYTE = 0x00020000 OR 0x00040000"
definition I2C_FUNC_SMBUS_BYTE_DATA :: u32 where "I2C_FUNC_SMBUS_BYTE_DATA = 0x00080000 OR 0x00100000"
definition I2C_FUNC_SMBUS_WORD_DATA :: u32 where "I2C_FUNC_SMBUS_WORD_DATA = 0x00200000 OR 0x00400000"

subsection \<open>Opening a bus\<close>

datatype open_report = NoReport | NoSuchFiles u32 | CouldNotOpen string u32 bool

text \<open>
  The file descriptor, the name left in the caller's buffer of \<open>size\<close> bytes and the message on standard
  error. The first name is cut to fit, the second is printed without a bound: \<open>None\<close> when it does not
  fit with its NUL.
\<close>

definition open_i2c_dev :: "i2c_os \<Rightarrow> u32 \<Rightarrow> nat \<Rightarrow> bool \<Rightarrow> (u32 \<times> string \<times> open_report) option" where
  "open_i2c_dev os i2cbus sz quiet =
     (if sz = 0 then None
      else
        let filename = take (sz - 1) (''/dev/i2c/'' @ printf_d i2cbus);
            (file, errno) = io_open os filename;
            again = (file <s 0 \<and> (errno = ENOENT \<or> errno = ENOTDIR));
            filename1 = (if again then ''/dev/i2c-'' @ printf_d i2cbus else filename);
            (file1, errno1) = (if again then io_open os filename1 else (file, errno))
        in if again \<and> sz \<le> length filename1 then None
           else Some (file1, filename1,
             if file1 <s 0 \<and> \<not> quiet
             then if errno1 = ENOENT then NoSuchFiles i2cbus
                  else CouldNotOpen filename1 errno1 (errno1 = EACCES)
             else NoReport))"

definition set_slave_addr :: "i2c_os \<Rightarrow> u32 \<Rightarrow> u32 \<Rightarrow> bool \<Rightarrow> u32" where
  "set_slave_addr os file address force =
     (case io_slave os file (if force then I2C_SLAVE_FORCE else I2C_SLAVE) address of (ret, errno) \<Rightarrow>
        if ret <s 0 then - errno else 0)"

subsection \<open>Adapters\<close>

datatype adt = adt_dummy | adt_isa | adt_i2c | adt_smbus | adt_unknown

text \<open>The table \<open>adap_types\<close>: the fields \<open>funcs\<close> and \<open>algo\<close>.\<close>

fun adap_types :: "adt \<Rightarrow> string \<times> string" where
  "adap_types adt_dummy = (''dummy'', ''Dummy bus'')"
| "adap_types adt_isa = (''isa'', ''ISA bus'')"
| "adap_types adt_i2c = (''i2c'', ''I2C adapter'')"
| "adap_types adt_smbus = (''smbus'', ''SMBus adapter'')"
| "adap_types adt_unknown = (''unknown'', ''N/A'')"

definition i2c_get_funcs :: "i2c_os \<Rightarrow> u32 \<Rightarrow> adt option" where
  "i2c_get_funcs os i2cbus =
     (case open_i2c_dev os i2cbus 20 True of
        None \<Rightarrow> None
      | Some (file, _, _) \<Rightarrow>
          if file <s 0 then Some adt_unknown
          else case io_funcs os file of (ret, funcs) \<Rightarrow>
            Some (if ret <s 0 then adt_unknown
                  else if funcs AND I2C_FUNC_I2C \<noteq> 0 then adt_i2c
                  else if funcs AND (I2C_FUNC_SMBUS_BYTE OR I2C_FUNC_SMBUS_BYTE_DATA OR I2C_FUNC_SMBUS_WORD_DATA) \<noteq> 0
                       then adt_smbus
                  else adt_dummy))"

text \<open>\<open>name\<close> is \<open>None\<close> in the terminating entry.\<close>

record i2c_adap =
  ad_nr :: u32
  ad_name :: "string option"
  ad_funcs :: string
  ad_algo :: string

text \<open>The loop of \<open>rtrim\<close>, where \<open>n\<close> is \<open>i + 1\<close>: a NUL at index \<open>i\<close> ends the string there.\<close>

fun rtrim_loop :: "nat \<Rightarrow> string \<Rightarrow> nat \<times> string" where
  "rtrim_loop 0 s = (0, s)"
| "rtrim_loop (Suc i) s =
     (if s ! i = CHR '' '' \<or> s ! i = CHR 0x0A then rtrim_loop i (take i s) else (Suc i, s))"

definition rtrim :: "string \<Rightarrow> nat \<times> string" where
  "rtrim s = (case rtrim_loop (length s) s of (n, t) \<Rightarrow> (n + 1, t))"

text \<open>\<open>free_adapters\<close>: the names freed, up to the terminating entry; \<open>None\<close> when there is none.\<close>

fun free_adapters :: "i2c_adap list \<Rightarrow> string list option" where
  "free_adapters [] = None"
| "free_adapters (a # as) =
     (case ad_name a of None \<Rightarrow> Some [] | Some s \<Rightarrow> map_option (Cons s) (free_adapters as))"

text \<open>One line of /proc/bus/i2c. Without three tabs the null pointer is written to: \<open>None\<close>.
  \<open>junk\<close> is the uninitialised \<open>i2cbus\<close>.\<close>

definition proc_entry :: "u32 \<Rightarrow> string \<Rightarrow> i2c_adap option" where
  "proc_entry junk s =
     (case strrchr_tab s of None \<Rightarrow> None | Some (s1, algo) \<Rightarrow>
      case strrchr_tab s1 of None \<Rightarrow> None | Some (s2, name) \<Rightarrow>
      case strrchr_tab s2 of None \<Rightarrow> None | Some (s3, type) \<Rightarrow>
        Some \<lparr>ad_nr = snd (sscanf_i2c s3 junk), ad_name = Some (snd (rtrim name)),
              ad_funcs = snd (rtrim type), ad_algo = snd (rtrim algo)\<rparr>)"

text \<open>One entry of sysfs, from the line its name file begins with (\<open>None\<close> when it cannot be read): \<open>Some None\<close>
  when the entry is skipped, \<open>None\<close> when the buffer for the device name overflows.\<close>

definition sysfs_entry :: "i2c_os \<Rightarrow> u32 \<Rightarrow> string \<Rightarrow> string option \<Rightarrow> i2c_adap option option" where
  "sysfs_entry os junk d_name line =
     (case line of None \<Rightarrow> Some None
      | Some s \<Rightarrow>
          let name = takeWhile (\<lambda>c. c \<noteq> CHR 0x0A) s; (found, i2cbus) = sscanf_i2c d_name junk in
          if found = 0 then Some None
          else map_option
                 (\<lambda>type. Some \<lparr>ad_nr = i2cbus, ad_name = Some name,
                                ad_funcs = fst (adap_types type), ad_algo = snd (adap_types type)\<rparr>)
                 (if take 4 name = ''ISA '' then Some adt_isa else i2c_get_funcs os i2cbus))"

subsection \<open>Searching and parsing\<close>

text \<open>The walk along the table up to its terminating entry; \<open>None\<close> when it runs off the table.\<close>

fun lookup_loop :: "string \<Rightarrow> u32 \<Rightarrow> i2c_adap list \<Rightarrow> u32 option" where
  "lookup_loop bus_name i2cbus [] = None"
| "lookup_loop bus_name i2cbus (a # as) =
     (case ad_name a of None \<Rightarrow> Some i2cbus
      | Some s \<Rightarrow>
          if s = bus_name then
            if 0 <=s i2cbus then Some (- 4) else lookup_loop bus_name (ad_nr a) as
          else lookup_loop bus_name i2cbus as)"

text \<open>\<open>adapters\<close> is what \<open>gather_i2c_busses\<close> returned. At the end \<open>free_adapters\<close> walks along the table
  once more.\<close>

definition lookup_i2c_bus_by_name :: "i2c_adap list option \<Rightarrow> string \<Rightarrow> u32 option" where
  "lookup_i2c_bus_by_name adapters bus_name =
     (case adapters of None \<Rightarrow> Some (- 3)
      | Some tbl \<Rightarrow>
          case lookup_loop bus_name (- 1) tbl of None \<Rightarrow> None
          | Some i2cbus \<Rightarrow> map_option (\<lambda>_. i2cbus) (free_adapters tbl))"

definition lookup_i2c_bus :: "i2c_adap list option \<Rightarrow> string \<Rightarrow> u32 option" where
  "lookup_i2c_bus adapters i2cbus_arg =
     (case strtoul i2cbus_arg of (i2cbus, rest) \<Rightarrow>
        if rest \<noteq> [] \<or> i2cbus_arg = [] then lookup_i2c_bus_by_name adapters i2cbus_arg
        else if i2cbus > 0xFFFFF then Some (- 2) else Some i2cbus)"

definition parse_i2c_address :: "string \<Rightarrow> int" where
  "parse_i2c_address address_arg =
     (case strtol address_arg of (address, rest) \<Rightarrow>
        if rest \<noteq> [] \<or> address_arg = [] then - 1
        else if address < 0x03 \<or> address > 0x77 then - 2 else address)"

subsection \<open>Instances for examples\<close>

definition demo_i2c_os :: i2c_os where
  "demo_i2c_os =
     \<lparr>io_open = (\<lambda>f. if f = ''/dev/i2c-1'' then (5, 0) else (- 1, ENOENT)),
      io_funcs = (\<lambda>_. (0, 0x00EF0000)), io_slave = (\<lambda>_ _ _. (- 1, 16))\<rparr>"

definition demo_adapters :: "i2c_adap list" where
  "demo_adapters =
     [\<lparr>ad_nr = 0, ad_name = Some ''camera'', ad_funcs = ''i2c'', ad_algo = ''I2C adapter''\<rparr>,
      \<lparr>ad_nr = 1, ad_name = Some ''power'', ad_funcs = ''smbus'', ad_algo = ''SMBus adapter''\<rparr>,
      \<lparr>ad_nr = 0, ad_name = None, ad_funcs = [], ad_algo = []\<rparr>]"

subsection \<open>Numbers\<close>

definition digit_char :: "nat \<Rightarrow> char" where
  "digit_char d = char_of (48 + d)"

lemma digit_char_iff: "d < 10 \<Longrightarrow> digit_char d = c \<longleftrightarrow> 48 + d = of_char c"
proof -
  assume "d < 10"
  then have "of_char (digit_char d) = 48 + d" by (simp add: digit_char_def)
  then show ?thesis by (metis of_char_eq_iff)
qed

lemma digit_val_digit [simp]: "d < 10 \<Longrightarrow> digit_val (digit_char d) = d"
  by (simp add: digit_val_def digit_char_def)

lemma digit_char_other:
  assumes "d < 10"
  shows "\<not> isspace (digit_char d)" and "digit_char d \<noteq> CHR ''-''" and "digit_char d \<noteq> CHR ''+''"
    and "digit_char d \<noteq> CHR 0x09" and "digit_char d = CHR ''0'' \<longleftrightarrow> d = 0"
  using assms by (simp_all add: isspace_def digit_char_iff)

lemma printf_u_rec:
  "printf_u n = (if n < 10 then [digit_char n] else printf_u (n div 10) @ [digit_char (n mod 10)])"
proof -
  have "unat (of_nat (48 + d) :: byte) = 48 + d" if "d < 10" for d
    using that by (simp only: unat_of_nat) simp
  from this [of n] this [of "n mod 10"] show ?thesis
    unfolding printf_u_def digit_char_def by (subst dec_digits.simps) simp
qed

lemma number_of_snoc: "number_of base (ds @ [c]) = number_of base ds * base + digit_val c"
  by (simp add: number_of_def)

lemma printf_u_decimal:
  "number_of 10 (printf_u n) = n \<and> (\<forall>c \<in> set (printf_u n). \<exists>d. d < 10 \<and> c = digit_char d) \<and>
   (\<exists>d r. printf_u n = digit_char d # r \<and> d < 10 \<and> (d = 0 \<longrightarrow> n = 0))"
proof (induction n rule: less_induct)
  case (less n)
  show ?case
  proof (cases "n < 10")
    case True
    then have eq: "printf_u n = [digit_char n]" by (subst printf_u_rec) simp
    have "number_of 10 (printf_u n) = n" using True by (simp add: eq number_of_def)
    with True eq show ?thesis by auto
  next
    case False
    then have "n div 10 < n" "n div 10 \<noteq> 0" by auto
    note IH = less.IH [OF this(1)]
    have "\<exists>d < 10. digit_char (n mod 10) = digit_char d" by (rule exI [of _ "n mod 10"]) simp
    with IH False \<open>n div 10 \<noteq> 0\<close> show ?thesis
      by (subst (1 2 3) printf_u_rec) (auto simp: number_of_snoc)
  qed
qed

lemma split_base_decimal: "a \<noteq> CHR ''0'' \<Longrightarrow> split_base (a # r) = (10, a # r)"
  by (auto simp: split_base_def split: list.splits)

lemma takeWhile_all: "\<forall>x \<in> set xs. P x \<Longrightarrow> takeWhile P (xs @ ys) = xs @ takeWhile P ys"
  and dropWhile_all: "\<forall>x \<in> set xs. P x \<Longrightarrow> dropWhile P (xs @ ys) = dropWhile P ys"
  by (induction xs) auto

lemma parse_number_printf_u:
  assumes "rest = [] \<or> \<not> digit_val (hd rest) < 10" and "base0 \<Longrightarrow> rest = []"
  shows "parse_number base0 (printf_u n @ rest) = Some (False, n, rest)"
proof -
  obtain d r where s: "printf_u n = digit_char d # r" and d: "d < 10" "d = 0 \<longrightarrow> n = 0"
    using printf_u_decimal [of n] by blast
  have digits: "\<forall>c \<in> set (printf_u n). digit_val c < 10" using printf_u_decimal [of n] by auto
  have stop: "takeWhile (\<lambda>c. digit_val c < 10) rest = []" "dropWhile (\<lambda>c. digit_val c < 10) rest = rest"
    using assms(1) by (cases rest; simp)+
  have skip: "split_sign (dropWhile isspace (printf_u n @ rest)) = (False, printf_u n @ rest)"
    using digit_char_other [OF d(1)] by (simp add: s split_sign_def)
  show ?thesis
  proof (cases "base0 \<and> n = 0")
    case True
    then have "printf_u n = ''0''" "rest = []" using assms(2) digit_char_other(5) [of 0] by (auto simp: printf_u_rec)
    with True skip show ?thesis by (simp add: parse_number_def split_base_def number_of_def digit_val_def)
  next
    case False
    then have base: "(if base0 then split_base (printf_u n @ rest) else (10, printf_u n @ rest)) = (10, printf_u n @ rest)"
      using d digit_char_other(5) [OF d(1)] by (auto simp: s split_base_decimal)
    have span: "takeWhile (\<lambda>c. digit_val c < 10) (printf_u n @ rest) = printf_u n"
      "dropWhile (\<lambda>c. digit_val c < 10) (printf_u n @ rest) = rest"
      using takeWhile_all [OF digits, of rest] dropWhile_all [OF digits, of rest] stop by simp_all
    have "number_of 10 (printf_u n) = n" "printf_u n \<noteq> []" using printf_u_decimal [of n] s by auto
    then show ?thesis by (simp only: parse_number_def skip prod.case base Let_def span if_False)
  qed
qed

lemma strtol_printf_u: "strtol (printf_u n) = (clamp_long (int n), [])"
  using parse_number_printf_u [of "[]" True n] by (simp add: strtol_def)

lemma strtoul_printf_u: "strtoul (printf_u n) = (if n > 2 ^ 32 - 1 then - 1 else of_nat n, [])"
  using parse_number_printf_u [of "[]" True n] by (simp add: strtoul_def)

lemma printf_u_nonempty [simp]: "printf_u n \<noteq> []"
  by (subst printf_u_rec) simp

subsection \<open>Trimming and lines\<close>

lemma rtrim_loop_eq:
  "n = length s \<Longrightarrow> rtrim_loop n s =
     (let t = rev (dropWhile (\<lambda>c. c = CHR '' '' \<or> c = CHR 0x0A) (rev s)) in (length t, t))"
proof (induction n s rule: rtrim_loop.induct)
  case (2 i s)
  then obtain t c where s: "s = t @ [c]" and t: "i = length t" by (metis length_append_singleton rev_exhaust
        length_0_conv nat.inject old.nat.distinct(1))
  then show ?case using 2 by (auto simp: Let_def)
qed simp

lemma strrchr_tab_append: "CHR 0x09 \<notin> set b \<Longrightarrow> strrchr_tab (a @ CHR 0x09 # b) = Some (a, b)"
  by (simp add: strrchr_tab_def takeWhile_append)

abbreviation blank :: "char \<Rightarrow> bool" where
  "blank c \<equiv> c = CHR '' '' \<or> c = CHR 0x0A"

lemma rtrim_eq: "rtrim s = (let t = rev (dropWhile blank (rev s)) in (length t + 1, t))"
  by (simp add: rtrim_def rtrim_loop_eq Let_def)

text \<open>A field that does not end with a blank, followed by blanks.\<close>

lemma rtrim_field:
  assumes "t = [] \<or> \<not> blank (last t)" and "\<forall>c \<in> set pad. blank c"
  shows "rtrim (t @ pad) = (length t + 1, t)"
proof -
  have "dropWhile blank (rev (t @ pad)) = dropWhile blank (rev t)"
    using assms(2) dropWhile_all [of "rev pad" blank "rev t"] by simp
  also have "\<dots> = rev t"
    using assms(1) by (cases "rev t") (auto simp: rev_eq_Cons_iff)
  finally show ?thesis by (simp add: rtrim_eq)
qed

subsection \<open>The table of adapters\<close>

lemma free_adapters_terminated:
  "\<forall>a \<in> set as. ad_name a \<noteq> None \<Longrightarrow> ad_name e = None \<Longrightarrow>
   free_adapters (as @ e # rest) = Some (map (the \<circ> ad_name) as)"
  by (induction as) auto

lemma lookup_loop_found:
  assumes "\<forall>a \<in> set as. ad_name a \<noteq> None" and "ad_name e = None" and "0 <=s i2cbus"
  shows "lookup_loop bus_name i2cbus (as @ e # rest) =
    Some (if \<exists>a \<in> set as. ad_name a = Some bus_name then - 4 else i2cbus)"
  using assms by (induction as) auto

lemma lookup_loop_searching:
  assumes "\<forall>a \<in> set as. ad_name a \<noteq> None" and "ad_name e = None" and "\<forall>a \<in> set as. 0 <=s ad_nr a"
  shows "lookup_loop bus_name (- 1) (as @ e # rest) =
    Some (case filter (\<lambda>a. ad_name a = Some bus_name) as of [] \<Rightarrow> - 1 | [a] \<Rightarrow> ad_nr a | _ \<Rightarrow> - 4)"
  using assms
proof (induction as)
  case (Cons a as)
  have "(\<exists>b \<in> set as. ad_name b = Some bus_name) \<longleftrightarrow> filter (\<lambda>a. ad_name a = Some bus_name) as \<noteq> []"
    by (auto simp: filter_empty_conv)
  with Cons show ?case
    by (auto simp: lookup_loop_found split: list.splits)
qed simp

subsection \<open>File names\<close>

lemma length_printf_d:
  assumes "\<not> bus <s 0"
  shows "length (printf_d bus) \<le> 10"
proof -
  have "sint bus < 2 ^ 31" using sint_lt [of bus] by simp
  then have "nat (sint bus) < 10 ^ 10" by simp
  then have "length (dec_digits (nat (sint bus))) \<le> 10" by (intro length_dec_digits) auto
  with assms show ?thesis by (simp add: printf_d_def printf_u_def)
qed

subsection \<open>Properties\<close>

text \<open>C34: numbers on the command line. The decimal notation of any number, however long, is parsed as that chip
  address when it is one of the 7-bit addresses 3 to 119 and rejected with -2 otherwise, and as that bus
  number up to 0xFFFFF and rejected with -2 above; no argument whatsoever gives an address outside the
  range.\<close>

theorem i2c_numbers_roundtrip:
  "parse_i2c_address (printf_u n) = (if 3 \<le> n \<and> n \<le> 119 then int n else - 2) \<and>
   lookup_i2c_bus adapters (printf_u n) = Some (if n \<le> 0xFFFFF then of_nat n else - 2) \<and>
   parse_i2c_address arg \<in> {- 1, - 2} \<union> {3..119}"
proof (intro conjI)
  show "parse_i2c_address (printf_u n) = (if 3 \<le> n \<and> n \<le> 119 then int n else - 2)"
    by (auto simp: parse_i2c_address_def strtol_printf_u clamp_long_def)
  have "(of_nat n :: u32) > 0xFFFFF \<longleftrightarrow> n > 0xFFFFF" if "n \<le> 2 ^ 32 - 1"
    using that by (simp add: word_less_nat_alt unat_of_nat)
  then show "lookup_i2c_bus adapters (printf_u n) = Some (if n \<le> 0xFFFFF then of_nat n else - 2)"
    by (auto simp: lookup_i2c_bus_def strtoul_printf_u)
  show "parse_i2c_address arg \<in> {- 1, - 2} \<union> {3..119}"
    by (auto simp: parse_i2c_address_def split: prod.splits)
qed

text \<open>the search for a bus by its name in a terminated table gives the number of the bus when exactly one has
  the name, -1 when none has it and -4 when several have it, and stays inside the table.\<close>

theorem lookup_i2c_bus_by_name_spec:
  assumes "\<forall>a \<in> set as. ad_name a \<noteq> None" and "ad_name e = None" and "\<forall>a \<in> set as. 0 <=s ad_nr a"
  shows "lookup_i2c_bus_by_name (Some (as @ e # rest)) bus_name =
    Some (case filter (\<lambda>a. ad_name a = Some bus_name) as of [] \<Rightarrow> - 1 | [a] \<Rightarrow> ad_nr a | _ \<Rightarrow> - 4)"
  using assms by (simp add: lookup_i2c_bus_by_name_def lookup_loop_searching free_adapters_terminated)

theorem lookup_i2c_bus_by_name_spec_witness:
  "lookup_i2c_bus_by_name (Some demo_adapters) ''power'' = Some 1"
  using lookup_i2c_bus_by_name_spec [of "take 2 demo_adapters" "demo_adapters ! 2" "[]" "''power''"]
  by (simp add: demo_adapters_def word_sle_eq)

text \<open>a line of /proc/bus/i2c (the bus, its type, name and algorithm separated by tabs, with any number of
  blanks after each field) is read back into exactly these fields.\<close>

lemma proc_entry_roundtrip:
  assumes "n < 2 ^ 31" and "CHR 0x09 \<notin> set (type @ name @ algo)"
    and "\<forall>t \<in> {type, name, algo}. t = [] \<or> \<not> blank (last t)"
  shows "proc_entry junk (''i2c-'' @ printf_u n @ CHR 0x09 # type @ replicate i CHR '' '' @
      CHR 0x09 # name @ replicate j CHR '' '' @ CHR 0x09 # algo @ replicate k CHR '' '' @ [CHR 0x0A]) =
    Some \<lparr>ad_nr = of_nat n, ad_name = Some name, ad_funcs = type, ad_algo = algo\<rparr>"
proof -
  let ?p = "\<lambda>i. replicate i CHR '' ''"
  let ?s3 = "''i2c-'' @ printf_u n"
  let ?s2 = "?s3 @ CHR 0x09 # (type @ ?p i)"
  let ?s1 = "?s2 @ CHR 0x09 # (name @ ?p j)"
  have tabs: "strrchr_tab (?s1 @ CHR 0x09 # (algo @ ?p k @ [CHR 0x0A])) = Some (?s1, algo @ ?p k @ [CHR 0x0A])"
    "strrchr_tab ?s1 = Some (?s2, name @ ?p j)" "strrchr_tab ?s2 = Some (?s3, type @ ?p i)"
    using assms(2) by (intro strrchr_tab_append; simp)+
  have trim: "rtrim (algo @ ?p k @ [CHR 0x0A]) = (length algo + 1, algo)" "rtrim (name @ ?p j) = (length name + 1, name)"
    "rtrim (type @ ?p i) = (length type + 1, type)"
    using assms(3) by (intro rtrim_field; simp)+
  have "clamp_long (int n) = int n" using assms(1) by (simp add: clamp_long_def)
  then have "snd (sscanf_i2c ?s3 junk) = of_nat n"
    using parse_number_printf_u [of "[]" False n] by (simp add: sscanf_i2c_def)
  with tabs trim have "proc_entry junk (?s1 @ CHR 0x09 # (algo @ ?p k @ [CHR 0x0A])) =
      Some \<lparr>ad_nr = of_nat n, ad_name = Some name, ad_funcs = type, ad_algo = algo\<rparr>"
    by (simp only: proc_entry_def option.case prod.case snd_conv)
  then show ?thesis by simp
qed

text \<open>for a bus number that is not negative, \<open>open_i2c_dev\<close> with the 20 bytes \<open>i2c_get_funcs\<close> gives it
  never writes outside the buffer: the result is that of opening one of the two names of the bus, and it prints
  nothing when it succeeds or is told to be quiet.\<close>

theorem open_i2c_dev_fits:
  assumes "\<not> bus <s 0"
  shows "\<exists>file filename report. open_i2c_dev os bus 20 quiet = Some (file, filename, report) \<and>
    filename \<in> {''/dev/i2c/'' @ printf_d bus, ''/dev/i2c-'' @ printf_d bus} \<and> file = fst (io_open os filename) \<and>
    (report = NoReport \<longleftrightarrow> quiet \<or> \<not> file <s 0)"
  using length_printf_d [OF assms]
  by (auto simp: open_i2c_dev_def Let_def split: prod.splits)

theorem open_i2c_dev_fits_witness:
  "\<exists>file filename report. open_i2c_dev demo_i2c_os 1 20 False = Some (file, filename, report) \<and>
    filename \<in> {''/dev/i2c/'' @ printf_d 1, ''/dev/i2c-'' @ printf_d 1} \<and> file = fst (io_open demo_i2c_os filename) \<and>
    (report = NoReport \<longleftrightarrow> False \<or> \<not> file <s 0)"
  by (rule open_i2c_dev_fits) (simp add: word_sless_alt)

end
