(* ===== verification/I2cGather.thy ===== *)
theory I2cGather
  imports I2cBusses
begin

text \<open>
  \<open>gather_i2c_busses\<close> and \<open>more_adapters\<close> of xilinx/visensor-srv/src/i2cbusses.c. The calls that allocate the
  table are commented out in the source, so its pointers are uninitialised. An uninitialised
  pointer is an argument: null, or the memory it happens to point at, as a list of entries (\<open>gather_env\<close>); whether the
  pointer \<open>all\<close> is null and whether \<open>strdup\<close> fails are arguments too, and the strings stored through them are
  taken to be in memory of their own. Nothing is assumed of the memory. Accesses outside a table and overruns of the path buffers are
  \<open>None\<close>; the null pointer as result is \<open>Some None\<close>. Files and directories are functions of their
  paths.
\<close>

subsection \<open>Files\<close>

record gather_env =
  ge_adapters :: "i2c_adap list option"
  ge_grown :: "i2c_adap list \<Rightarrow> nat \<Rightarrow> i2c_adap list option"
  ge_all_null :: "nat \<Rightarrow> bool"
  ge_strdup_fails :: "nat \<Rightarrow> bool"
  ge_junk :: "nat \<Rightarrow> u32"
  ge_file :: "string \<Rightarrow> string option"
  ge_dir :: "string \<Rightarrow> string list option"


text \<open>\<open>fgets\<close>: at most \<open>n - 1\<close> characters, up to and including a newline; the null pointer at the end.\<close>

fun first_line :: "nat \<Rightarrow> string \<Rightarrow> string" where
  "first_line 0 s = []"
| "first_line (Suc n) [] = []"
| "first_line (Suc n) (c # s) = (if c = CHR 0x0A then [c] else c # first_line n s)"

definition fgets :: "nat \<Rightarrow> string \<Rightarrow> (string \<times> string) option" where
  "fgets n s = (if s = [] then None else let l = first_line (n - 1) s in Some (l, drop (length l) s))"

function fgets_lines :: "nat \<Rightarrow> string \<Rightarrow> string list" where
  "fgets_lines n s = (if n < 2 then [] else case fgets n s of None \<Rightarrow> [] | Some (l, rest) \<Rightarrow> l # fgets_lines n rest)"
  by pat_completeness auto

lemma first_line_nonempty: "2 \<le> n \<Longrightarrow> s \<noteq> [] \<Longrightarrow> 0 < length (first_line (n - Suc 0) s)"
  by (cases "n - Suc 0"; cases s) auto

termination fgets_lines
proof (relation "measure (\<lambda>(n, s). length s)")
  fix n s x l rest
  assume n: "\<not> n < (2 :: nat)" and "fgets n s = Some x" and "(l, rest) = x"
  then have "s \<noteq> []" "rest = drop (length (first_line (n - Suc 0) s)) s"
    by (auto simp: fgets_def Let_def split: if_splits)
  with first_line_nonempty [of n s] n show "((n, rest), n, s) \<in> measure (\<lambda>(n, s). length s)" by simp
qed simp

declare fgets_lines.simps [simp del]

subsection \<open>The table\<close>





subsection \<open>/proc/bus/i2c\<close>


subsection \<open>sysfs\<close>










subsection \<open>gather_i2c_busses\<close>


subsection \<open>The busses as a list\<close>

text \<open>The reference: the entries that the files describe, in order, without a table.\<close>

fun proc_busses :: "gather_env \<Rightarrow> string list \<Rightarrow> nat \<Rightarrow> i2c_adap list option" where
  "proc_busses e [] count = Some []"
| "proc_busses e (s # ls) count =
     Option.bind (proc_entry (ge_junk e count) s) (\<lambda>a. map_option (Cons a) (proc_busses e ls (count + 1)))"











subsection \<open>A printed list of busses\<close>

text \<open>A line of /proc/bus/i2c as the kernel prints it: the fields with any number of blanks behind them.\<close>

fun proc_line :: "(nat \<times> nat \<times> nat) \<times> i2c_adap \<Rightarrow> string" where
  "proc_line ((i, j, k), a) = ''i2c-'' @ printf_u (unat (ad_nr a)) @
     CHR 0x09 # ad_funcs a @ replicate i CHR '' '' @ CHR 0x09 # the (ad_name a) @ replicate j CHR '' '' @
     CHR 0x09 # ad_algo a @ replicate k CHR '' '' @ [CHR 0x0A]"

definition printable :: "i2c_adap \<Rightarrow> bool" where
  "printable a \<longleftrightarrow> unat (ad_nr a) < 2 ^ 31 \<and> ad_name a \<noteq> None \<and>
     (\<forall>t \<in> {ad_funcs a, the (ad_name a), ad_algo a}.
        CHR 0x09 \<notin> set t \<and> CHR 0x0A \<notin> set t \<and> (t = [] \<or> \<not> blank (last t)))"

lemma proc_entry_line:
  assumes "printable a"
  shows "proc_entry junk (proc_line (p, a)) = Some a"
proof -
  obtain i j k where p: "p = (i, j, k)" by (cases p)
  obtain name where name: "ad_name a = Some name" using assms by (auto simp: printable_def)
  have "of_nat (unat (ad_nr a)) = ad_nr a" by simp
  with assms name show ?thesis
    unfolding p proc_line.simps by (subst proc_entry_roundtrip) (auto simp: printable_def)
qed

lemma first_line_append:
  "CHR 0x0A \<notin> set l \<Longrightarrow> length l < n \<Longrightarrow> first_line n (l @ CHR 0x0A # rest) = l @ [CHR 0x0A]"
proof (induction l arbitrary: n)
  case Nil
  then show ?case by (cases n) auto
next
  case (Cons c l)
  then show ?case by (cases n) auto
qed

lemma printf_u_no_newline: "CHR 0x0A \<notin> set (printf_u n)"
  using printf_u_decimal [of n] by (auto simp: digit_char_iff dest!: sym [of "CHR 0x0A"])

lemma proc_line_newline:
  assumes "printable a"
  obtains l where "proc_line (p, a) = l @ [CHR 0x0A]" "CHR 0x0A \<notin> set l"
proof -
  obtain i j k where p: "p = (i, j, k)" by (cases p)
  show ?thesis
    using assms printf_u_no_newline [of "unat (ad_nr a)"]
    by (intro that [of "butlast (proc_line (p, a))"]) (auto simp: p printable_def butlast_append)
qed

lemma fgets_lines_proc:
  assumes "\<forall>b \<in> set bs. printable (snd b) \<and> length (proc_line b) < n" and "2 \<le> n"
  shows "fgets_lines n (concat (map proc_line bs)) = map proc_line bs"
  using assms
proof (induction bs)
  case Nil
  then show ?case by (simp add: fgets_lines.simps fgets_def)
next
  case (Cons b bs)
  obtain p a where b: "b = (p, a)" by (cases b)
  with Cons.prems obtain l where l: "proc_line b = l @ [CHR 0x0A]" "CHR 0x0A \<notin> set l"
    using proc_line_newline [of a p] by auto
  with Cons.prems have "fgets n (concat (map proc_line (b # bs))) = Some (proc_line b, concat (map proc_line bs))"
    using first_line_append [of l "n - 1" "concat (map proc_line bs)"] by (auto simp: fgets_def Let_def)
  with Cons show ?case by (subst fgets_lines.simps) simp
qed

lemma proc_busses_lines:
  "\<forall>b \<in> set bs. printable (snd b) \<Longrightarrow> proc_busses e (map proc_line bs) i = Some (map snd bs)"
  by (induction bs arbitrary: i) (auto simp: proc_entry_line simp del: proc_line.simps)


subsection \<open>Properties\<close>

definition demo_busses :: "((nat \<times> nat \<times> nat) \<times> i2c_adap) list" where
  "demo_busses = map (Pair (2, 0, 1)) (take 2 demo_adapters)"


lemma demo_busses_ok:
  "\<forall>b \<in> set demo_busses. printable (snd b) \<and> length (proc_line b) < 120"
proof -
  have "\<forall>b \<in> set demo_busses. length (proc_line b) < 120" by code_simp
  moreover have "\<forall>b \<in> set demo_busses. printable (snd b)"
    by (simp add: printable_def demo_busses_def demo_adapters_def)
  ultimately show ?thesis by blast
qed

text \<open>C32: the listing of /proc/bus/i2c is parsed back. A file with any number of busses, in lines of less than 120 characters
  with any padding behind the fields, is cut into exactly its lines, and of each line the parser makes the bus it
  describes: number, name, functionality and algorithm, whatever its uninitialised variables hold.\<close>

theorem proc_listing_roundtrip:
  assumes "\<forall>b \<in> set bs. printable (snd b) \<and> length (proc_line b) < 120"
  shows "fgets_lines 120 (concat (map proc_line bs)) = map proc_line bs \<and>
    map (proc_entry junk) (fgets_lines 120 (concat (map proc_line bs))) = map (Some \<circ> snd) bs"
proof -
  have "proc_entry junk (proc_line b) = Some (snd b)" if "b \<in> set bs" for b
    using assms that proc_entry_line [of "snd b" junk "fst b"] by simp
  then show ?thesis using fgets_lines_proc [OF assms] by simp
qed

theorem proc_listing_roundtrip_witness:
  "map (proc_entry 77) (fgets_lines 120 (concat (map proc_line demo_busses))) = map (Some \<circ> snd) demo_busses"
  using proc_listing_roundtrip [OF demo_busses_ok, of 77] by (rule conjunct2)



end
