(* ===== verification/NtpDriver.thy ===== *)
theory NtpDriver
  imports Prelude
begin

text \<open>
  The demonstration driver for an FPGA with registers and two log buffers,
  memory_allocator/demo_driver.c. The register peripheral is a function from offsets to bytes; the
  kernel's answers are the parameter \<open>ntp_kernel\<close>, its calls are logged as events. File positions and
  counts are natural numbers; the one place where the source subtracts below zero and converts to
  \<open>size_t\<close> is written with the wrap-around.
\<close>

subsection \<open>State and kernel\<close>

record ntp_kernel =
  nk_register_chrdev :: u32
  nk_check_mem_region :: u32
  nk_request_irq :: u32
  nk_create_workqueue :: bool
  nk_kmalloc_work :: bool
  nk_kmalloc1 :: u32
  nk_kmalloc2 :: u32

datatype ntp_event =
    NtpUnregister | NtpRequestMem | NtpReleaseMem | NtpRequestIrq | NtpEnableIrq | NtpFreeIrq
  | NtpFlushWorkqueue bool | NtpDestroyWorkqueue bool | NtpQueueWork bool bool

record ntp =
  nt_current_buffer :: nat
  nt_log_data :: "byte list"
  nt_log_data2 :: "byte list"
  nt_regs :: "nat \<Rightarrow> byte"
  nt_port :: u32
  nt_wq :: bool
  nt_work :: bool
  nt_events :: "ntp_event list"

definition ntp_no_of_bytes :: nat where "ntp_no_of_bytes = 128"
definition ntp_log_data_size :: nat where "ntp_log_data_size = 262144"

subsection \<open>File operations\<close>

definition ntp_fpga_open :: u32 where "ntp_fpga_open = 0"
definition ntp_fpga_release :: u32 where "ntp_fpga_release = 0"

text \<open>The result of a read: the count returned, the bytes copied to the user and the new position. The log is
  copied from its start, whatever the position.\<close>

definition ntp_fpga_read :: "nat \<Rightarrow> nat \<Rightarrow> ntp \<Rightarrow> nat \<times> byte list \<times> nat" where
  "ntp_fpga_read count f_pos s =
     (if f_pos > ntp_no_of_bytes then
        let max_no_bytes = ntp_log_data_size in
        if f_pos \<ge> max_no_bytes then (0, [], f_pos)
        else
          let n1 = (if count < max_no_bytes then count else max_no_bytes);
              n = (if n1 > max_no_bytes - f_pos then max_no_bytes - f_pos else n1);
              log = (if nt_current_buffer s = 1 then nt_log_data s else nt_log_data2 s)
          in (n, take n log, f_pos + n)
      else if f_pos \<ge> ntp_no_of_bytes then (0, [], f_pos)
      else
        let n1 = (if count < ntp_no_of_bytes - f_pos then count else ntp_no_of_bytes);
            n = (if n1 > ntp_no_of_bytes - f_pos then ntp_no_of_bytes - f_pos else n1)
        in (n, map (\<lambda>i. nt_regs s (f_pos + i)) [0..<n], f_pos + n))"

text \<open>\<open>memcpy_toio\<close> of a list of bytes to an offset of the registers.\<close>

definition ntp_to_io :: "nat \<Rightarrow> byte list \<Rightarrow> ntp \<Rightarrow> ntp" where
  "ntp_to_io offset bs s =
     s\<lparr>nt_regs := (\<lambda>a. if offset \<le> a \<and> a < offset + length bs then bs ! (a - offset) else nt_regs s a)\<rparr>"

text \<open>
  The write. \<open>no_of_bytes - *f_pos\<close> is a signed 64-bit value; assigned to the \<open>size_t\<close> it wraps around.
  A count above the 128 bytes of the local array overruns it: \<open>None\<close>. The file position is not
  advanced.
\<close>

definition ntp_fpga_write :: "byte list \<Rightarrow> nat \<Rightarrow> nat \<Rightarrow> ntp \<Rightarrow> (u32 \<times> ntp) option" where
  "ntp_fpga_write buf count f_pos s =
     (let n1 = (if count \<le> ntp_no_of_bytes then count else ntp_no_of_bytes);
          n = (if int n1 > int ntp_no_of_bytes - int f_pos
               then word_of_int (int ntp_no_of_bytes - int f_pos) else of_nat n1 :: u32)
      in if unat n > ntp_no_of_bytes then None
         else Some (n, ntp_to_io f_pos (take (unat n) buf) s))"

subsection \<open>The log buffers\<close>

definition my_wq_function :: "ntp \<Rightarrow> ntp" where
  "my_wq_function s = s\<lparr>nt_current_buffer := (nt_current_buffer s + 1) mod 2\<rparr>"

subsection \<open>Loading and unloading\<close>

definition setup_buffer :: "ntp_kernel \<Rightarrow> ntp \<Rightarrow> ntp" where
  "setup_buffer k s = ntp_to_io 4 (le32 (nk_kmalloc2 k)) (ntp_to_io 0 (le32 (nk_kmalloc1 k)) s)"

definition ntp_settings :: "byte list" where
  "ntp_settings = map of_char (''ipv4'' @ ''|ipv6__________|'' @ ''po'' @ ''|mac_|'' @ ''|_time_|'' @ ''|_adde_|'')"

definition setup_ntp :: "ntp \<Rightarrow> ntp" where
  "setup_ntp s = ntp_to_io 0 ntp_settings s"

definition ntp_emit :: "ntp_event list \<Rightarrow> ntp \<Rightarrow> ntp" where
  "ntp_emit es s = s\<lparr>nt_events := nt_events s @ es\<rparr>"

text \<open>The flags of the work-queue events tell whether the queue and the work exist: on a null pointer the
  kernel crashes.\<close>

definition buffer_full_handler :: "ntp \<Rightarrow> ntp" where
  "buffer_full_handler s = ntp_emit [NtpQueueWork (nt_wq s) (nt_work s)] s"

definition ntp_fpga_exit :: "ntp \<Rightarrow> ntp" where
  "ntp_fpga_exit s =
     ntp_emit ([NtpUnregister] @ (if nt_port s = 0 then [NtpReleaseMem] else []) @
               [NtpFreeIrq, NtpFlushWorkqueue (nt_wq s), NtpDestroyWorkqueue (nt_wq s)]) s"

definition ntp_fpga_init :: "ntp_kernel \<Rightarrow> ntp \<Rightarrow> u32 \<times> ntp" where
  "ntp_fpga_init k s =
     (let result = nk_register_chrdev k in
      if result <s 0 then (result, s)
      else
        let port = nk_check_mem_region k; s1 = s\<lparr>nt_port := port\<rparr> in
        if port \<noteq> 0 then (port, ntp_fpga_exit s1)
        else
          let s2 = setup_ntp (setup_buffer k (ntp_emit [NtpRequestMem] s1));
              status = nk_request_irq k;
              s3 = ntp_emit [NtpRequestIrq, NtpEnableIrq] s2
          in if status \<noteq> 0 then (result, ntp_fpga_exit s3)
             else (0, s3\<lparr>nt_wq := nk_create_workqueue k, nt_work := (if nk_create_workqueue k then nk_kmalloc_work k else nt_work s)\<rparr>))"

subsection \<open>Reading a file in pieces\<close>

text \<open>A process that reads on from where it is, with the given counts.\<close>

fun ntp_read_on :: "nat list \<Rightarrow> nat \<Rightarrow> ntp \<Rightarrow> byte list \<times> nat" where
  "ntp_read_on [] f_pos s = ([], f_pos)"
| "ntp_read_on (c # cs) f_pos s =
     (case ntp_fpga_read c f_pos s of (n, bs, pos1) \<Rightarrow>
        case ntp_read_on cs pos1 s of (rest, pos2) \<Rightarrow> (bs @ rest, pos2))"

definition demo_ntp :: ntp where
  "demo_ntp = \<lparr>nt_current_buffer = 0, nt_log_data = replicate 262144 1, nt_log_data2 = replicate 262144 2,
     nt_regs = (\<lambda>a. of_nat a), nt_port = 0, nt_wq = False, nt_work = False, nt_events = []\<rparr>"

definition demo_ntp_kernel :: ntp_kernel where
  "demo_ntp_kernel = \<lparr>nk_register_chrdev = 0, nk_check_mem_region = 0, nk_request_irq = - 16,
     nk_create_workqueue = True, nk_kmalloc_work = True, nk_kmalloc1 = 0xC1000000, nk_kmalloc2 = 0xC1040000\<rparr>"

subsection \<open>Lemmas\<close>

lemma ntp_read_registers:
  "f_pos \<le> 128 \<Longrightarrow> ntp_fpga_read count f_pos s =
     (min count (128 - f_pos), map (\<lambda>i. nt_regs s (f_pos + i)) [0..<min count (128 - f_pos)],
      f_pos + min count (128 - f_pos))"
  by (cases "f_pos = 0") (auto simp: ntp_fpga_read_def ntp_no_of_bytes_def Let_def min_def)

lemma ntp_read_on_registers:
  "f_pos \<le> 128 \<Longrightarrow> ntp_read_on cs f_pos s =
     (map (nt_regs s) [f_pos..<min 128 (f_pos + sum_list cs)], min 128 (f_pos + sum_list cs))"
proof (induction cs arbitrary: f_pos)
  case Nil
  then show ?case by simp
next
  case (Cons c cs)
  let ?n = "min c (128 - f_pos)"
  have first: "map (\<lambda>i. nt_regs s (f_pos + i)) [0..<?n] = map (nt_regs s) [f_pos..<f_pos + ?n]"
    by (rule nth_equalityI) auto
  have split: "[f_pos..<min 128 (f_pos + (c + sum_list cs))] =
      [f_pos..<f_pos + ?n] @ [f_pos + ?n..<min 128 (f_pos + ?n + sum_list cs)]"
  proof -
    have "min 128 (f_pos + (c + sum_list cs)) = f_pos + ?n + (min 128 (f_pos + ?n + sum_list cs) - (f_pos + ?n))"
      using Cons.prems by (cases "c \<le> 128 - f_pos") auto
    then show ?thesis
      using upt_add_eq_append [of f_pos "f_pos + ?n" "min 128 (f_pos + ?n + sum_list cs) - (f_pos + ?n)"] Cons.prems
      by (auto simp: min_def split: if_splits)
  qed
  have "min 128 (f_pos + ?n + sum_list cs) = min 128 (f_pos + (c + sum_list cs))"
    using Cons.prems by (cases "c \<le> 128 - f_pos") auto
  with Cons.prems show ?case
    by (simp add: ntp_read_registers Cons.IH first split)
qed

lemma ntp_write_inside:
  assumes "f_pos \<le> 128" and "n = min (min count 128) (128 - f_pos)"
  shows "ntp_fpga_write buf count f_pos s = Some (of_nat n, ntp_to_io f_pos (take n buf) s)"
proof -
  define c where "c = (if count \<le> 128 then count else 128)"
  have c: "min count 128 = c" by (simp add: c_def)
  have "n \<le> 128" using assms(2) by simp
  then have un: "unat (of_nat n :: u32) = n" by (simp add: unat_of_nat)
  have "int 128 - int f_pos = int (128 - f_pos)" using assms(1) by simp
  then have "(if int c > int 128 - int f_pos then word_of_int (int 128 - int f_pos) else of_nat c :: u32) =
      (if c > 128 - f_pos then of_nat (128 - f_pos) else of_nat c)" by (simp only: of_int_of_nat_eq of_nat_less_iff)
  also have "\<dots> = of_nat n" using assms(2) unfolding c by (simp add: min_def)
  finally show ?thesis
    using \<open>n \<le> 128\<close> un by (simp only: ntp_fpga_write_def ntp_no_of_bytes_def Let_def c_def [symmetric]) simp
qed

lemma ntp_write_outside:
  assumes "128 < f_pos" and "f_pos < 2 ^ 32"
  shows "ntp_fpga_write buf count f_pos s = None"
proof -
  have "unat (128 - of_nat f_pos :: u32) = 2 ^ 32 + 128 - f_pos"
    using assms by (simp add: unat_sub_if' unat_of_nat)
  then show ?thesis
    using assms by (simp add: ntp_fpga_write_def ntp_no_of_bytes_def Let_def)
qed

subsection \<open>Properties\<close>

text \<open>reading the device from the start in pieces of any size gives the 128 register bytes in order and
  then, at position 128, the end of the file for ever: the log buffers are never reached by reading
  on, only by a process that seeks past position 128.\<close>

theorem ntp_sequential_read:
  "ntp_read_on cs 0 s = (map (nt_regs s) [0..<min 128 (sum_list cs)], min 128 (sum_list cs)) \<and>
   ntp_fpga_read count 128 s = (0, [], 128)"
  by (simp add: ntp_read_on_registers ntp_read_registers)

text \<open>every read is within bounds: it copies as many bytes as it returns, at most the count asked for, and
  never moves the position past the end of the registers or of the log buffer. A read of the log starts
  at the beginning of the buffer whatever the position.\<close>

theorem ntp_read_bounds:
  assumes "length (nt_log_data s) = 262144" and "length (nt_log_data2 s) = 262144"
    and "ntp_fpga_read count f_pos s = (n, bs, pos)"
  shows "length bs = n \<and> n \<le> count \<and> pos = f_pos + n \<and> (f_pos \<le> 128 \<longrightarrow> pos \<le> 128) \<and>
    (128 < f_pos \<and> f_pos < 262144 \<longrightarrow> pos \<le> 262144 \<and>
       bs = take n (if nt_current_buffer s = 1 then nt_log_data s else nt_log_data2 s))"
proof (cases "f_pos \<le> 128")
  case True
  with assms(3) show ?thesis by (auto simp: ntp_read_registers)
next
  case False
  with assms show ?thesis
    by (auto simp: ntp_fpga_read_def ntp_no_of_bytes_def ntp_log_data_size_def Let_def split: if_splits)
qed

theorem ntp_read_bounds_witness:
  "length (fst (snd (ntp_fpga_read 16 262140 demo_ntp))) = 4"
proof -
  have "ntp_fpga_read 16 262140 demo_ntp = (4, take 4 (nt_log_data2 demo_ntp), 262144)"
    by (simp add: ntp_fpga_read_def ntp_no_of_bytes_def ntp_log_data_size_def demo_ntp_def)
  from ntp_read_bounds [OF _ _ this] show ?thesis
    by (simp add: demo_ntp_def ntp_fpga_read_def ntp_no_of_bytes_def ntp_log_data_size_def)
qed

text \<open>C35: a write at a position inside the registers stores exactly the bytes that fit and returns their
  number, and a read from the same position gives them back; a write at any position past the registers
  overruns the local array of 128 bytes.\<close>

theorem ntp_write_read:
  assumes "f_pos < 2 ^ 32" and "count \<le> length buf"
  shows "case ntp_fpga_write buf count f_pos s of
      None \<Rightarrow> 128 < f_pos
    | Some (n, s1) \<Rightarrow> f_pos \<le> 128 \<and> unat n = min (min count 128) (128 - f_pos) \<and>
        ntp_fpga_read (unat n) f_pos s1 = (unat n, take (unat n) buf, f_pos + unat n) \<and>
        (\<forall>a. a < f_pos \<or> f_pos + unat n \<le> a \<longrightarrow> nt_regs s1 a = nt_regs s a)"
proof (cases "f_pos \<le> 128")
  case False
  then show ?thesis using ntp_write_outside [of f_pos buf count s] assms(1) by simp
next
  case True
  define n where "n = min (min count 128) (128 - f_pos)"
  have n: "n \<le> 128" "n \<le> length buf" "n \<le> 128 - f_pos" using assms(2) by (auto simp: n_def)
  then have un: "unat (of_nat n :: u32) = n" by (simp add: unat_of_nat)
  have "map (\<lambda>i. nt_regs (ntp_to_io f_pos (take n buf) s) (f_pos + i)) [0..<n] = take n buf"
    using n by (intro nth_equalityI) (auto simp: ntp_to_io_def)
  then show ?thesis
    using True n un ntp_write_inside [OF True n_def, of buf s]
    by (simp add: ntp_read_registers n_def [symmetric]) (simp add: ntp_to_io_def)
qed

theorem ntp_write_read_witness:
  "ntp_fpga_write [7, 8, 9] 3 200 demo_ntp = None"
proof -
  have "\<exists>x. ntp_fpga_write [7, 8, 9] 3 200 demo_ntp = x" by simp
  then show ?thesis using ntp_write_read [of 200 3 "[7, 8, 9]" demo_ntp]
    by (auto split: option.splits)
qed

text \<open>loading the module stores the addresses of the log buffers in the first eight register bytes and then
  overwrites them with the settings record, so that the FPGA never sees them.\<close>

theorem ntp_init_overwrites_buffer_addresses:
  assumes "ntp_fpga_init k s = (0, s1)" and "nk_check_mem_region k = 0" and "\<not> nk_register_chrdev k <s 0"
  shows "map (nt_regs s1) [0..<44] = ntp_settings"
proof -
  have len: "length ntp_settings = 44" by (simp add: ntp_settings_def)
  have "nt_regs s1 a = nt_regs (setup_ntp (setup_buffer k (ntp_emit [NtpRequestMem] (s\<lparr>nt_port := 0\<rparr>)))) a" for a
    using assms by (auto simp: ntp_fpga_init_def Let_def ntp_fpga_exit_def ntp_emit_def split: if_splits)
  then show ?thesis
    using len by (intro nth_equalityI) (simp_all add: setup_ntp_def ntp_to_io_def del: upt_rec_numeral)
qed

theorem ntp_init_overwrites_buffer_addresses_witness:
  "map (nt_regs (snd (ntp_fpga_init (demo_ntp_kernel\<lparr>nk_request_irq := 0\<rparr>) demo_ntp))) [0..<44] = ntp_settings"
proof -
  let ?k = "demo_ntp_kernel\<lparr>nk_request_irq := 0\<rparr>"
  obtain ret s1 where init: "ntp_fpga_init ?k demo_ntp = (ret, s1)" by fastforce
  then have "ret = 0" by (auto simp: ntp_fpga_init_def Let_def demo_ntp_kernel_def)
  with ntp_init_overwrites_buffer_addresses [of ?k demo_ntp s1] init show ?thesis
    by (simp add: demo_ntp_kernel_def del: upt_rec_numeral)
qed

text \<open>when the interrupt cannot be requested, the module cleans up as if it had been loaded (it frees an
  interrupt it does not have and flushes a work queue that does not exist) and returns the result of the
  device registration, which is not an error.\<close>

theorem ntp_init_irq_failure:
  assumes "\<not> nk_register_chrdev k <s 0" and "nk_check_mem_region k = 0" and "nk_request_irq k \<noteq> 0"
    and "nt_wq s = False"
  shows "\<not> fst (ntp_fpga_init k s) <s 0 \<and>
    {NtpUnregister, NtpFreeIrq, NtpFlushWorkqueue False} \<subseteq> set (nt_events (snd (ntp_fpga_init k s)))"
  using assms
  by (simp add: ntp_fpga_init_def Let_def ntp_fpga_exit_def ntp_emit_def setup_ntp_def setup_buffer_def ntp_to_io_def)

theorem ntp_init_irq_failure_witness:
  "NtpFlushWorkqueue False \<in> set (nt_events (snd (ntp_fpga_init demo_ntp_kernel demo_ntp)))"
  using ntp_init_irq_failure [of demo_ntp_kernel demo_ntp]
  by (simp add: demo_ntp_kernel_def demo_ntp_def)

text \<open>The work function alternates between the two log buffers.\<close>

lemma my_wq_alternates: "nt_current_buffer s < 2 \<Longrightarrow> my_wq_function (my_wq_function s) = s"
  by (cases s) (auto simp: my_wq_function_def less_2_cases_iff)

end
