(* ===== verification/TestPrograms.thy ===== *)
theory TestPrograms
  imports SharedMem Transitions
begin

text \<open>
  The network test programs. Senders of numbered packages: UDPtest/server.cpp, xilinx/UDPserver/udp_server.c
  and TCPtest/server_socket.cpp. Receivers that count packages per message and report the loss every
  second: UDPtest/client.cpp and TCPtest/client_socket.cpp. The image writer \<open>tcp_writer\<close> of
  TCPtest/server.cpp and xilinx/test2/src/main.cc. Programs that differ in constants only share a
  function with the constants as arguments. The clock (whether a second has passed) and what the sockets
  return are arguments.
\<close>

subsection \<open>Senders of numbered packages\<close>

text \<open>The package counter is the word at the start of the data, the message counter the word at byte 16
  (\<open>(unsigned int *) data + 4\<close>).\<close>

definition inc32 :: "u32 \<Rightarrow> mem \<Rightarrow> mem" where
  "inc32 a m = store32 m a (load32 m a + 1)"

definition test_server_init :: "u32 \<Rightarrow> mem \<Rightarrow> mem" where
  "test_server_init data m = store32 (store32 m data 0) (data + 16) 0"

primrec test_packages :: "nat \<Rightarrow> u32 \<Rightarrow> nat \<Rightarrow> mem \<Rightarrow> byte list list \<times> mem" where
  "test_packages sz data 0 m = ([], m)"
| "test_packages sz data (Suc n) m =
     (let m1 = inc32 data m in
      case test_packages sz data n m1 of (ps, m2) \<Rightarrow> (load_bytes m1 data sz # ps, m2))"

text \<open>One pass of the endless loop: the message counter, then the packages of one image.\<close>

definition udp_test_server_round :: "u32 \<Rightarrow> mem \<Rightarrow> byte list list \<times> mem" where
  "udp_test_server_round data m = test_packages 512 data (360960 div 512) (inc32 (data + 16) m)"

definition xilinx_udp_server_round :: "u32 \<Rightarrow> mem \<Rightarrow> byte list list \<times> mem" where
  "xilinx_udp_server_round data m =
     (case test_packages 8000 data (360960 div 8000) (inc32 (data + 16) m) of (ps, m1) \<Rightarrow>
        case test_packages 8000 data (360960 div 8000) m1 of (qs, m2) \<Rightarrow> (ps @ qs, m2))"

text \<open>Over TCP a failed send ends the program; \<open>sent k\<close> is the result of the \<open>k\<close>-th send. A send that takes less than
  the package is not continued: the bytes it took are what goes out of this package.\<close>

primrec tcp_test_packages ::
  "(nat \<Rightarrow> u32) \<Rightarrow> u32 \<Rightarrow> nat \<Rightarrow> byte list list \<Rightarrow> mem \<Rightarrow> (byte list list \<times> mem) outcome" where
  "tcp_test_packages sent data 0 out m = Ret (out, m)"
| "tcp_test_packages sent data (Suc n) out m =
     (let m1 = inc32 data m in
      if sent (length out) <s 0 then Exit 1
      else tcp_test_packages sent data n (out @ [take (unat (sent (length out))) (load_bytes m1 data 512)]) m1)"

definition tcp_test_server_round ::
  "(nat \<Rightarrow> u32) \<Rightarrow> u32 \<Rightarrow> mem \<Rightarrow> (byte list list \<times> mem) outcome" where
  "tcp_test_server_round sent data m = tcp_test_packages sent data (360960 div 512) [] (inc32 (data + 16) m)"

text \<open>The packages of the first \<open>r\<close> passes.\<close>

primrec udp_test_server_run :: "nat \<Rightarrow> u32 \<Rightarrow> mem \<Rightarrow> byte list list" where
  "udp_test_server_run 0 data m = []"
| "udp_test_server_run (Suc r) data m =
     (case udp_test_server_round data m of (ps, m1) \<Rightarrow> ps @ udp_test_server_run r data m1)"

subsection \<open>Receivers\<close>

record test_client =
  tc_mesg :: "byte list"
  tc_package_counter :: "u32 list"
  tc_start_package_id :: u32

text \<open>
  The sum over the messages \<open>message_id - 30\<close> to \<open>message_id - 3\<close>. \<open>j\<close> is an \<open>int\<close> that is compared as
  an unsigned number; \<open>j % 32\<close> of a negative \<open>j\<close> is negative or 0, and a negative index lies outside
  the array: \<open>None\<close>.
\<close>

function loss_loop :: "u32 \<Rightarrow> u32 list \<Rightarrow> u32 \<Rightarrow> u32 \<Rightarrow> u32 \<Rightarrow> u32 option" where
  "loss_loop per_image counters limit j lost =
     (if j < limit then
        if j <s 0 \<and> sint j mod 32 \<noteq> 0 then None
        else loss_loop per_image counters limit (j + 1) (lost + (per_image - counters ! nat (sint j mod 32)))
      else Some lost)"
  by pat_completeness auto
termination
  by (relation "measure (\<lambda>(per_image, counters, limit, j, lost). unat (limit - j))") (auto intro: word_diff_step)

declare loss_loop.simps [simp del]

definition buf_word :: "byte list \<Rightarrow> nat \<Rightarrow> u32" where
  "buf_word b i = cat32 (b ! i) (b ! (i + 1)) (b ! (i + 2)) (b ! (i + 3))"

text \<open>
  One package of \<open>n\<close> bytes received into the buffer of \<open>sz\<close> bytes. \<open>mesg[n] = 0\<close> is outside the
  buffer when the package fills it: \<open>None\<close>. The report is what is printed when more than a second has
  passed: packages per second and packages lost.
\<close>

definition test_client_receive ::
  "nat \<Rightarrow> bool \<Rightarrow> byte list \<Rightarrow> test_client \<Rightarrow> (test_client \<times> (u32 \<times> u32) option) option" where
  "test_client_receive sz elapsed package c =
     (let received = take sz package; n = length received in
      if sz \<le> n then None
      else
        let mesg = (received @ drop n (tc_mesg c))[n := 0];
            package_id = buf_word mesg 0;
            message_id = buf_word mesg 16;
            i = unat message_id mod 32;
            counters = (tc_package_counter c)[i := tc_package_counter c ! i + 1]
        in if \<not> elapsed then Some (c\<lparr>tc_mesg := mesg, tc_package_counter := counters\<rparr>, None)
           else map_option
                  (\<lambda>lost. (c\<lparr>tc_mesg := mesg, tc_package_counter := replicate 32 0, tc_start_package_id := package_id\<rparr>,
                          Some (package_id - tc_start_package_id c, lost)))
                  (loss_loop (of_nat (360960 div sz)) counters (message_id - 2) (message_id - 30) 0))"

text \<open>A failed \<open>recv\<close> (\<open>None\<close>) is not checked: \<open>mesg[-1] = 0\<close> is outside the buffer.\<close>

definition udp_test_client_receive ::
  "bool \<Rightarrow> byte list option \<Rightarrow> test_client \<Rightarrow> (test_client \<times> (u32 \<times> u32) option) option" where
  "udp_test_client_receive elapsed package c =
     (case package of None \<Rightarrow> None | Some p \<Rightarrow> test_client_receive 8000 elapsed p c)"

text \<open>Over TCP a failed read ends the program.\<close>

definition tcp_test_client_receive ::
  "bool \<Rightarrow> byte list option \<Rightarrow> test_client \<Rightarrow> (test_client \<times> (u32 \<times> u32) option) outcome option" where
  "tcp_test_client_receive elapsed package c =
     (case package of None \<Rightarrow> Some (Exit 0)
      | Some p \<Rightarrow> map_option Ret (test_client_receive 360960 elapsed p c))"

subsection \<open>The image writer\<close>

record tcp_writer =
  tw_data :: "byte list"
  tw_socket_open :: bool
  tw_accept_pending :: bool
  tw_write_pending :: bool
  tw_wire :: "byte list"

definition tcp_writer_accept_connection :: "tcp_writer \<Rightarrow> tcp_writer" where
  "tcp_writer_accept_connection w = w\<lparr>tw_socket_open := False, tw_accept_pending := True\<rparr>"

definition tcp_writer_new :: "byte list \<Rightarrow> tcp_writer" where
  "tcp_writer_new data = tcp_writer_accept_connection
     \<lparr>tw_data = data, tw_socket_open = False, tw_accept_pending = False, tw_write_pending = False, tw_wire = []\<rparr>"

definition tcp_writer_write :: "tcp_writer \<Rightarrow> tcp_writer" where
  "tcp_writer_write w = w\<lparr>tw_write_pending := True\<rparr>"

definition tcp_writer_handle_accept :: "bool \<Rightarrow> tcp_writer \<Rightarrow> tcp_writer" where
  "tcp_writer_handle_accept error w =
     (let w1 = w\<lparr>tw_accept_pending := False\<rparr> in
      if error then w1 else tcp_writer_write (w1\<lparr>tw_socket_open := True, tw_wire := []\<rparr>))"

text \<open>The completion of \<open>async_write\<close>: the first \<open>n\<close> bytes of the image were transferred, all of them
  when there is no error.\<close>

definition tcp_writer_handle_writer :: "bool \<Rightarrow> nat \<Rightarrow> tcp_writer \<Rightarrow> tcp_writer" where
  "tcp_writer_handle_writer error n w =
     (let w1 = w\<lparr>tw_write_pending := False,
                  tw_wire := tw_wire w @ (if error then take n (tw_data w) else tw_data w)\<rparr>
      in if error then tcp_writer_accept_connection w1 else tcp_writer_write w1)"

inductive tcp_writer_step :: "tcp_writer \<Rightarrow> tcp_writer \<Rightarrow> bool" where
  accept_completes: "tw_accept_pending w \<Longrightarrow> tcp_writer_step w (tcp_writer_handle_accept error w)"
| write_completes: "tw_write_pending w \<Longrightarrow> tcp_writer_step w (tcp_writer_handle_writer error n w)"

abbreviation tcp_writer_reach :: "byte list \<Rightarrow> tcp_writer \<Rightarrow> bool" where
  "tcp_writer_reach data \<equiv> reachable (\<lambda>w. w = tcp_writer_new data) tcp_writer_step"

text \<open>The data of the program: the zeroed array, the counter and the numbers of the fill loop.\<close>

definition test_image :: "u32 \<Rightarrow> mem \<Rightarrow> mem" where
  "test_image data m =
     fill_numbers data 360960 (store32 (store_bytes m data (replicate 360960 0)) data 0)"

subsection \<open>Instances for examples\<close>

definition demo_test_client :: test_client where
  "demo_test_client = \<lparr>tc_mesg = replicate 8000 0, tc_package_counter = replicate 32 705, tc_start_package_id = 0\<rparr>"

subsection \<open>Package numbers\<close>

lemma store32_twice: "store32 (store32 m a v) a w = store32 m a w"
  by (simp add: store32_def fun_eq_iff)

lemma test_packages_eq:
  "test_packages sz data n m =
     (map (\<lambda>i. load_bytes (store32 m data (load32 m data + of_nat (Suc i))) data sz) [0..<n],
      if n = 0 then m else store32 m data (load32 m data + of_nat n))"
proof (induction n arbitrary: m)
  case (Suc n)
  have "[0..<Suc n] = 0 # map Suc [0..<n]" by (metis map_Suc_upt upt_conv_Cons zero_less_Suc)
  then show ?case
    by (simp add: Suc.IH inc32_def Let_def store32_twice comp_def algebra_simps del: upt_Suc)
qed simp

lemma buf_word_load_bytes: "i + 4 \<le> n \<Longrightarrow> buf_word (load_bytes m a n) i = load32 m (a + of_nat i)"
  by (simp add: buf_word_def load32_def algebra_simps)

lemma apart4_16: "apart4 a (a + 16)" "apart4 (a + 16) a"
  by (simp_all add: apart4_def)

lemmas load32_counters = load32_store32_other [OF apart4_16(1)] load32_store32_other [OF apart4_16(2)]

lemma udp_test_server_round_eq:
  assumes "udp_test_server_round data m = (ps, m1)"
  shows "length ps = 705" and "load32 m1 data = load32 m data + 705" and "load32 m1 (data + 16) = load32 m (data + 16) + 1"
    and "\<And>i. i < 705 \<Longrightarrow> buf_word (ps ! i) 0 = load32 m data + of_nat (Suc i) \<and>
           buf_word (ps ! i) 16 = load32 m (data + 16) + 1"
proof -
  let ?m = "store32 m (data + 16) (load32 m (data + 16) + 1)"
  have ps: "ps = map (\<lambda>i. load_bytes (store32 ?m data (load32 m data + of_nat (Suc i))) data 512) [0..<705]"
    and m1: "m1 = store32 ?m data (load32 m data + 705)"
    using assms
    by (simp_all add: udp_test_server_round_def test_packages_eq inc32_def load32_counters
        del: upt_rec_numeral)
  show "length ps = 705" by (simp add: ps)
  show "load32 m1 data = load32 m data + 705" "load32 m1 (data + 16) = load32 m (data + 16) + 1"
    by (simp_all add: m1 load32_counters)
  fix i :: nat assume i: "i < 705"
  then have "ps ! i = load_bytes (store32 ?m data (load32 m data + of_nat (Suc i))) data 512"
    unfolding ps by (simp del: upt_rec_numeral of_nat_Suc)
  then show "buf_word (ps ! i) 0 = load32 m data + of_nat (Suc i) \<and> buf_word (ps ! i) 16 = load32 m (data + 16) + 1"
    by (simp add: buf_word_load_bytes load32_counters)
qed

lemma udp_test_server_run_ids:
  "length (udp_test_server_run r data m) = 705 * r \<and>
   (\<forall>k < 705 * r. buf_word (udp_test_server_run r data m ! k) 0 = load32 m data + of_nat (Suc k) \<and>
      buf_word (udp_test_server_run r data m ! k) 16 = load32 m (data + 16) + of_nat (Suc (k div 705)))"
proof (induction r arbitrary: m)
  case (Suc r)
  obtain ps m1 where round: "udp_test_server_round data m = (ps, m1)" by fastforce
  note eq = udp_test_server_round_eq [OF round]
  have run: "udp_test_server_run (Suc r) data m = ps @ udp_test_server_run r data m1" by (simp add: round)
  have "buf_word ((ps @ udp_test_server_run r data m1) ! k) 0 = load32 m data + of_nat (Suc k) \<and>
      buf_word ((ps @ udp_test_server_run r data m1) ! k) 16 = load32 m (data + 16) + of_nat (Suc (k div 705))"
    if "k < 705 * Suc r" for k
  proof (cases "k < 705")
    case True
    then show ?thesis using eq(1,4) by (simp add: nth_append)
  next
    case False
    then have i: "k = 705 + (k - 705)" "k - 705 < 705 * r" using that by auto
    then obtain i where i: "k = 705 + i" "i < 705 * r" by blast
    then have "k div 705 = Suc (i div 705)" by simp
    with i show ?thesis using Suc.IH [of m1] eq(1-3) by (simp add: nth_append algebra_simps)
  qed
  then show ?case unfolding run using Suc.IH [of m1] eq(1) by simp
qed simp

subsection \<open>The loss report\<close>

lemma loss_loop_sum:
  assumes "unat j + n < 2 ^ 31"
  shows "loss_loop per_image counters (j + of_nat n) j lost =
    Some (lost + (\<Sum>i<n. per_image - counters ! ((unat j + i) mod 32)))"
  using assms
proof (induction n arbitrary: j lost)
  case 0
  then show ?case by (simp add: loss_loop.simps)
next
  case (Suc n)
  have n: "unat (of_nat (Suc n) :: u32) = Suc n" using Suc.prems by (simp only: unat_of_nat) simp
  have lim: "unat (j + of_nat (Suc n)) = unat j + Suc n"
    using Suc.prems n by (subst unat_add_small) auto
  have less: "j < j + of_nat (Suc n)" unfolding word_less_nat_alt lim by simp
  have small: "unat j < 2 ^ 31" using Suc.prems by simp
  then have "\<not> j <s 0" by (simp add: sless_small)
  moreover have "nat (sint j mod 32) = unat j mod 32"
    using small by (simp add: sint_small nat_mod_distrib)
  moreover have "j + of_nat (Suc n) = (j + 1) + of_nat n" by simp
  moreover have "unat (j + 1) = Suc (unat j)" using small by (subst unat_add_small) auto
  ultimately show ?case
    using less Suc.prems Suc.IH [of "j + 1" "lost + (per_image - counters ! (unat j mod 32))"]
    by (subst loss_loop.simps) (simp add: sum.lessThan_Suc_shift algebra_simps del: of_nat_Suc sum.lessThan_Suc)
qed

lemma loss_loop_few_messages:
  assumes "2 \<le> unat message_id" and "unat message_id < 30"
  shows "loss_loop per_image counters (message_id - 2) (message_id - 30) lost = Some lost"
proof -
  have "\<not> message_id - 30 < message_id - 2"
    using assms by (auto simp: word_less_nat_alt unat_sub_if')
  then show ?thesis by (simp add: loss_loop.simps)
qed

lemma loss_loop_first_messages:
  "message_id = 0 \<or> message_id = 1 \<Longrightarrow> loss_loop per_image counters (message_id - 2) (message_id - 30) lost = None"
  by (erule disjE; subst loss_loop.simps; simp add: word_sless_alt)

text \<open>The counter of the message just received is not one of the 28 that are summed up.\<close>

lemma window_index:
  assumes "30 \<le> m" and "i < 28"
  shows "(m - 30 + i) mod 32 \<noteq> (m :: nat) mod 32"
proof
  assume "(m - 30 + i) mod 32 = m mod 32"
  moreover have "m - 30 + i \<le> m" using assms by simp
  ultimately have "32 dvd m - (m - 30 + i)" by (metis mod_eq_dvd_iff_nat)
  then show False using assms by (auto dest: dvd_imp_le)
qed

lemma test_client_receive_fields:
  assumes "20 \<le> length package" and "length package < sz"
  shows "test_client_receive sz True package c = map_option
      (\<lambda>lost. (c\<lparr>tc_mesg := (package @ drop (length package) (tc_mesg c))[length package := 0],
              tc_package_counter := replicate 32 0, tc_start_package_id := buf_word package 0\<rparr>,
              Some (buf_word package 0 - tc_start_package_id c, lost)))
      (loss_loop (of_nat (360960 div sz))
        ((tc_package_counter c)[unat (buf_word package 16) mod 32 :=
           tc_package_counter c ! (unat (buf_word package 16) mod 32) + 1])
        (buf_word package 16 - 2) (buf_word package 16 - 30) 0)"
proof -
  have "buf_word ((package @ drop (length package) (tc_mesg c))[length package := 0]) i = buf_word package i"
    if "i + 3 < length package" for i
    using that by (simp add: buf_word_def nth_append)
  from this [of 0] this [of 16] show ?thesis
    using assms by (simp add: test_client_receive_def Let_def)
qed

lemma client_loss_report:
  assumes "20 \<le> length package" and "length package < 8000" and "message_id = buf_word package 16"
    and "30 \<le> unat message_id" and "unat message_id < 2 ^ 31"
  shows "\<exists>c1. udp_test_client_receive True (Some package) c = Some (c1, Some (buf_word package 0 - tc_start_package_id c,
      \<Sum>i<28. 45 - tc_package_counter c ! ((unat message_id - 30 + i) mod 32))) \<and>
    tc_package_counter c1 = replicate 32 0 \<and>
    ((\<forall>i < 32. tc_package_counter c ! i = 705) \<longrightarrow>
      (\<Sum>i<28. 45 - tc_package_counter c ! ((unat message_id - 30 + i) mod 32)) = - 18480)"
proof -
  let ?cs = "(tc_package_counter c)[unat message_id mod 32 := tc_package_counter c ! (unat message_id mod 32) + 1]"
  have j: "unat (message_id - 30) = unat message_id - 30"
    using assms(4) by (subst unat_sub) (auto simp: word_le_nat_alt)
  have "loss_loop 45 ?cs ((message_id - 30) + of_nat 28) (message_id - 30) 0 =
      Some (0 + (\<Sum>i<28. 45 - ?cs ! ((unat (message_id - 30) + i) mod 32)))"
    using assms(4,5) j by (intro loss_loop_sum) simp
  moreover have "?cs ! ((unat (message_id - 30) + i) mod 32) =
      tc_package_counter c ! ((unat message_id - 30 + i) mod 32)" if "i < 28" for i
    using window_index [OF assms(4) that, symmetric] j by simp
  ultimately have "loss_loop 45 ?cs (message_id - 2) (message_id - 30) 0 =
      Some (\<Sum>i<28. 45 - tc_package_counter c ! ((unat message_id - 30 + i) mod 32))"
    by simp
  then show ?thesis
    using test_client_receive_fields [OF assms(1,2), of c] assms(3)
    by (simp add: udp_test_client_receive_def)
qed

subsection \<open>The invariant of the writer\<close>

definition writer_inv :: "byte list \<Rightarrow> tcp_writer \<Rightarrow> bool" where
  "writer_inv data w \<longleftrightarrow> tw_data w = data \<and> \<not> (tw_accept_pending w \<and> tw_write_pending w) \<and>
    (tw_write_pending w \<longrightarrow> tw_socket_open w \<and> (\<exists>k. tw_wire w = concat (replicate k data))) \<and>
    (tw_socket_open w \<longrightarrow> tw_write_pending w)"

lemma writer_inv_step:
  assumes "writer_inv data w" and "tcp_writer_step w w'"
  shows "writer_inv data w'"
  using assms(2)
proof cases
  case (accept_completes error)
  moreover have "\<exists>k. [] = concat (replicate k data)" by (rule exI [of _ 0]) simp
  ultimately show ?thesis
    using assms(1) by (auto simp: writer_inv_def tcp_writer_handle_accept_def tcp_writer_write_def Let_def)
next
  case (write_completes error n)
  then obtain k where k: "tw_wire w = concat (replicate k data)" using assms(1) by (auto simp: writer_inv_def)
  have "\<exists>j. tw_wire w @ data = concat (replicate j data)"
    using replicate_append_same [of k data] by (intro exI [of _ "Suc k"]) (metis concat_append concat.simps append_Nil2 k replicate_Suc)
  with write_completes show ?thesis
    using assms(1)
    by (auto simp: writer_inv_def tcp_writer_handle_writer_def tcp_writer_write_def tcp_writer_accept_connection_def Let_def)
qed

lemma writer_inv_new: "writer_inv data (tcp_writer_new data)"
  by (simp add: writer_inv_def tcp_writer_new_def tcp_writer_accept_connection_def)

interpretation writer: invariant_system "\<lambda>w. w = tcp_writer_new data" tcp_writer_step "writer_inv data" for data
  by unfold_locales (auto intro: writer_inv_new writer_inv_step)

subsection \<open>Properties\<close>

text \<open>the packages of the UDP test server are numbered without gaps: over any number of passes, the
  \<open>k\<close>-th package sent carries the package number \<open>k + 1\<close> and the number of its image, with 705 packages
  to an image.\<close>

theorem test_server_numbers:
  assumes "k < 705 * r"
  shows "buf_word (udp_test_server_run r data (test_server_init data m) ! k) 0 = of_nat (Suc k) \<and>
    buf_word (udp_test_server_run r data (test_server_init data m) ! k) 16 = of_nat (Suc (k div 705))"
proof -
  have "load32 (test_server_init data m) data = 0" "load32 (test_server_init data m) (data + 16) = 0"
    by (simp_all add: test_server_init_def load32_counters)
  then show ?thesis using udp_test_server_run_ids [of r data "test_server_init data m"] assms by simp
qed

theorem test_server_numbers_witness:
  "buf_word (udp_test_server_run 2 64 (test_server_init 64 (\<lambda>_. 0)) ! 800) 16 = 2"
  using test_server_numbers [of 800 2 64 "\<lambda>_. 0"] by simp

text \<open>the report of the UDP test client, once 30 images have been numbered: it is the sum, over the 28
  images that lie between two and thirty images back, of the expected minus the counted packages, and the
  counters start again from zero. The expected number is 45 packages of 8000 bytes, whereas the
  test server sends 705 packages of 512 bytes: without any loss the report is -18480.\<close>

theorem test_client_loss_report:
  assumes "20 \<le> length package" and "length package < 8000" and "message_id = buf_word package 16"
    and "30 \<le> unat message_id" and "unat message_id < 2 ^ 31"
  shows "\<exists>c1. udp_test_client_receive True (Some package) c = Some (c1, Some (buf_word package 0 - tc_start_package_id c,
      \<Sum>i<28. 45 - tc_package_counter c ! ((unat message_id - 30 + i) mod 32))) \<and>
    tc_package_counter c1 = replicate 32 0 \<and>
    ((\<forall>i < 32. tc_package_counter c ! i = 705) \<longrightarrow>
      (\<Sum>i<28. 45 - tc_package_counter c ! ((unat message_id - 30 + i) mod 32)) = - 18480)"
  using assms by (rule client_loss_report)

theorem test_client_loss_report_witness:
  "\<exists>c1. udp_test_client_receive True (Some (le32 9000 @ replicate 12 0 @ le32 40 @ replicate 492 0)) demo_test_client =
     Some (c1, Some (9000, - 18480))"
proof -
  let ?p = "le32 9000 @ replicate 12 0 @ le32 40 @ replicate 492 0 :: byte list"
  have ids: "buf_word ?p 0 = 9000" "buf_word ?p 16 = 40"
    by (simp_all add: buf_word_def nth_append nth_Cons' le32_def byte_at_def cat32_def)
  have "\<forall>i < 32. tc_package_counter demo_test_client ! i = 705" by (simp add: demo_test_client_def)
  with test_client_loss_report [of ?p 40 demo_test_client] ids show ?thesis
    by (auto simp: demo_test_client_def)
qed

text \<open>while fewer than 30 images have been numbered the report counts no loss, and for the image numbers 0
  and 1 the client reads outside its table of counters, with which the test server starts.\<close>

theorem test_client_first_reports:
  assumes "20 \<le> length package" and "length package < 8000" and "unat (buf_word package 16) < 30"
  shows "map_option snd (udp_test_client_receive True (Some package) c) =
    (if unat (buf_word package 16) < 2 then None
     else Some (Some (buf_word package 0 - tc_start_package_id c, 0)))"
proof -
  have "unat (buf_word package 16) < 2 \<Longrightarrow> buf_word package 16 = 0 \<or> buf_word package 16 = 1"
    by (auto simp: word_unat_eq_iff less_2_cases_iff)
  then show ?thesis
    using test_client_receive_fields [OF assms(1,2), of c] loss_loop_first_messages loss_loop_few_messages assms(3)
    by (auto simp: udp_test_client_receive_def)
qed

theorem test_client_first_reports_witness:
  "udp_test_client_receive True (Some (replicate 16 0 @ le32 1)) demo_test_client = None"
proof -
  let ?p = "replicate 16 0 @ le32 1 :: byte list"
  have "buf_word ?p 16 = 1" by (simp add: buf_word_def nth_append le32_def byte_at_def cat32_def)
  with test_client_first_reports [of ?p demo_test_client] show ?thesis by simp
qed

text \<open>C38: the writer never has an accept and a write under way at once; while it writes, the client has been sent
  whole images only; and when neither is under way, which happens only after a failed accept, it does nothing
  any more.\<close>

theorem tcp_writer_invariant:
  assumes "tcp_writer_reach data w"
  shows "tw_data w = data \<and> \<not> (tw_accept_pending w \<and> tw_write_pending w) \<and>
    (tw_write_pending w \<longrightarrow> tw_socket_open w \<and> (\<exists>k. tw_wire w = concat (replicate k data))) \<and>
    (tw_socket_open w \<longrightarrow> tw_write_pending w)"
  using writer.reach_inv [OF assms] by (simp add: writer_inv_def)

theorem tcp_writer_invariant_witness:
  "\<exists>k. tw_wire (tcp_writer_handle_writer False 2 (tcp_writer_handle_accept False (tcp_writer_new [7, 8]))) =
     concat (replicate k [7, 8])"
proof -
  let ?w = "tcp_writer_new [7, 8]"
  have "tcp_writer_reach [7, 8] ?w" by (rule reach_init) simp
  moreover have "tcp_writer_step ?w (tcp_writer_handle_accept False ?w)"
    by (rule tcp_writer_step.accept_completes) (simp add: tcp_writer_new_def tcp_writer_accept_connection_def)
  ultimately have "tcp_writer_reach [7, 8] (tcp_writer_handle_accept False ?w)" by (rule reach_step)
  moreover have "tcp_writer_step (tcp_writer_handle_accept False ?w)
      (tcp_writer_handle_writer False 2 (tcp_writer_handle_accept False ?w))"
    by (rule tcp_writer_step.write_completes) (simp add: tcp_writer_handle_accept_def tcp_writer_write_def Let_def)
  ultimately have "tcp_writer_reach [7, 8] (tcp_writer_handle_writer False 2 (tcp_writer_handle_accept False ?w))"
    by (rule reach_step)
  moreover have "tw_write_pending (tcp_writer_handle_writer False 2 (tcp_writer_handle_accept False ?w))"
    by (simp add: tcp_writer_handle_writer_def tcp_writer_write_def Let_def)
  ultimately show ?thesis using tcp_writer_invariant by blast
qed

text \<open>Every package of xilinx/UDPserver/udp_server.c fills the client's buffer, so that the terminating zero
  is written one byte behind it.\<close>

lemma full_package_overflows:
  assumes "p \<in> set (fst (xilinx_udp_server_round data m))"
  shows "udp_test_client_receive elapsed (Some p) c = None"
proof -
  have "length p = 8000"
    using assms by (auto simp: xilinx_udp_server_round_def test_packages_eq simp del: upt_rec_numeral)
  then show ?thesis by (simp add: udp_test_client_receive_def test_client_receive_def)
qed

end
