(* ===== verification/Programs.thy ===== *)
theory Programs
  imports I2cBusses TestPrograms TcpStream UdpStream
begin

text \<open>
  The main functions of the test programs: their arguments, the set-up of their sockets with all its error
  exits, and the runs of their loops, composed with the passes of \<open>TestPrograms\<close>, \<open>TcpStream\<close> and
  \<open>UdpStream\<close>. \<open>argv\<close> includes the name of the program. \<open>Exit n\<close> is \<open>exit(n)\<close> or \<open>return n\<close> with \<open>n\<close> not 0;
  what the socket functions answer is the parameter \<open>sock_os\<close>. The loops without an end are functions of
  the number of passes or of what arrives. Further the daytime server xilinx/TCPserver/tcp_server.cpp and the
  copy of the image writer in xilinx/test2/src/main.cc.
\<close>

subsection \<open>Ports and addresses\<close>

definition atoi :: "string \<Rightarrow> u32" where
  "atoi s =
     (case parse_number False s of None \<Rightarrow> 0
      | Some (neg, n, _) \<Rightarrow> word_of_int (clamp_long (if neg then - int n else int n)))"

definition htons :: "u16 \<Rightarrow> u16" where
  "htons w = push_bit 8 w OR drop_bit 8 w"

record sockaddr_in =
  sin_family :: u16
  sin_port :: u16
  sin_addr :: u32

definition AF_INET :: u16 where "AF_INET = 2"

text \<open>The argument of \<open>htons\<close> is 16 bits wide, so the port number is cut.\<close>

definition inet_address :: "u32 \<Rightarrow> u32 \<Rightarrow> sockaddr_in" where
  "inet_address addr portno = \<lparr>sin_family = AF_INET, sin_port = htons (ucast portno), sin_addr = addr\<rparr>"

text \<open>The answers of the socket functions. \<open>gethostbyname\<close> gives the IPv4 address in network order, or the null pointer.\<close>

record sock_os =
  so_socket :: u32
  so_bind :: "u32 \<Rightarrow> sockaddr_in \<Rightarrow> u32"
  so_accept :: "u32 \<Rightarrow> u32"
  so_gethostbyname :: "string \<Rightarrow> u32 option"
  so_connect :: "u32 \<Rightarrow> sockaddr_in \<Rightarrow> u32"
  so_inet_addr :: "string \<Rightarrow> u32"
  so_setsockopt :: u32

text \<open>\<open>if (x < 0) error(...)\<close>, where \<open>error\<close> ends the program with the status \<open>code\<close>.\<close>

definition error_if :: "int \<Rightarrow> u32 \<Rightarrow> u32 outcome" where
  "error_if code x = (if x <s 0 then Exit code else Ret x)"

subsection \<open>TCPtest/server_socket.cpp\<close>

definition server_socket_setup :: "sock_os \<Rightarrow> string list \<Rightarrow> u32 outcome" where
  "server_socket_setup os argv =
     (if length argv < 2 then Exit 1
      else
        bind_outcome (error_if 1 (so_socket os)) (\<lambda>sockfd.
        bind_outcome (error_if 1 (so_bind os sockfd (inet_address 0 (atoi (argv ! 1))))) (\<lambda>_.
        error_if 1 (so_accept os sockfd))))"

primrec tcp_test_server_run :: "nat \<Rightarrow> (nat \<Rightarrow> u32) \<Rightarrow> u32 \<Rightarrow> mem \<Rightarrow> byte list list outcome" where
  "tcp_test_server_run 0 sent data m = Ret []"
| "tcp_test_server_run (Suc r) sent data m =
     bind_outcome (tcp_test_server_round sent data m) (\<lambda>(ps, m1).
     bind_outcome (tcp_test_server_run r (\<lambda>k. sent (length ps + k)) data m1) (\<lambda>qs.
     Ret (ps @ qs)))"

definition server_socket_main :: "sock_os \<Rightarrow> string list \<Rightarrow> nat \<Rightarrow> (nat \<Rightarrow> u32) \<Rightarrow> u32 \<Rightarrow> mem \<Rightarrow> byte list list outcome" where
  "server_socket_main os argv r sent data m =
     bind_outcome (server_socket_setup os argv) (\<lambda>newsockfd.
       tcp_test_server_run r sent data (test_server_init data m))"

subsection \<open>TCPtest/client_socket.cpp\<close>

definition client_socket_setup :: "sock_os \<Rightarrow> string list \<Rightarrow> test_client outcome" where
  "client_socket_setup os argv =
     (if length argv < 3 then Exit 0
      else
        let portno = atoi (argv ! 2) in
        bind_outcome (error_if 0 (so_socket os)) (\<lambda>sockfd.
          case so_gethostbyname os (argv ! 1) of
            None \<Rightarrow> Exit 0
          | Some server \<Rightarrow>
              bind_outcome (error_if 0 (so_connect os sockfd (inet_address server portno))) (\<lambda>_.
              Ret \<lparr>tc_mesg = replicate 360960 0, tc_package_counter = replicate 32 0, tc_start_package_id = 0\<rparr>)))"

text \<open>The loop; each pass has the clock and what \<open>read\<close> gave.\<close>

fun client_socket_run ::
  "(bool \<times> byte list option) list \<Rightarrow> test_client \<Rightarrow> (test_client \<times> (u32 \<times> u32) list) outcome option" where
  "client_socket_run [] c = Some (Ret (c, []))"
| "client_socket_run ((elapsed, package) # ps) c =
     (case tcp_test_client_receive elapsed package c of
        None \<Rightarrow> None
      | Some (Exit n) \<Rightarrow> Some (Exit n)
      | Some (Throw e) \<Rightarrow> Some (Throw e)
      | Some (Ret (c1, report)) \<Rightarrow>
          map_option (\<lambda>res. bind_outcome res (\<lambda>(c2, rs). Ret (c2, (case report of None \<Rightarrow> rs | Some x \<Rightarrow> x # rs))))
            (client_socket_run ps c1))"

definition client_socket_main ::
  "sock_os \<Rightarrow> string list \<Rightarrow> (bool \<times> byte list option) list \<Rightarrow> (test_client \<times> (u32 \<times> u32) list) outcome option" where
  "client_socket_main os argv ps =
     (case client_socket_setup os argv of
        Ret c \<Rightarrow> client_socket_run ps c
      | Exit n \<Rightarrow> Some (Exit n)
      | Throw e \<Rightarrow> Some (Throw e))"

subsection \<open>UDPtest and xilinx/UDPserver\<close>

text \<open>The receiver of the packages and the packages; whether a \<open>sendto\<close> succeeds is not tested.\<close>

definition udp_test_server_main :: "sock_os \<Rightarrow> string list \<Rightarrow> nat \<Rightarrow> u32 \<Rightarrow> mem \<Rightarrow> (sockaddr_in \<times> byte list list) outcome" where
  "udp_test_server_main os argv r data m =
     (if length argv \<noteq> 2 then Exit 1
      else Ret (inet_address (so_inet_addr os (argv ! 1)) 32000, udp_test_server_run r data (test_server_init data m)))"

primrec xilinx_udp_server_run :: "nat \<Rightarrow> u32 \<Rightarrow> mem \<Rightarrow> byte list list" where
  "xilinx_udp_server_run 0 data m = []"
| "xilinx_udp_server_run (Suc r) data m =
     (case xilinx_udp_server_round data m of (ps, m1) \<Rightarrow> ps @ xilinx_udp_server_run r data m1)"

definition xilinx_udp_server_main :: "sock_os \<Rightarrow> string list \<Rightarrow> nat \<Rightarrow> u32 \<Rightarrow> mem \<Rightarrow> (sockaddr_in \<times> byte list list) outcome" where
  "xilinx_udp_server_main os argv r data m =
     (if length argv \<noteq> 2 then Exit 1
      else Ret (inet_address (so_inet_addr os (argv ! 1)) 32000, xilinx_udp_server_run r data (test_server_init data m)))"

text \<open>The client has an uninitialised buffer \<open>mesg\<close>; whether \<open>bind\<close> succeeds is not tested. The result tells whether
  the complaint about the socket's size is printed.\<close>

definition udp_test_client_setup :: "sock_os \<Rightarrow> byte list \<Rightarrow> bool \<times> test_client" where
  "udp_test_client_setup os mesg =
     (so_setsockopt os = - 1, \<lparr>tc_mesg = mesg, tc_package_counter = replicate 32 0, tc_start_package_id = 0\<rparr>)"

fun udp_test_client_run ::
  "(bool \<times> byte list option) list \<Rightarrow> test_client \<Rightarrow> (test_client \<times> (u32 \<times> u32) list) option" where
  "udp_test_client_run [] c = Some (c, [])"
| "udp_test_client_run ((elapsed, package) # ps) c =
     (case udp_test_client_receive elapsed package c of
        None \<Rightarrow> None
      | Some (c1, report) \<Rightarrow>
          map_option (\<lambda>(c2, rs). (c2, (case report of None \<Rightarrow> rs | Some x \<Rightarrow> x # rs))) (udp_test_client_run ps c1))"

subsection \<open>The clients of the servers\<close>

text \<open>Resolving the host and connecting may throw, which \<open>main\<close> catches: it prints the reason and returns 0. \<open>host\<close> gives
  all the bytes that arrive over the connection, \<open>Inl\<close> the reason of the exception.\<close>

definition client_main :: "(string \<Rightarrow> string + byte list) \<Rightarrow> string list \<Rightarrow> (nat \<Rightarrow> byte list) \<Rightarrow> (string + client_event list) outcome" where
  "client_main host argv buf =
     (if length argv \<noteq> 2 then Exit 1
      else case host (argv ! 1) of
        Inl reason \<Rightarrow> Ret (Inl reason)
      | Inr s \<Rightarrow> Ret (Inr (client_loop buf s)))"

definition test_client_main ::
  "(string \<Rightarrow> string + byte list list) \<Rightarrow> string list \<Rightarrow> byte list list \<Rightarrow> (string + udp_client \<times> udp_message list) outcome option" where
  "test_client_main host argv images =
     (if length argv \<noteq> 2 then Some (Exit 1)
      else case host (argv ! 1) of
        Inl reason \<Rightarrow> Some (Ret (Inl reason))
      | Inr ps \<Rightarrow> map_option (\<lambda>r. Ret (Inr r)) (udp_client_run ps (udp_client_init images)))"

subsection \<open>The daytime server\<close>

text \<open>A pass: whether \<open>accept\<close> returns (or throws), what \<open>ctime\<close> gives, and, when the write fails, the number of bytes
  transferred before; its error is ignored. The result has what each client received.\<close>

fun daytime_loop :: "(bool \<times> string \<times> nat option) list \<Rightarrow> string list" where
  "daytime_loop [] = []"
| "daytime_loop ((accepted, now, failed) # passes) =
     (if \<not> accepted then []
      else (case failed of None \<Rightarrow> now | Some n \<Rightarrow> take n now) # daytime_loop passes)"

text \<open>The constructor of the acceptor may throw, which ends the program before the loop.\<close>

definition daytime_main :: "bool \<Rightarrow> (bool \<times> string \<times> nat option) list \<Rightarrow> string list" where
  "daytime_main listening passes = (if listening then daytime_loop passes else [])"

subsection \<open>xilinx/test2\<close>

definition test2_accept_connection :: "tcp_writer \<Rightarrow> tcp_writer" where
  "test2_accept_connection w = w\<lparr>tw_socket_open := False, tw_accept_pending := True\<rparr>"

definition test2_new :: "byte list \<Rightarrow> tcp_writer" where
  "test2_new data = test2_accept_connection
     \<lparr>tw_data = data, tw_socket_open = False, tw_accept_pending = False, tw_write_pending = False, tw_wire = []\<rparr>"

definition test2_write :: "tcp_writer \<Rightarrow> tcp_writer" where
  "test2_write w = w\<lparr>tw_write_pending := True\<rparr>"

definition test2_handle_accept :: "bool \<Rightarrow> tcp_writer \<Rightarrow> tcp_writer" where
  "test2_handle_accept error w =
     (let w1 = w\<lparr>tw_accept_pending := False\<rparr> in
      if error then w1 else test2_write (w1\<lparr>tw_socket_open := True, tw_wire := []\<rparr>))"

definition test2_handle_writer :: "bool \<Rightarrow> nat \<Rightarrow> tcp_writer \<Rightarrow> tcp_writer" where
  "test2_handle_writer error n w =
     (let w1 = w\<lparr>tw_write_pending := False,
                  tw_wire := tw_wire w @ (if error then take n (tw_data w) else tw_data w)\<rparr>
      in if error then test2_accept_connection w1 else test2_write w1)"

inductive test2_step :: "tcp_writer \<Rightarrow> tcp_writer \<Rightarrow> bool" where
  test2_accepts: "tw_accept_pending w \<Longrightarrow> test2_step w (test2_handle_accept error w)"
| test2_writes: "tw_write_pending w \<Longrightarrow> test2_step w (test2_handle_writer error n w)"

definition test2_image :: "u32 \<Rightarrow> mem \<Rightarrow> mem" where
  "test2_image data m = fill_numbers data 360960 (store32 (store_bytes m data (replicate 360960 0)) data 0)"

subsection \<open>Senders\<close>

lemma ex_less_Suc_shift: "(\<exists>k < Suc n. P k) \<longleftrightarrow> P 0 \<or> (\<exists>k < n. P (Suc k))"
  using less_Suc_eq_0_disj by auto

lemma ex_less_add: "(\<exists>k < a + b. P k) \<longleftrightarrow> (\<exists>k < a. P k) \<or> (\<exists>k < (b :: nat). P (a + k))"
  by (metis add_less_cancel_left le_Suc_ex not_less trans_less_add1)

text \<open>The bytes that the sends take of each package.\<close>

fun taken :: "(nat \<Rightarrow> u32) \<Rightarrow> byte list list \<Rightarrow> byte list list" where
  "taken sent [] = []"
| "taken sent (p # ps) = take (unat (sent 0)) p # taken (\<lambda>k. sent (Suc k)) ps"

lemma taken_append: "taken sent (ps @ qs) = taken sent ps @ taken (\<lambda>k. sent (length ps + k)) qs"
  by (induction sent ps rule: taken.induct) auto

lemma length_taken [simp]: "length (taken sent ps) = length ps"
  by (induction sent ps rule: taken.induct) auto

lemma nth_taken: "k < length ps \<Longrightarrow> taken sent ps ! k = take (unat (sent k)) (ps ! k)"
  by (induction sent ps arbitrary: k rule: taken.induct) (auto simp: nth_Cons split: nat.splits)

lemma taken_eq: "taken sent ps = map (\<lambda>k. take (unat (sent k)) (ps ! k)) [0..<length ps]"
  by (rule nth_equalityI) (simp_all add: nth_taken)

lemma tcp_test_packages_eq:
  "tcp_test_packages sent data n out m =
     (if \<exists>k < n. sent (length out + k) <s 0 then Exit 1
      else case test_packages 512 data n m of (ps, m1) \<Rightarrow> Ret (out @ taken (\<lambda>k. sent (length out + k)) ps, m1))"
  by (induction n arbitrary: out m) (auto simp: Let_def ex_less_Suc_shift simp del: not_ex split: prod.splits)

lemma tcp_test_server_round_eq:
  "tcp_test_server_round sent data m =
     (if \<exists>k < 705. sent k <s 0 then Exit 1
      else case udp_test_server_round data m of (ps, m1) \<Rightarrow> Ret (taken sent ps, m1))"
  by (simp add: tcp_test_server_round_def udp_test_server_round_def tcp_test_packages_eq split: prod.splits)

lemma tcp_test_server_run_eq:
  "tcp_test_server_run r sent data m =
     (if \<exists>k < 705 * r. sent k <s 0 then Exit 1 else Ret (taken sent (udp_test_server_run r data m)))"
proof (induction r arbitrary: sent m)
  case (Suc r)
  obtain ps m1 where round: "udp_test_server_round data m = (ps, m1)" by fastforce
  have ex: "(\<exists>k < 705 * Suc r. sent k <s 0) \<longleftrightarrow> (\<exists>k < 705. sent k <s 0) \<or> (\<exists>k < 705 * r. sent (705 + k) <s 0)"
    using ex_less_add [of 705 "705 * r"] by simp
  show ?case
    unfolding ex using udp_test_server_round_eq(1) [OF round]
    by (simp add: tcp_test_server_round_eq round Suc.IH taken_append del: mult_Suc_right)
qed simp

subsection \<open>The receiver's counters\<close>

abbreviation message_of :: "byte list \<Rightarrow> nat" where
  "message_of p \<equiv> unat (buf_word p 16)"

definition counted :: "byte list list \<Rightarrow> nat \<Rightarrow> nat" where
  "counted ps i = length (filter (\<lambda>p. message_of p mod 32 = i) ps)"

lemma receive_counts:
  assumes "20 \<le> length p" and "length p < 8000"
  shows "\<exists>mesg. udp_test_client_receive False (Some p) c = Some (c\<lparr>tc_mesg := mesg,
    tc_package_counter := (tc_package_counter c)[message_of p mod 32 := tc_package_counter c ! (message_of p mod 32) + 1]\<rparr>, None)"
proof -
  have "buf_word ((p @ drop (length p) (tc_mesg c))[length p := 0]) 16 = buf_word p 16"
    using assms by (simp add: buf_word_def nth_append)
  then show ?thesis using assms by (auto simp: udp_test_client_receive_def test_client_receive_def Let_def)
qed

lemma run_counts:
  assumes "\<forall>p \<in> set ps. 20 \<le> length p \<and> length p < 8000" and "length (tc_package_counter c) = 32"
  shows "\<exists>c1. udp_test_client_run (map (\<lambda>p. (False, Some p)) ps @ rest) c =
      udp_test_client_run rest c1 \<and> tc_start_package_id c1 = tc_start_package_id c \<and>
    length (tc_package_counter c1) = 32 \<and>
    (\<forall>i < 32. tc_package_counter c1 ! i = tc_package_counter c ! i + of_nat (counted ps i))"
  using assms
proof (induction ps arbitrary: c)
  case (Cons p ps)
  let ?i = "message_of p mod 32"
  obtain mesg where receive: "udp_test_client_receive False (Some p) c = Some (c\<lparr>tc_mesg := mesg,
      tc_package_counter := (tc_package_counter c)[?i := tc_package_counter c ! ?i + 1]\<rparr>, None)" (is "_ = Some (?c, None)")
    using receive_counts [of p c] Cons.prems by auto
  obtain c1 where "udp_test_client_run (map (\<lambda>p. (False, Some p)) ps @ rest) ?c = udp_test_client_run rest c1"
    "tc_start_package_id c1 = tc_start_package_id ?c" "length (tc_package_counter c1) = 32"
    "\<forall>i < 32. tc_package_counter c1 ! i = tc_package_counter ?c ! i + of_nat (counted ps i)"
    using Cons.IH [of ?c] Cons.prems by auto
  with Cons.prems(2) show ?case
    by (intro exI [of _ c1]) (auto simp: receive counted_def option.map_id nth_list_update case_prod_beta)
qed (auto simp: counted_def)

text \<open>Summing the counters of a window counts the packages of the window.\<close>

lemma sum_counted:
  assumes "\<forall>p \<in> set ps. message_of p < 32" and "a + n \<le> 32"
  shows "(\<Sum>i<n. of_nat (counted ps (a + i)) :: u32) =
    of_nat (length (filter (\<lambda>p. a \<le> message_of p \<and> message_of p < a + n) ps))"
  using assms
proof (induction ps)
  case (Cons p ps)
  have "(\<Sum>i<n. of_nat (counted (p # ps) (a + i)) :: u32) =
      (\<Sum>i<n. (if i = message_of p - a \<and> a \<le> message_of p then 1 else 0) + of_nat (counted ps (a + i)))"
    using Cons.prems by (intro sum.cong) (auto simp: counted_def)
  also have "\<dots> = (if a \<le> message_of p \<and> message_of p < a + n then 1 else 0) + (\<Sum>i<n. of_nat (counted ps (a + i)))"
    by (auto simp: sum.distrib sum.delta)
  finally show ?case using Cons by auto
qed (simp add: counted_def)

lemma udp_test_server_sizes: "p \<in> set (udp_test_server_run r data m) \<Longrightarrow> length p = 512"
  by (induction r arbitrary: m)
    (auto simp: udp_test_server_round_def test_packages_eq simp del: upt_rec_numeral)

lemma server_packages:
  assumes "p \<in> set (udp_test_server_run r data (test_server_init data m))" and "r < 2 ^ 32"
  shows "length p = 512" and "1 \<le> message_of p" and "message_of p \<le> r"
proof -
  from assms(1) show "length p = 512" by (rule udp_test_server_sizes)
  note ids = udp_test_server_run_ids [of r data "test_server_init data m"]
  obtain k where k: "k < 705 * r" "p = udp_test_server_run r data (test_server_init data m) ! k"
    using assms(1) ids by (metis in_set_conv_nth)
  have "load32 (test_server_init data m) (data + 16) = 0"
    by (simp add: test_server_init_def load32_counters)
  with ids k have id: "buf_word p 16 = of_nat (Suc (k div 705))" by (simp del: of_nat_Suc)
  have "Suc (k div 705) \<le> r" using k(1) by (simp add: Suc_le_eq div_less_iff_less_mult mult.commute)
  moreover from this have "message_of p = Suc (k div 705)"
    unfolding id using assms(2) by (simp add: unat_of_nat del: of_nat_Suc)
  ultimately show "1 \<le> message_of p" "message_of p \<le> r" by simp_all
qed

lemma report_of_counters:
  assumes "length p = 512" and "30 \<le> message_of p" and "message_of p \<le> 32"
    and "\<forall>i < 32. tc_package_counter c ! i = of_nat (counted ps i)" and "\<forall>q \<in> set ps. message_of q < 32"
  shows "\<exists>c1. udp_test_client_receive True (Some p) c = Some (c1, Some (buf_word p 0 - tc_start_package_id c,
    1260 - of_nat (length (filter (\<lambda>q. message_of p - 30 \<le> message_of q \<and> message_of q < message_of p - 2) ps))))"
proof -
  have "tc_package_counter c ! ((message_of p - 30 + i) mod 32) = of_nat (counted ps (message_of p - 30 + i))"
    if "i < 28" for i
    using assms(2-4) that by simp
  then have "(\<Sum>i<28. 45 - tc_package_counter c ! ((message_of p - 30 + i) mod 32)) =
      (\<Sum>i<28. 45 - of_nat (counted ps (message_of p - 30 + i)) :: u32)"
    by simp
  also have "\<dots> = 1260 - (\<Sum>i<28. of_nat (counted ps (message_of p - 30 + i)))"
    by (subst sum_subtractf) simp
  also have "\<dots> = 1260 - of_nat (length (filter (\<lambda>q. message_of p - 30 \<le> message_of q \<and> message_of q < message_of p - 2) ps))"
  proof -
    have "message_of p - 30 + 28 = message_of p - 2" using assms(2) by simp
    with sum_counted [OF assms(5), of "message_of p - 30" 28] assms(3) show ?thesis by simp
  qed
  finally show ?thesis
    using client_loss_report [of p "buf_word p 16" c] assms(1-3) by auto
qed

subsection \<open>The writer of test2\<close>

lemma test2_eq:
  "test2_new = tcp_writer_new" "test2_step = tcp_writer_step" "test2_image = test_image"
proof -
  have accept: "test2_accept_connection = tcp_writer_accept_connection"
    by (rule ext) (simp add: test2_accept_connection_def tcp_writer_accept_connection_def)
  have writes: "test2_write = tcp_writer_write"
    by (rule ext) (simp add: test2_write_def tcp_writer_write_def)
  have handlers: "test2_handle_accept = tcp_writer_handle_accept" "test2_handle_writer = tcp_writer_handle_writer"
    by (intro ext, simp add: test2_handle_accept_def tcp_writer_handle_accept_def writes Let_def)
      (intro ext, simp add: test2_handle_writer_def tcp_writer_handle_writer_def accept writes Let_def)
  show "test2_new = tcp_writer_new" by (rule ext) (simp add: test2_new_def tcp_writer_new_def accept)
  show "test2_step = tcp_writer_step"
    by (intro ext) (simp add: test2_step.simps tcp_writer_step.simps handlers)
  show "test2_image = test_image" by (intro ext) (simp add: test2_image_def test_image_def)
qed

subsection \<open>Ports\<close>

lemma atoi_printf_u: "n < 2 ^ 31 \<Longrightarrow> atoi (printf_u n) = of_nat n"
  using parse_number_printf_u [of "[]" False n] by (simp add: atoi_def clamp_long_def)

lemma le16_htons: "le16 (htons w) = [ucast (drop_bit 8 w), ucast w]"
  unfolding le16_def htons_def by (auto intro!: bit_word_eqI simp: bit_simps)

subsection \<open>Properties\<close>

definition demo_sock_os :: sock_os where
  "demo_sock_os = \<lparr>so_socket = 3, so_bind = (\<lambda>_ _. 0), so_accept = (\<lambda>_. 4), so_gethostbyname = (\<lambda>_. None),
     so_connect = (\<lambda>_ _. 0), so_inet_addr = (\<lambda>_. 0x0100007F), so_setsockopt = 0\<rparr>"

text \<open>C37: the TCP test server: without an argument, when the socket cannot be opened, bound or accepted, or when any send
  fails, the program exits with the status 1. Otherwise the packages of \<open>r\<close> passes are made exactly as by the UDP test server,
  and of the \<open>k\<close>-th package go out the bytes that the \<open>k\<close>-th send took: a short send is not continued, so that packages go out whole
  only if every send takes all its 512 bytes.\<close>

theorem server_socket_main_spec:
  "server_socket_main os argv r sent data m =
     (if length argv < 2 \<or> so_socket os <s 0 \<or>
         so_bind os (so_socket os) (inet_address 0 (atoi (argv ! 1))) <s 0 \<or> so_accept os (so_socket os) <s 0 \<or>
         (\<exists>k < 705 * r. sent k <s 0)
      then Exit 1
      else Ret (map (\<lambda>k. take (unat (sent k)) (udp_test_server_run r data (test_server_init data m) ! k)) [0..<705 * r])) \<and>
   ((\<forall>k < 705 * r. sent k = 512) \<longrightarrow>
      map (\<lambda>k. take (unat (sent k)) (udp_test_server_run r data (test_server_init data m) ! k)) [0..<705 * r] =
        udp_test_server_run r data (test_server_init data m))"
proof -
  let ?ps = "udp_test_server_run r data (test_server_init data m)"
  have len: "length ?ps = 705 * r" using udp_test_server_run_ids [of r data "test_server_init data m"] by simp
  have "map (\<lambda>k. take (unat (sent k)) (?ps ! k)) [0..<705 * r] = ?ps" if "\<forall>k < 705 * r. sent k = 512"
    using that len udp_test_server_sizes [of _ r data "test_server_init data m"] by (intro nth_equalityI) auto
  then show ?thesis
    by (simp add: server_socket_main_def server_socket_setup_def error_if_def tcp_test_server_run_eq taken_eq len)
qed

theorem server_socket_main_spec_witness:
  "server_socket_main demo_sock_os [''server_socket'', ''13777''] 2 (\<lambda>_. 512) 0x1000 (\<lambda>_. 7) =
    Ret (udp_test_server_run 2 0x1000 (test_server_init 0x1000 (\<lambda>_. 7)))"
  using server_socket_main_spec [of demo_sock_os "[''server_socket'', ''13777'']" 2 "\<lambda>_. 512" "0x1000" "\<lambda>_. 7"]
  by (simp add: demo_sock_os_def word_sless_alt del: upt_rec_numeral)

text \<open>C36: the UDP test programs together. Whatever packages of the server's first 31 images reach the client, in whatever
  order and however often, and then, a second after the start, one of image 30, 31 or 32: the client never leaves its
  arrays, and reports the number of that package and, as lost, 1260 minus the packages that it received of the 28 images from
  30 to 3 before it.\<close>

theorem udp_test_link:
  assumes "set ps \<subseteq> set (udp_test_server_run 31 data (test_server_init data m))"
    and "p \<in> set (udp_test_server_run 32 data (test_server_init data m))" and "30 \<le> unat (buf_word p 16)"
  shows "\<exists>c. udp_test_client_run (map (\<lambda>q. (False, Some q)) ps @ [(True, Some p)]) (snd (udp_test_client_setup os mesg)) =
    Some (c, [(buf_word p 0, 1260 - of_nat (length (filter (\<lambda>q.
      unat (buf_word p 16) - 30 \<le> unat (buf_word q 16) \<and> unat (buf_word q 16) < unat (buf_word p 16) - 2) ps)))])"
proof -
  have ps: "length q = 512" "message_of q < 32" if "q \<in> set ps" for q
    using server_packages [of q 31 data m] assms(1) that by auto
  have p: "length p = 512" "message_of p \<le> 32" using server_packages [OF assms(2)] by auto
  let ?c = "snd (udp_test_client_setup os mesg)"
  have init: "tc_package_counter ?c = replicate 32 0" "tc_start_package_id ?c = 0"
    by (simp_all add: udp_test_client_setup_def)
  have "\<forall>q \<in> set ps. 20 \<le> length q \<and> length q < 8000" using ps(1) by simp
  from run_counts [OF this, of ?c "[(True, Some p)]"] init obtain c1 where
    c1: "udp_test_client_run (map (\<lambda>q. (False, Some q)) ps @ [(True, Some p)]) ?c = udp_test_client_run [(True, Some p)] c1"
      "tc_start_package_id c1 = 0" "\<forall>i < 32. tc_package_counter c1 ! i = of_nat (counted ps i)"
    by auto
  with report_of_counters [OF p(1) assms(3) p(2) c1(3)] ps(2) show ?thesis by auto
qed

theorem udp_test_link_witness:
  "\<exists>c lost. udp_test_client_run [(True, Some (udp_test_server_run 32 64 (test_server_init 64 (\<lambda>_. 0)) ! 20445))]
     (snd (udp_test_client_setup demo_sock_os [])) = Some (c, [(20446, lost)]) \<and> lost = 1260"
proof -
  let ?run = "udp_test_server_run 32 64 (test_server_init 64 (\<lambda>_. 0))"
  have "load32 (test_server_init 64 (\<lambda>_. 0)) 64 = 0" "load32 (test_server_init 64 (\<lambda>_. 0)) (64 + 16) = 0"
    by (simp_all only: test_server_init_def load32_counters load32_store32_same)
  then have ids: "length ?run = 22560" "buf_word (?run ! 20445) 0 = 20446" "buf_word (?run ! 20445) 16 = 30"
    using udp_test_server_run_ids [of 32 64 "test_server_init 64 (\<lambda>_. 0)"] by simp_all
  then have "?run ! 20445 \<in> set ?run" by simp
  with udp_test_link [of "[]" 64 "\<lambda>_. 0" "?run ! 20445" demo_sock_os "[]"] ids show ?thesis by simp
qed

text \<open>the port given on the command line. The decimal notation of a number below 2 to the power of 31 becomes the
  last two bytes of the number, in network order: the port itself when it is one, and some other port, without
  any complaint, when it is not.\<close>

theorem port_argument:
  assumes "n < 2 ^ 31"
  shows "le16 (sin_port (inet_address addr (atoi (printf_u n)))) = [of_nat (n mod 65536 div 256), of_nat (n mod 256)]"
proof -
  have cut: "ucast (of_nat k :: u32) = (of_nat k :: u16)" "ucast (of_nat k :: u16) = (of_nat k :: byte)" for k
    by (rule bit_word_eqI, auto simp: bit_simps)+
  have "unat (of_nat n :: u16) = n mod 65536" by (simp add: unat_of_nat)
  then have "drop_bit 8 (of_nat n :: u16) = of_nat (n mod 65536 div 256)"
    by (simp add: word_unat_eq_iff drop_bit_eq_div unat_div unat_of_nat)
  moreover have "(of_nat n :: byte) = of_nat (n mod 256)" by (simp add: word_unat_eq_iff unat_of_nat)
  ultimately show ?thesis
    using assms by (simp add: inet_address_def le16_htons atoi_printf_u cut)
qed

theorem port_argument_witness:
  "le16 (sin_port (inet_address 0 (atoi (printf_u 13777)))) = [0x35, 0xD1] \<and>
   le16 (sin_port (inet_address 0 (atoi (printf_u 79313)))) = [0x35, 0xD1]"
  using port_argument [of 13777 0] port_argument [of 79313 0] by simp

text \<open>xilinx/test2 behaves as the image writer of TCPtest: the same states are reachable, from the same image.\<close>

theorem test2_same_writer:
  "reachable (\<lambda>w. w = test2_new data) test2_step = tcp_writer_reach data \<and> test2_image = test_image"
  by (simp add: test2_eq)

text \<open>the daytime server serves each client on its own: whatever writes fail, as long as \<open>accept\<close> does not throw every
  client gets its own time, cut only where its own write failed.\<close>

theorem daytime_loop_independent:
  assumes "\<forall>(accepted, now, failed) \<in> set passes. accepted" and "k < length passes"
  shows "length (daytime_loop passes) = length passes \<and>
    daytime_loop passes ! k = (case passes ! k of (_, now, None) \<Rightarrow> now | (_, now, Some n) \<Rightarrow> take n now)"
proof -
  have "daytime_loop passes = map (\<lambda>(_, now, failed). case failed of None \<Rightarrow> now | Some n \<Rightarrow> take n now) passes"
    using assms(1) by (induction passes rule: daytime_loop.induct) auto
  with assms(2) show ?thesis by (auto split: prod.splits option.splits)
qed

end
