(* ===== verification/Spec2Isabelle.thy ===== *)
theory Spec2Isabelle
  imports DriverSystem CameraChip VisensorSystem SlamSystem I2cGather NtpDriver Programs
begin

text \<open>
  \<^bold>\<open>The program.\<close> The repository holds the software of a camera with an FPGA (the VI sensor) and the
  experiments that led to it. The FPGA writes images into a ring in physical memory, which a kernel
  module allocates and lets user space map. A server on the sensor's ARM programs the image sensor
  over I2C, watches the FPGA's pointer registers and sends each image to a TCP client. An older server
  (slam_sensor_server) serves fake cameras, an IMU and a configuration block out of a shared memory, over
  UDP and TCP. The test programs measure the network.

  \<^bold>\<open>The parts and their theories.\<close> Every theory keeps the order of its source files, a class is a record, its
  constructor \<open>X_new\<close>, its methods \<open>X_method\<close>; a method gets the objects and the state of
  the outside world and returns them updated.

  \<^item> \<open>Prelude\<close>: machine words, bytes, memory, and the \<open>outcome\<close> of code that may call \<open>exit\<close> or throw.

  \<^item> \<open>Mmio\<close>: xilinx/visensor-srv/src/DevMem. A device is a state with a load and a store function, the
  parameter \<open>mmio\<close>; a mapping adds an offset to a physical base. Reads may change the state.

  \<^item> \<open>Fpga\<close>: FPGARegisters and both versions of FPGA_config. The locale \<open>register_file\<close> states what a
  register promises (the last value written, no other register touched) and is interpreted on
  \<open>getRegisterValue\<close> and \<open>setRegisterValue\<close>.

  \<^item> \<open>I2cRaw\<close>: I2CBusRaw, the driver of the AXI IIC controller with its polling loops.

  \<^item> \<open>RingBuffer\<close>: SharedRingBuffer, the reader's position in the ring and the pointer it publishes.

  \<^item> \<open>Camera\<close>: Sensor and MT9V034, with the complete start-up sequence of the image sensor. \<open>CameraChip\<close>: the bus and
  the start-up on a controller that behaves as its manual says, as a refinement of the chip's registers.

  \<^item> \<open>TcpStream\<close>: the frames of both tcp_server.cpp (header in network order, then the payload) and the
  receive loop of TCPtest/client.cpp. \<open>TcpThreads\<close>: \<open>accept_connection\<close> of the main thread interleaved
  with \<open>handle_accept\<close> of the I/O thread, statement by statement, as a step relation.

  \<^item> \<open>UdpStream\<close>: both udp_server.cpp and the receive loop of test_client/client.cpp.

  \<^item> \<open>SharedMem\<close>: shared_memory and both shared_memory_manager. The locale \<open>flag_store\<close> states that
  the flags of the regions are independent, and is interpreted on the manager's layout.

  \<^item> \<open>Driver\<close>: the kernel modules visensor.c, memory_allocator.c and simple_char_device.c. \<open>DriverSystem\<close>: the
  function tables of the first two and the life of a module between load and unload, as a state machine. The locale
  \<open>memory_module\<close> states what a table promises and is interpreted on both.

  \<^item> \<open>Servers\<close>: both main programs, which compose the above; a pass of a main loop is one function. \<open>VisensorSystem\<close>: the
  two threads of the camera server, statement by statement, with clients that come and go and the hardware, as a state machine.
  \<open>SlamThreads\<close>: the two threads of the older server in the same way: the statements of its main loop, of
  \<open>accept_connection\<close> and of the timer and accept handlers, on the shared memory, the connection and the output.
  \<open>SlamSystem\<close>: what these threads do. In both, the accept of the kernel and the handler that is called for it are
  separate steps, and a failed accept may leave the socket open or closed.

  \<^item> \<open>Transitions\<close>: reachable states and the contract of an invariant (locale \<open>invariant_system\<close>), interpreted on the
  threads of both servers, on the camera server, on the kernel modules and on the image writer.

  \<^item> \<open>I2cDev\<close>: I2CBus and the SMBus functions of i2c-dev.h. \<open>I2cBusses\<close>: parsing of addresses and bus numbers,
  opening and searching a bus, i2cbusses.c. \<open>I2cGather\<close>: the table of busses, read from /proc or sysfs.

  \<^item> \<open>NtpDriver\<close>: memory_allocator/demo_driver.c.
  \<open>TestPrograms\<close>: UDPtest, TCPtest (server.cpp, server_socket.cpp, client_socket.cpp), xilinx/UDPserver
  and xilinx/test2. \<open>Programs\<close>: the main functions of the test programs and clients, with arguments, set-up and
  exits, and the daytime server of xilinx/TCPserver.

  \<^bold>\<open>What is proved.\<close> End to end: \<open>visensor_streams_images\<close> composes start-up, ring, camera, sender and client
  and shows that the client sees the slots of the ring in order, whatever the FPGA does between the passes. Its pieces are round trips of the stream
  (\<open>client_receives_frames\<close>), the ring's invariant and published pointers, the register laws, and the
  absence of lost connections in all interleavings; \<open>visensor_well_typed\<close> says what every state of the server looks
  like, between any two statements of its threads. For the older server: the layout of the shared memory, the
  independence of its flags, the transfer of an image over UDP with the client's loss check, and
  what one pass of the main loop serves, alone and interleaved with the timers and accepts, what goes out for each raised flag,
  and when a sample is lost or the program ends. For the
  kernel modules: bounds of the memory they hand out, that no mapping ever leaves the block a loaded module was given and
  how often each block is freed (\<open>modules_memory_safe\<close>, on a kernel in which any call may fail), and that the ring buffer opened on a loaded driver lies in the driver's memory. For the
  buses: what is transmitted, in which order, on every branch and on any hardware, and that on documented hardware the bus is
  the chip's registers; that the list of busses is parsed back, and what becomes of it in memory that nobody allocated. For the test programs: their exits,
  and server and client together. Where
  the code does not do what it means to, the theorem states what it does: the last slot
  of the ring, a read that repeats one byte, a lost connection in the older server, partial sends, the
  overrun of the test pattern, a short send that is not continued, a block used after it was freed.

  \<^bold>\<open>Outside the model.\<close> Hardware, the kernel, Boost.Asio and sockets are parameters, with what the code relies
  on as hypotheses of the theorem that needs it. Words are those of the 32-bit ARM. The loops that wait for
  hardware are bounded in the source and are recursive functions here; the send loop of
  \<open>UdpServer::send_data\<close> ends only if the socket takes bytes, so it is a \<open>partial_function\<close> in the
  option type, and \<open>udp_image_transfer\<close> shows that it returns when the socket takes whole datagrams. The
  endless loops of the programs are functions of the number of passes. Undefined behaviour is \<open>None\<close> where the
  source can reach it.

  \<^bold>\<open>Not modelled.\<close> ConfigServer (an empty class), the hello-world program, the parameters of the
  kernel modules, the function tables of the one-byte device and the NTP driver, the display of images, the durations of timers and sleeps, the texts printed where they do not depend on
  the state, and code that is commented out. The allocations that are commented out in i2cbusses.c leave pointers
  uninitialised: what these happen to be is an argument of the model (\<open>gather_env\<close>), and the theorems hold for any value of
  the table's pointer. Uninitialised variables elsewhere are arguments in the same way.
\<close>

end
